(* ===== verification/Prelude.thy ===== *)
theory Prelude
  imports Main "HOL-Library.Word" "HOL-Library.Multiset"
begin

text \<open>
  Shared vocabulary of the development: how a Go function that returns, panics, exits or loops
  is represented, the error values the program distinguishes, and the rules by which invariants
  are carried through the body of a function.

  A Go function with effects on a state of type \<open>'s\<close> and a result of type \<open>'a\<close> is a function
  \<open>'s \<Rightarrow> 'a outcome \<times> 's\<close>. The outcome says whether the function returned (\<open>Ret\<close>), panicked
  (\<open>Panic\<close>), terminated the process through \<^verbatim>\<open>glog.Fatal\<close> (\<open>Fatal\<close>) or never returns
  (\<open>Diverge\<close>). A Go result \<^verbatim>\<open>(T, error)\<close> is a value of type \<open>error + 'a\<close>, with \<open>Inl\<close> for a
  non-nil error.
\<close>

named_theorems keeps_rules \<open>syntax-directed rules for preservation of an invariant\<close>
named_theorems run_simps \<open>evaluation of program combinators at a state\<close>

section \<open>Outcomes and programs\<close>

datatype 'a outcome = Ret 'a | Panic string | Fatal string | Diverge

type_synonym ('s, 'a) prog = "'s \<Rightarrow> 'a outcome \<times> 's"

type_synonym byte = "8 word"
type_synonym u64 = "64 word"
type_synonym int64 = "64 word"

definition ret :: "'a \<Rightarrow> ('s, 'a) prog" where
  "ret x = (\<lambda>s. (Ret x, s))"

definition bnd :: "('s, 'a) prog \<Rightarrow> ('a \<Rightarrow> ('s, 'b) prog) \<Rightarrow> ('s, 'b) prog" where
  "bnd m f = (\<lambda>s. case m s of
       (Ret x, t) \<Rightarrow> f x t
     | (Panic e, t) \<Rightarrow> (Panic e, t)
     | (Fatal e, t) \<Rightarrow> (Fatal e, t)
     | (Diverge, t) \<Rightarrow> (Diverge, t))"

definition panic :: "string \<Rightarrow> ('s, 'a) prog" where
  "panic e = (\<lambda>s. (Panic e, s))"

definition fatal :: "string \<Rightarrow> ('s, 'a) prog" where
  "fatal e = (\<lambda>s. (Fatal e, s))"

definition gets :: "('s \<Rightarrow> 'a) \<Rightarrow> ('s, 'a) prog" where
  "gets f = (\<lambda>s. (Ret (f s), s))"

definition modify :: "('s \<Rightarrow> 's) \<Rightarrow> ('s, unit) prog" where
  "modify f = (\<lambda>s. (Ret (), f s))"

text \<open>The idiom \<^verbatim>\<open>x, err := m(); if err != nil { return err }\<close>.\<close>

definition try_bnd ::
  "('s, 'e + 'a) prog \<Rightarrow> ('a \<Rightarrow> ('s, 'e + 'b) prog) \<Rightarrow> ('s, 'e + 'b) prog" where
  "try_bnd m f = bnd m (\<lambda>r. case r of Inl e \<Rightarrow> ret (Inl e) | Inr x \<Rightarrow> f x)"

text \<open>Running an operation of one object on the part of the state that holds that object.\<close>

definition zoom :: "('s \<Rightarrow> 't) \<Rightarrow> ('t \<Rightarrow> 's \<Rightarrow> 's) \<Rightarrow> ('t, 'a) prog \<Rightarrow> ('s, 'a) prog" where
  "zoom get put m = (\<lambda>s. case m (get s) of (r, t) \<Rightarrow> (r, put t s))"

text \<open>Running a function on a variable of the caller that it receives by reference.\<close>

definition run_on :: "('t, 'a) prog \<Rightarrow> 't \<Rightarrow> ('s, 'a \<times> 't) prog" where
  "run_on m t = (\<lambda>s. case m t of
       (Ret x, t') \<Rightarrow> (Ret (x, t'), s)
     | (Panic e, t') \<Rightarrow> (Panic e, s)
     | (Fatal e, t') \<Rightarrow> (Fatal e, s)
     | (Diverge, t') \<Rightarrow> (Diverge, s))"

text \<open>A loop that may run forever is a \<^theory_text>\<open>partial_function\<close>; \<open>None\<close> is not returning.\<close>

definition of_loop :: "('s \<Rightarrow> ('a outcome \<times> 's) option) \<Rightarrow> ('s, 'a) prog" where
  "of_loop l = (\<lambda>s. case l s of None \<Rightarrow> (Diverge, s) | Some r \<Rightarrow> r)"

text \<open>A loop over a slice whose body may return early from the function.\<close>

fun for_each :: "('x \<Rightarrow> 'a \<Rightarrow> ('s, 'e + 'a) prog) \<Rightarrow> 'x list \<Rightarrow> 'a \<Rightarrow> ('s, 'e + 'a) prog" where
  "for_each body [] acc = ret (Inr acc)"
| "for_each body (x # xs) acc = try_bnd (body x acc) (for_each body xs)"

text \<open>A loop over a slice whose body has no result.\<close>

fun for_do :: "('x \<Rightarrow> ('s, unit) prog) \<Rightarrow> 'x list \<Rightarrow> ('s, unit) prog" where
  "for_do body [] = ret ()"
| "for_do body (x # xs) = bnd (body x) (\<lambda>_. for_do body xs)"

section \<open>Evaluation rules\<close>

lemma ret_run [simp, run_simps]: "ret x s = (Ret x, s)"
  by (simp add: ret_def)

lemma panic_run [simp, run_simps]: "panic e s = (Panic e, s)"
  by (simp add: panic_def)

lemma fatal_run [simp, run_simps]: "fatal e s = (Fatal e, s)"
  by (simp add: fatal_def)

lemma gets_run [simp, run_simps]: "gets f s = (Ret (f s), s)"
  by (simp add: gets_def)

lemma modify_run [simp, run_simps]: "modify f s = (Ret (), f s)"
  by (simp add: modify_def)

lemma bnd_run:
  "bnd m f s = (case m s of (Ret x, t) \<Rightarrow> f x t | (Panic e, t) \<Rightarrow> (Panic e, t)
     | (Fatal e, t) \<Rightarrow> (Fatal e, t) | (Diverge, t) \<Rightarrow> (Diverge, t))"
  by (simp add: bnd_def)

lemma bnd_Ret [run_simps]: "m s = (Ret x, t) \<Longrightarrow> bnd m f s = f x t"
  by (simp add: bnd_def)

lemma try_bnd_Inr [run_simps]: "m s = (Ret (Inr x), t) \<Longrightarrow> try_bnd m f s = f x t"
  by (simp add: try_bnd_def bnd_def)

lemma try_bnd_Inl [run_simps]: "m s = (Ret (Inl e), t) \<Longrightarrow> try_bnd m f s = (Ret (Inl e), t)"
  by (simp add: try_bnd_def bnd_def)

lemma bnd_run_simps [simp]:
  "bnd (ret x) f = f x"
  "bnd (gets g) f s = f (g s) s"
  "bnd (modify h) k s = k () (h s)"
  "bnd (panic e) f' s = (Panic e, s)"
  "bnd (fatal e) f' s = (Fatal e, s)"
  by (simp_all add: bnd_def fun_eq_iff)

lemma bnd_assoc [simp]: "bnd (bnd m f) g = bnd m (\<lambda>x. bnd (f x) g)"
  by (auto simp: bnd_def fun_eq_iff split: prod.splits outcome.splits)

lemma bnd_ret_right: "bnd m ret = m"
  by (auto simp: bnd_def fun_eq_iff split: prod.splits outcome.splits)

lemma zoom_run [run_simps]: "m (get s) = (r, t) \<Longrightarrow> zoom get put m s = (r, put t s)"
  by (simp add: zoom_def)

lemma run_on_run: "run_on m t s =
   (case m t of (Ret x, t') \<Rightarrow> (Ret (x, t'), s) | (Panic e, t') \<Rightarrow> (Panic e, s)
     | (Fatal e, t') \<Rightarrow> (Fatal e, s) | (Diverge, t') \<Rightarrow> (Diverge, s))"
  by (simp add: run_on_def)

lemma run_on_state: "snd (run_on m t s) = s"
  by (simp add: run_on_def split: prod.split outcome.split)

section \<open>Preservation of invariants\<close>

definition keeps :: "('s \<Rightarrow> bool) \<Rightarrow> ('s, 'a) prog \<Rightarrow> bool" where
  "keeps I m \<longleftrightarrow> (\<forall>s. I s \<longrightarrow> I (snd (m s)))"

lemma keepsI: "(\<And>s. I s \<Longrightarrow> I (snd (m s))) \<Longrightarrow> keeps I m"
  by (simp add: keeps_def)

lemma keepsD: "keeps I m \<Longrightarrow> I s \<Longrightarrow> I (snd (m s))"
  by (simp add: keeps_def)

lemma keepsD_run: "keeps I m \<Longrightarrow> I s \<Longrightarrow> m s = (r, t) \<Longrightarrow> I t"
  by (auto simp: keeps_def)

lemma keeps_ret [keeps_rules]: "keeps I (ret x)"
  by (simp add: keeps_def)

lemma keeps_panic [keeps_rules]: "keeps I (panic e)"
  by (simp add: keeps_def)

lemma keeps_fatal [keeps_rules]: "keeps I (fatal e)"
  by (simp add: keeps_def)

lemma keeps_gets [keeps_rules]: "keeps I (gets f)"
  by (simp add: keeps_def)

lemma keeps_modify: "(\<And>s. I s \<Longrightarrow> I (f s)) \<Longrightarrow> keeps I (modify f)"
  by (simp add: keeps_def)

lemma keeps_bnd [keeps_rules]:
  "keeps I m \<Longrightarrow> (\<And>x. keeps I (f x)) \<Longrightarrow> keeps I (bnd m f)"
  by (fastforce simp: keeps_def bnd_def split: prod.splits outcome.splits)

lemma keeps_case_sum [keeps_rules]:
  "(\<And>e. r = Inl e \<Longrightarrow> keeps I (f e)) \<Longrightarrow> (\<And>x. r = Inr x \<Longrightarrow> keeps I (g x)) \<Longrightarrow>
   keeps I (case r of Inl e \<Rightarrow> f e | Inr x \<Rightarrow> g x)"
  by (simp split: sum.split)

lemma keeps_case_option [keeps_rules]:
  "(r = None \<Longrightarrow> keeps I f) \<Longrightarrow> (\<And>x. r = Some x \<Longrightarrow> keeps I (g x)) \<Longrightarrow>
   keeps I (case r of None \<Rightarrow> f | Some x \<Rightarrow> g x)"
  by (simp split: option.split)

lemma keeps_case_prod [keeps_rules]:
  "(\<And>a b. p = (a, b) \<Longrightarrow> keeps I (f a b)) \<Longrightarrow> keeps I (case p of (a, b) \<Rightarrow> f a b)"
  by (simp split: prod.split)

lemma keeps_if [keeps_rules]:
  "(b \<Longrightarrow> keeps I m) \<Longrightarrow> (\<not> b \<Longrightarrow> keeps I n) \<Longrightarrow> keeps I (if b then m else n)"
  by simp

lemma keeps_Let [keeps_rules]: "(\<And>x. x = e \<Longrightarrow> keeps I (f x)) \<Longrightarrow> keeps I (let x = e in f x)"
  by simp

lemma keeps_try_bnd [keeps_rules]:
  "keeps I m \<Longrightarrow> (\<And>x. keeps I (f x)) \<Longrightarrow> keeps I (try_bnd m f)"
  unfolding try_bnd_def by (intro keeps_rules) auto

lemma keeps_for_each [keeps_rules]:
  "(\<And>x a. x \<in> set xs \<Longrightarrow> keeps I (body x a)) \<Longrightarrow> keeps I (for_each body xs acc)"
  by (induction xs arbitrary: acc) (auto intro!: keeps_rules)

lemma keeps_for_do [keeps_rules]:
  "(\<And>x. x \<in> set xs \<Longrightarrow> keeps I (body x)) \<Longrightarrow> keeps I (for_do body xs)"
  by (induction xs) (auto intro!: keeps_rules)

lemma for_do_Ret:
  assumes "\<And>x s. x \<in> set xs \<Longrightarrow> I s \<Longrightarrow> body x s = (Ret (), f x s) \<and> I (f x s)" and "I s"
  shows "for_do body xs s = (Ret (), fold f xs s)"
  using assms by (induction xs arbitrary: s) (simp_all add: bnd_Ret)

lemma keeps_run_on [keeps_rules]: "keeps I (run_on m t)"
  by (simp add: keeps_def run_on_state)

lemma keeps_zoom:
  "(\<And>s. I s \<Longrightarrow> J (get s)) \<Longrightarrow> keeps J m \<Longrightarrow> (\<And>s t. I s \<Longrightarrow> J t \<Longrightarrow> I (put t s)) \<Longrightarrow>
   keeps I (zoom get put m)"
  by (fastforce simp: keeps_def zoom_def split: prod.splits)

lemma keeps_of_loop:
  "(\<And>s r t. I s \<Longrightarrow> l s = Some (r, t) \<Longrightarrow> I t) \<Longrightarrow> keeps I (of_loop l)"
  by (auto simp: keeps_def of_loop_def split: option.splits prod.splits)

lemma keeps_conj: "keeps I m \<Longrightarrow> keeps J m \<Longrightarrow> keeps (\<lambda>s. I s \<and> J s) m"
  by (simp add: keeps_def)

text \<open>A field that a program never writes keeps its value: the frame rule in use everywhere.\<close>

lemma keeps_frame: "(\<And>c. keeps (\<lambda>s. f s = c) m) \<Longrightarrow> f (snd (m s)) = f s"
  by (simp add: keeps_def)

section \<open>Total correctness\<close>

text \<open>From a state with \<open>P\<close> the program returns, and then \<open>Q\<close> holds of its result and the state.\<close>

definition returns :: "('s \<Rightarrow> bool) \<Rightarrow> ('s, 'a) prog \<Rightarrow> ('a \<Rightarrow> 's \<Rightarrow> bool) \<Rightarrow> bool" where
  "returns P m Q \<longleftrightarrow> (\<forall>s. P s \<longrightarrow> (\<exists>x t. m s = (Ret x, t) \<and> Q x t))"

lemma returnsI: "(\<And>s. P s \<Longrightarrow> \<exists>x t. m s = (Ret x, t) \<and> Q x t) \<Longrightarrow> returns P m Q"
  by (simp add: returns_def)

lemma returnsE:
  assumes "returns P m Q" "P s"
  obtains x t where "m s = (Ret x, t)" "Q x t"
  using assms by (auto simp: returns_def)

lemma returnsD: "returns P m Q \<Longrightarrow> P s \<Longrightarrow> m s = (Ret x, t) \<Longrightarrow> Q x t"
  by (force simp: returns_def)

lemma returns_conseq:
  "returns P m Q \<Longrightarrow> (\<And>s. P' s \<Longrightarrow> P s) \<Longrightarrow> (\<And>x t. Q x t \<Longrightarrow> Q' x t) \<Longrightarrow> returns P' m Q'"
  unfolding returns_def by blast

lemma returns_ret:
  "(\<And>s. P s \<Longrightarrow> Q x s) \<Longrightarrow> returns P (ret x) Q"
  "(\<And>s. P s \<Longrightarrow> Q x s) \<Longrightarrow> returns P (Pair (Ret x)) Q"
  by (simp_all add: returns_def)

lemma returns_gets: "(\<And>s. P s \<Longrightarrow> Q (f s) s) \<Longrightarrow> returns P (gets f) Q"
  by (simp add: returns_def)

lemma returns_bnd: "returns P m Q \<Longrightarrow> (\<And>x. returns (Q x) (f x) R) \<Longrightarrow> returns P (bnd m f) R"
  unfolding returns_def by (metis bnd_Ret)

lemma returns_try_bnd:
  assumes "returns P m Q" "\<And>x. returns (Q (Inr x)) (f x) R" "\<And>e s. Q (Inl e) s \<Longrightarrow> R (Inl e) s"
  shows "returns P (try_bnd m f) R"
  unfolding try_bnd_def
proof (rule returns_bnd [OF assms(1)])
  show "returns (Q r) (case r of Inl e \<Rightarrow> ret (Inl e) | Inr x \<Rightarrow> f x) R" for r
    using assms(2,3) by (cases r) (auto intro: returns_ret)
qed

lemma returns_keeps: "returns P m Q \<Longrightarrow> keeps I m \<Longrightarrow> returns (\<lambda>s. P s \<and> I s) m (\<lambda>x t. Q x t \<and> I t)"
  unfolding returns_def keeps_def by (metis snd_conv)

text \<open>
  A loop \<^verbatim>\<open>for { ... }\<close> whose body either leaves it with a value (\<open>Inl\<close>) or goes round with new values
  of its variables (\<open>Inr\<close>).
\<close>

partial_function (option) loop ::
  "('a \<Rightarrow> ('s, 'b + 'a) prog) \<Rightarrow> 'a \<Rightarrow> 's \<Rightarrow> ('b outcome \<times> 's) option" where
  "loop body a s = (case body a s of
       (Ret (Inl b), t) \<Rightarrow> Some (Ret b, t)
     | (Ret (Inr a'), t) \<Rightarrow> loop body a' t
     | (Panic e, t) \<Rightarrow> Some (Panic e, t)
     | (Fatal e, t) \<Rightarrow> Some (Fatal e, t)
     | (Diverge, t) \<Rightarrow> Some (Diverge, t))"

lemma returns_loop:
  fixes measure_of :: "'a \<Rightarrow> 's \<Rightarrow> nat"
  assumes "\<And>a n. returns (\<lambda>s. I a s \<and> measure_of a s = n) (body a)
      (\<lambda>r t. case r of Inl b \<Rightarrow> Q b t | Inr a' \<Rightarrow> I a' t \<and> measure_of a' t < n)"
  shows "returns (I a) (of_loop (loop body a)) Q"
proof (rule returnsI)
  fix s
  assume "I a s"
  then show "\<exists>x t. of_loop (loop body a) s = (Ret x, t) \<and> Q x t"
  proof (induction "measure_of a s" arbitrary: a s rule: less_induct)
    case less
    obtain r t where run: "body a s = (Ret r, t)"
      and post: "case r of Inl b \<Rightarrow> Q b t | Inr a' \<Rightarrow> I a' t \<and> measure_of a' t < measure_of a s"
      using returnsE [OF assms [of a "measure_of a s"]] less.prems by blast
    show ?case
    proof (cases r)
      case (Inl b)
      with run post show ?thesis by (simp add: of_loop_def loop.simps)
    next
      case (Inr a')
      with post obtain x u where "of_loop (loop body a') t = (Ret x, u)" "Q x u"
        using less.hyps [of a' t] by auto
      moreover have "loop body a s = loop body a' t" using run Inr by (simp add: loop.simps [of body a])
      ultimately show ?thesis by (cases "loop body a' t") (auto simp: of_loop_def)
    qed
  qed
qed

text \<open>\<^verbatim>\<open>defer\<close>: the deferred call runs when the function returns or panics, and its result is dropped.\<close>

definition defer_call :: "('s, 'b) prog \<Rightarrow> ('s, 'a) prog \<Rightarrow> ('s, 'a) prog" where
  "defer_call d m = (\<lambda>s. case m s of
       (Ret x, t) \<Rightarrow> bnd d (\<lambda>_. ret x) t
     | (Panic e, t) \<Rightarrow> bnd d (\<lambda>_. panic e) t
     | (Fatal e, t) \<Rightarrow> (Fatal e, t)
     | (Diverge, t) \<Rightarrow> (Diverge, t))"

lemma keeps_defer [keeps_rules]:
  fixes m :: "('s, 'a) prog"
  assumes d: "keeps I d" and m: "keeps I m"
  shows "keeps I (defer_call d m)"
proof (rule keepsI)
  fix s
  assume "I s"
  then have "I (snd (m s))" using m by (rule keepsD [rotated])
  moreover have "keeps I (bnd d (\<lambda>_. ret x))" "keeps I (bnd d (\<lambda>_. panic e) :: ('s, 'a) prog)" for x :: 'a and e
    by (intro keeps_rules d)+
  ultimately show "I (snd (defer_call d m s))"
    by (auto simp: defer_call_def keeps_def split: prod.splits outcome.splits)
qed

lemma returns_defer:
  assumes "returns P m Q" "\<And>x. returns (Q x) d (\<lambda>_. R x)"
  shows "returns P (defer_call d m) R"
  unfolding returns_def
proof (intro allI impI)
  fix s
  assume "P s"
  then obtain x t where "m s = (Ret x, t)" "Q x t" using assms(1) by (elim returnsE)
  moreover from \<open>Q x t\<close> obtain y u where "d t = (Ret y, u)" "R x u"
    by (rule returnsE [OF assms(2)])
  ultimately show "\<exists>x t. defer_call d m s = (Ret x, t) \<and> R x t"
    by (simp add: defer_call_def bnd_Ret)
qed

text \<open>A local variable that several calls update.\<close>

definition with_local :: "'v \<Rightarrow> ('s \<times> 'v, 'a) prog \<Rightarrow> ('s, 'a \<times> 'v) prog" where
  "with_local v m = (\<lambda>s. case m (s, v) of
       (Ret x, (t, w)) \<Rightarrow> (Ret (x, w), t)
     | (Panic e, (t, w)) \<Rightarrow> (Panic e, t)
     | (Fatal e, (t, w)) \<Rightarrow> (Fatal e, t)
     | (Diverge, (t, w)) \<Rightarrow> (Diverge, t))"

abbreviation outer :: "('s, 'a) prog \<Rightarrow> ('s \<times> 'v, 'a) prog" where
  "outer \<equiv> zoom fst (\<lambda>t (s, v). (t, v))"

lemma returns_with_local:
  assumes "returns (\<lambda>(s, w). w = v \<and> P s) m (\<lambda>x (t, w). Q (x, w) t)"
  shows "returns P (with_local v m) Q"
  using assms unfolding returns_def with_local_def by fastforce

lemma keeps_with_local:
  assumes "keeps (\<lambda>(s, w). I s) m"
  shows "keeps I (with_local v m)"
proof (rule keepsI)
  fix s
  assume "I s"
  then have "I (fst (snd (m (s, v))))" using keepsD [OF assms, of "(s, v)"] by (simp add: case_prod_beta)
  then show "I (snd (with_local v m s))"
    by (auto simp: with_local_def split: prod.split outcome.split)
qed

lemma returns_zoom:
  assumes "\<And>s. P s \<Longrightarrow> returns (\<lambda>t. t = get s) m (\<lambda>x t. Q x (put t s))"
  shows "returns P (zoom get put m) Q"
proof (rule returnsI)
  fix s
  assume "P s"
  from assms [OF this] obtain x t where "m (get s) = (Ret x, t)" "Q x (put t s)"
    by (elim returnsE) simp_all
  then show "\<exists>x t. zoom get put m s = (Ret x, t) \<and> Q x t" by (simp add: zoom_def)
qed

text \<open>A program that always returns keeps an invariant also in the sense of total correctness.\<close>

definition total_prog :: "('s, 'a) prog \<Rightarrow> bool" where
  "total_prog m \<longleftrightarrow> (\<forall>s. \<exists>x t. m s = (Ret x, t))"

lemma returns_invariant: "total_prog m \<Longrightarrow> keeps P m \<Longrightarrow> returns P m (\<lambda>_. P)"
  unfolding returns_def keeps_def total_prog_def by (metis snd_conv)

lemma returns_outer:
  assumes "\<And>v. returns (\<lambda>s. P s v) m (\<lambda>x t. Q x t v)"
  shows "returns (\<lambda>(s, v). P s v) (outer m) (\<lambda>x (t, v). Q x t v)"
proof -
  have "\<exists>x t. outer m (s, v) = (Ret x, t) \<and> (case t of (t, v) \<Rightarrow> Q x t v)" if pre: "P s v" for s v
  proof -
    obtain x t where "m s = (Ret x, t)" "Q x t v"
      by (rule returnsE [OF assms pre])
    then show ?thesis by (simp add: zoom_def)
  qed
  then show ?thesis by (auto simp: returns_def)
qed

lemma keeps_outer: "keeps I m \<Longrightarrow> keeps (\<lambda>(s, v). I s) (outer m)"
  by (auto simp: keeps_def zoom_def split: prod.splits)

lemma keeps_modify_local [keeps_rules]:
  "keeps (\<lambda>(s, v). I s) (modify (\<lambda>(s, v). (s, f v)))"
  by (auto simp: keeps_def)

section \<open>Error values\<close>

text \<open>
  The kernel's error numbers the program tells apart (\<^verbatim>\<open>os.IsNotExist\<close>, \<^verbatim>\<open>os.IsExist\<close>), and the
  SQLite result codes it tells apart (\<^verbatim>\<open>sqlite3.ErrBusy\<close>); every other code is a number.
\<close>

datatype errno = ENOENT | EEXIST | ENOTEMPTY | ENOTDIR | EISDIR | ELOOP | EINVAL | EErrno nat

datatype sqlite_code = ErrBusy | ErrConstraint | ErrCode nat

datatype num_error = ErrSyntax | ErrRange

datatype error =
    OsError errno
  | EOF
  | ErrShortWrite
  | ErrClosed
  | FuseENOENT
  | SqliteError sqlite_code
  | ErrNoRows
  | SqlConvertError
  | NumError num_error
  | ErrorString string
  | Errorf string error

definition IsNotExist :: "error \<Rightarrow> bool" where
  "IsNotExist e \<longleftrightarrow> e = OsError ENOENT"

definition IsExist :: "error \<Rightarrow> bool" where
  "IsExist e \<longleftrightarrow> e = OsError EEXIST \<or> e = OsError ENOTEMPTY"

type_synonym 'a result = "error + 'a"

section \<open>Association lists\<close>

lemma map_of_append_fresh:
  "k \<notin> fst ` set xs \<Longrightarrow> map_of (xs @ [(k, v)]) = (map_of xs)(k \<mapsto> v)"
  by (induction xs) (auto simp: fun_eq_iff)

lemma map_of_map_upd:
  "map_of (map (\<lambda>(k, v). (k, f k v)) xs) k = map_option (f k) (map_of xs k)"
  by (induction xs) auto

lemma find_SomeD: "find P xs = Some x \<Longrightarrow> x \<in> set xs \<and> P x"
  by (induction xs) (auto split: if_splits)

lemma find_append:
  "find P (xs @ ys) = (case find P xs of None \<Rightarrow> find P ys | Some x \<Rightarrow> Some x)"
  by (induction xs) auto

lemma set_map_filter: "x \<in> set (List.map_filter f xs) \<longleftrightarrow> (\<exists>y\<in>set xs. f y = Some x)"
  by (induction xs) (auto simp: List.map_filter_simps split: option.splits)

end
