(* ===== verification/Go_Strings.thy ===== *)
theory Go_Strings
  imports Prelude
begin

text \<open>
  The functions of Go's standard library on strings that the program calls: \<^verbatim>\<open>strings.Split\<close> and
  \<^verbatim>\<open>strings.Join\<close>, decimal formatting and \<^verbatim>\<open>strconv.ParseUint\<close>, and the lexical path functions
  \<^verbatim>\<open>filepath.Clean\<close>, \<^verbatim>\<open>filepath.Join\<close> and \<^verbatim>\<open>filepath.Base\<close> on Unix. A Go string is a sequence of
  bytes, here a \<^typ>\<open>string\<close>.
\<close>

section \<open>Splitting and joining\<close>

text \<open>\<^verbatim>\<open>strings.Split(s, sep)\<close> for a separator of one byte, as everywhere in the program.\<close>

fun split_on :: "char \<Rightarrow> string \<Rightarrow> string list" where
  "split_on c [] = [[]]"
| "split_on c (x # xs) =
     (if x = c then [] # split_on c xs
      else (case split_on c xs of [] \<Rightarrow> [[x]] | p # ps \<Rightarrow> (x # p) # ps))"

fun join_with :: "char \<Rightarrow> string list \<Rightarrow> string" where
  "join_with c [] = []"
| "join_with c [p] = p"
| "join_with c (p # ps) = p @ c # join_with c ps"

lemma split_on_not_Nil [simp]: "split_on c s \<noteq> []"
  by (induction s) (auto split: list.splits)

lemma split_on_append_free:
  "c \<notin> set p \<Longrightarrow> split_on c (p @ s) =
     (case split_on c s of [] \<Rightarrow> [p] | q # qs \<Rightarrow> (p @ q) # qs)"
  by (induction p) (auto split: list.splits)

lemma split_on_free: "c \<notin> set p \<Longrightarrow> split_on c p = [p]"
  using split_on_append_free [of c p "[]"] by simp

lemma split_on_Cons_free: "c \<notin> set p \<Longrightarrow> split_on c (p @ c # s) = p # split_on c s"
  by (simp add: split_on_append_free)

lemma split_on_snoc: "split_on c (s @ c # t) = split_on c s @ split_on c t"
proof (induction s)
  case (Cons x xs)
  then show ?case by (cases "split_on c xs") auto
qed simp

lemma join_with_Cons: "ps \<noteq> [] \<Longrightarrow> join_with c (p # ps) = p @ c # join_with c ps"
  by (cases ps) auto

lemma join_with_snoc: "ps \<noteq> [] \<Longrightarrow> join_with c (ps @ [p]) = join_with c ps @ c # p"
  by (induction ps rule: join_with.induct) auto

lemma split_on_join_with:
  "ps \<noteq> [] \<Longrightarrow> (\<And>p. p \<in> set ps \<Longrightarrow> c \<notin> set p) \<Longrightarrow> split_on c (join_with c ps) = ps"
  by (induction ps rule: join_with.induct) (auto simp: split_on_free split_on_Cons_free)

lemma join_with_split_on: "join_with c (split_on c s) = s"
proof (induction s)
  case (Cons x xs)
  show ?case
  proof (cases "split_on c xs")
    case (Cons p ps)
    with Cons.IH show ?thesis by (cases ps) auto
  qed simp
qed simp

lemma split_on_parts_free: "p \<in> set (split_on c s) \<Longrightarrow> c \<notin> set p"
proof (induction s arbitrary: p)
  case (Cons x xs)
  then show ?case by (cases "split_on c xs") (auto split: if_splits)
qed simp

lemma set_join_with: "set (join_with c ps) \<subseteq> insert c (\<Union>p\<in>set ps. set p)"
  by (induction ps rule: join_with.induct) auto

section \<open>Decimal numbers\<close>

definition digit_char :: "nat \<Rightarrow> char" where
  "digit_char d = ''0123456789'' ! d"

definition is_digit :: "char \<Rightarrow> bool" where
  "is_digit c \<longleftrightarrow> c \<in> set ''0123456789''"

definition digit_val :: "char \<Rightarrow> nat" where
  "digit_val c = (of_char c :: nat) - 48"

text \<open>\<^verbatim>\<open>%d\<close> of an unsigned number.\<close>

fun show_nat :: "nat \<Rightarrow> string" where
  "show_nat n = (if n < 10 then [digit_char n] else show_nat (n div 10) @ [digit_char (n mod 10)])"

declare show_nat.simps [simp del]

text \<open>
  \<^verbatim>\<open>strconv.ParseUint(s, 10, 64)\<close>: digits are read left to right; a byte that is no digit is a
  syntax error and a prefix that exceeds \<open>2\<^sup>6\<^sup>4 - 1\<close> a range error, whichever comes first.
\<close>

fun parse_digits :: "nat \<Rightarrow> string \<Rightarrow> error + nat" where
  "parse_digits acc [] = Inr acc"
| "parse_digits acc (c # cs) =
     (if \<not> is_digit c then Inl (NumError ErrSyntax)
      else if acc * 10 + digit_val c \<ge> 2 ^ 64 then Inl (NumError ErrRange)
      else parse_digits (acc * 10 + digit_val c) cs)"

definition ParseUint :: "string \<Rightarrow> error + u64" where
  "ParseUint s =
     (if s = [] then Inl (NumError ErrSyntax)
      else case parse_digits 0 s of Inl e \<Rightarrow> Inl e | Inr n \<Rightarrow> Inr (word_of_nat n))"

lemma less_10_cases:
  "(d::nat) < 10 \<Longrightarrow> d = 0 \<or> d = 1 \<or> d = 2 \<or> d = 3 \<or> d = 4 \<or> d = 5 \<or> d = 6 \<or> d = 7 \<or> d = 8 \<or> d = 9"
  by arith

lemma digit_char_props:
  assumes "d < 10"
  shows "is_digit (digit_char d)" "digit_val (digit_char d) = d"
  using less_10_cases [OF assms] by (auto simp: is_digit_def digit_char_def digit_val_def)

lemma is_digit_no_sep: "is_digit c \<Longrightarrow> c \<noteq> CHR ''/'' \<and> c \<noteq> CHR 0x01"
  by (auto simp: is_digit_def)

lemma show_nat_not_Nil [simp]: "show_nat n \<noteq> []"
  by (subst show_nat.simps) simp

lemma show_nat_digits: "c \<in> set (show_nat n) \<Longrightarrow> is_digit c"
proof (induction n rule: show_nat.induct)
  case (1 n)
  then show ?case
    by (cases "n < 10") (auto simp: show_nat.simps [of n] digit_char_props)
qed

lemma parse_digits_append:
  "parse_digits a (xs @ ys) =
     (case parse_digits a xs of Inl e \<Rightarrow> Inl e | Inr b \<Rightarrow> parse_digits b ys)"
  by (induction xs arbitrary: a) auto

lemma parse_digits_show_nat: "n < 2 ^ 64 \<Longrightarrow> parse_digits 0 (show_nat n) = Inr n"
proof (induction n rule: show_nat.induct)
  case (1 n)
  show ?case
  proof (cases "n < 10")
    case True
    then show ?thesis by (simp add: show_nat.simps [of n] digit_char_props)
  next
    case False
    with 1 have "parse_digits 0 (show_nat (n div 10)) = Inr (n div 10)" by simp
    with False 1(2) show ?thesis
      by (simp add: show_nat.simps [of n] parse_digits_append digit_char_props)
  qed
qed

lemma ParseUint_show_nat: "ParseUint (show_nat (unat (w :: u64))) = Inr w"
proof -
  have "unat w < 2 ^ 64" using unsigned_less [of w] by (simp add: unsigned_less)
  then show ?thesis by (simp add: ParseUint_def parse_digits_show_nat)
qed

section \<open>Lexical paths\<close>

text \<open>
  \<^verbatim>\<open>filepath.Clean\<close> as its documentation states it: multiple separators are one, \<^verbatim>\<open>.\<close> elements
  vanish, \<^verbatim>\<open>..\<close> removes the element before it, and a leading \<^verbatim>\<open>..\<close> of a rooted path vanishes. The
  elements kept so far are a stack, the last one first.
\<close>

fun clean_step :: "bool \<Rightarrow> string list \<Rightarrow> string \<Rightarrow> string list" where
  "clean_step rooted st e =
     (if e = [] \<or> e = ''.'' then st
      else if e = ''..'' then
        (case st of
           [] \<Rightarrow> (if rooted then [] else [''..''])
         | t # st' \<Rightarrow> (if t = ''..'' then ''..'' # st else st'))
      else e # st)"

definition is_rooted :: "string \<Rightarrow> bool" where
  "is_rooted p \<longleftrightarrow> p \<noteq> [] \<and> hd p = CHR ''/''"

definition path_elems :: "string \<Rightarrow> string list" where
  "path_elems p = rev (foldl (clean_step (is_rooted p)) [] (split_on (CHR ''/'') p))"

definition render_path :: "bool \<Rightarrow> string list \<Rightarrow> string" where
  "render_path rooted es =
     (if rooted then CHR ''/'' # join_with (CHR ''/'') es
      else if es = [] then ''.'' else join_with (CHR ''/'') es)"

definition Clean :: "string \<Rightarrow> string" where
  "Clean p = render_path (is_rooted p) (path_elems p)"

text \<open>\<^verbatim>\<open>filepath.Join(a, b)\<close>: empty elements are ignored.\<close>

definition path_Join :: "string \<Rightarrow> string \<Rightarrow> string" where
  "path_Join a b =
     (if a = [] \<and> b = [] then []
      else if a = [] then Clean b
      else if b = [] then Clean a
      else Clean (a @ CHR ''/'' # b))"

text \<open>\<^verbatim>\<open>filepath.Base\<close>: the last element, after trailing separators are removed.\<close>

definition path_Base :: "string \<Rightarrow> string" where
  "path_Base p =
     (if p = [] then ''.''
      else let q = rev (dropWhile (\<lambda>c. c = CHR ''/'') (rev p))
           in if q = [] then ''/'' else last (split_on (CHR ''/'') q))"

text \<open>A name of a directory entry, as the kernel hands them out.\<close>

definition valid_name :: "string \<Rightarrow> bool" where
  "valid_name n \<longleftrightarrow> n \<noteq> [] \<and> n \<noteq> ''.'' \<and> n \<noteq> ''..'' \<and> CHR ''/'' \<notin> set n"

definition clean_abs :: "string \<Rightarrow> bool" where
  "clean_abs p \<longleftrightarrow> is_rooted p \<and> Clean p = p"

lemma path_elems_snoc:
  "p \<noteq> [] \<Longrightarrow> valid_name n \<Longrightarrow> path_elems (p @ CHR ''/'' # n) = path_elems p @ [n]"
  by (auto simp: path_elems_def split_on_snoc valid_name_def split_on_free is_rooted_def)

lemma clean_abs_render:
  "clean_abs p \<Longrightarrow> CHR ''/'' # join_with (CHR ''/'') (path_elems p) = p"
  by (auto simp: clean_abs_def Clean_def render_path_def)

lemma path_Join_valid:
  assumes p: "clean_abs p" and n: "valid_name n"
  shows "path_Join p n = (if p = ''/'' then ''/'' @ n else p @ ''/'' @ n)"
proof -
  from p have ne: "p \<noteq> []" and r: "is_rooted p" by (auto simp: clean_abs_def is_rooted_def)
  from r ne have r': "is_rooted (p @ CHR ''/'' # n)" by (simp add: is_rooted_def)
  from p have pe: "CHR ''/'' # join_with (CHR ''/'') (path_elems p) = p"
    by (rule clean_abs_render)
  have "path_Join p n = CHR ''/'' # join_with (CHR ''/'') (path_elems p @ [n])"
    using ne n r' by (simp add: path_Join_def Clean_def render_path_def path_elems_snoc valid_name_def)
  moreover have "path_elems p = [] \<longleftrightarrow> p = ''/''"
  proof
    assume "path_elems p = []"
    with pe show "p = ''/''" by simp
  next
    assume "p = ''/''"
    then show "path_elems p = []" by (simp add: path_elems_def is_rooted_def)
  qed
  ultimately show ?thesis using pe by (cases "path_elems p = []") (simp_all add: join_with_snoc)
qed

lemma path_Join_inj:
  assumes "clean_abs p" "valid_name m" "valid_name n" "path_Join p m = path_Join p n"
  shows "m = n"
  using assms by (simp add: path_Join_valid split: if_splits)

lemma path_Join_ne_parent:
  assumes "clean_abs p" "valid_name n"
  shows "path_Join p n \<noteq> p"
  using assms by (auto simp: path_Join_valid valid_name_def)

lemma path_Join_clean_abs:
  assumes p: "clean_abs p" and n: "valid_name n"
  shows "clean_abs (path_Join p n)"
proof -
  from p have ne: "p \<noteq> []" and r: "is_rooted p" by (auto simp: clean_abs_def is_rooted_def)
  from n have n': "n \<noteq> []" by (simp add: valid_name_def)
  have r': "is_rooted (p @ CHR ''/'' # n)" using r ne by (simp add: is_rooted_def)
  have J: "path_Join p n = CHR ''/'' # join_with (CHR ''/'') (path_elems p @ [n])"
    using ne n n' r' by (simp add: path_Join_def Clean_def render_path_def path_elems_snoc)
  from p have pe: "CHR ''/'' # join_with (CHR ''/'') (path_elems p) = p"
    by (rule clean_abs_render)
  have root: "path_elems ''/'' = []" by (simp add: path_elems_def is_rooted_def)
  have "path_elems (path_Join p n) = path_elems p @ [n]"
  proof (cases "p = ''/''")
    case True
    have "path_Join p n = [] @ CHR ''/'' # n"
      using p n True by (simp add: path_Join_valid)
    then have "split_on (CHR ''/'') (path_Join p n) = [[], n]"
      using n by (simp add: split_on_free valid_name_def)
    then show ?thesis
      using n True root by (simp add: path_elems_def valid_name_def)
  next
    case False
    then have "path_Join p n = p @ CHR ''/'' # n" using p n by (simp add: path_Join_valid)
    then show ?thesis using ne n by (simp add: path_elems_snoc)
  qed
  then show ?thesis
    using J by (simp add: clean_abs_def Clean_def render_path_def is_rooted_def)
qed

lemma clean_abs_root: "clean_abs ''/''"
  by (simp add: clean_abs_def is_rooted_def Clean_def path_elems_def render_path_def)

lemma path_Base_suffix:
  assumes n: "valid_name n"
  shows "path_Base n = n" "path_Base (q @ CHR ''/'' # n) = n"
proof -
  from n have ne: "n \<noteq> []" and s: "CHR ''/'' \<notin> set n" by (auto simp: valid_name_def)
  from ne s have l: "last n \<noteq> CHR ''/''" by (metis last_in_set)
  have drop: "dropWhile (\<lambda>c. c = CHR ''/'') (rev r) = rev r" if "r \<noteq> []" "last r = last n" for r
    using that l by (simp add: dropWhile_eq_self_iff hd_rev)
  have "last (q @ CHR ''/'' # n) = last n" using ne by simp
  then show "path_Base (q @ CHR ''/'' # n) = n"
    using ne s drop [of "q @ CHR ''/'' # n"]
    by (simp add: path_Base_def split_on_snoc split_on_free del: rev_append)
  show "path_Base n = n"
    using ne s drop [of n] by (simp add: path_Base_def split_on_free)
qed

lemma path_Base_Join:
  assumes p: "clean_abs p" and n: "valid_name n"
  shows "path_Base (path_Join p n) = n"
proof -
  obtain q where "path_Join p n = q @ CHR ''/'' # n"
    using p n by (cases "p = ''/''") (auto simp: path_Join_valid)
  then show ?thesis using path_Base_suffix(2) [OF n] by simp
qed

text \<open>\<^verbatim>\<open>filepath.Join\<close> of any number of elements.\<close>

definition path_JoinL :: "string list \<Rightarrow> string" where
  "path_JoinL es = (let ne = filter (\<lambda>e. e \<noteq> []) es in
     if ne = [] then [] else Clean (join_with (CHR ''/'') ne))"

lemma path_JoinL_two: "path_JoinL [a, b] = path_Join a b"
  by (simp add: path_JoinL_def path_Join_def)

lemma path_elems_Join:
  assumes "clean_abs p" "valid_name n"
  shows "path_elems (path_Join p n) = path_elems p @ [n]"
proof (cases "p = ''/''")
  case True
  have "path_Join p n = [] @ CHR ''/'' # n" using assms True by (simp add: path_Join_valid)
  then have "split_on (CHR ''/'') (path_Join p n) = [[], n]"
    using assms(2) by (simp add: split_on_free valid_name_def)
  then show ?thesis using assms(2) True by (simp add: path_elems_def valid_name_def)
next
  case False
  moreover have "p \<noteq> []" using assms(1) by (auto simp: clean_abs_def is_rooted_def)
  ultimately show ?thesis using assms by (simp add: path_Join_valid path_elems_snoc)
qed

lemma clean_abs_elems_inj:
  assumes "clean_abs p" "clean_abs q" "path_elems p = path_elems q"
  shows "p = q"
  using assms clean_abs_render by metis

lemma path_JoinL_three:
  assumes p: "clean_abs p" and m: "valid_name m" and n: "valid_name n"
  shows "path_JoinL [p, m, n] = path_Join (path_Join p m) n"
proof -
  have ne: "p \<noteq> []" "m \<noteq> []" "n \<noteq> []" and r: "is_rooted p"
    using assms by (auto simp: clean_abs_def valid_name_def is_rooted_def)
  let ?t = "p @ CHR ''/'' # m @ CHR ''/'' # n"
  have "path_elems ?t = path_elems p @ [m, n]"
    using path_elems_snoc [of "p @ CHR ''/'' # m" n] path_elems_snoc [OF ne(1) m] n by simp
  moreover have "is_rooted ?t" using r ne by (simp add: is_rooted_def)
  moreover have "path_elems (path_Join (path_Join p m) n) = path_elems p @ [m, n]"
    using assms by (simp add: path_elems_Join path_Join_clean_abs)
  moreover have "clean_abs (path_Join (path_Join p m) n)" using assms by (intro path_Join_clean_abs)
  ultimately show ?thesis
    using ne clean_abs_render [of "path_Join (path_Join p m) n"]
    by (simp add: path_JoinL_def Clean_def render_path_def)
qed

text \<open>Appending \<^verbatim>\<open>..\<close> to a clean path gives its parent.\<close>

lemma path_Join_dotdot:
  assumes p: "clean_abs p" and n: "valid_name n"
  shows "path_Join (path_Join p n) ''..'' = p"
proof -
  let ?q = "path_Join p n"
  have q: "clean_abs ?q" using assms by (rule path_Join_clean_abs)
  then have ne: "?q \<noteq> []" and r: "is_rooted ?q" by (auto simp: clean_abs_def is_rooted_def)
  have "rev (foldl (clean_step True) [] (split_on (CHR ''/'') ?q)) = path_elems p @ [n]"
    using path_elems_Join [OF assms] r by (simp add: path_elems_def)
  then have st: "foldl (clean_step True) [] (split_on (CHR ''/'') ?q) = n # rev (path_elems p)"
    by (metis rev_rev_ident rev.simps(2) rev_append append_Cons append_Nil rev_singleton_conv)
  have rt: "is_rooted (?q @ ''/..'')" using r ne by (simp add: is_rooted_def)
  have "path_elems (?q @ ''/..'') = path_elems p"
    using rt st n split_on_snoc [of "CHR ''/''" ?q "''..''"]
    by (simp add: path_elems_def valid_name_def split_on_free)
  then show ?thesis
    using ne rt clean_abs_render [OF p] by (simp add: path_Join_def Clean_def render_path_def)
qed

lemma path_Join_inj2:
  assumes "clean_abs p" "clean_abs q" "valid_name m" "valid_name n" "path_Join p m = path_Join q n"
  shows "p = q \<and> m = n"
proof -
  have "path_elems p @ [m] = path_elems q @ [n]" using assms path_elems_Join by metis
  then show ?thesis using assms(1,2) clean_abs_elems_inj by simp
qed

lemma set_split_on: "p \<in> set (split_on c s) \<Longrightarrow> set p \<subseteq> set s"
proof (induction s arbitrary: p)
  case (Cons x xs)
  then show ?case by (cases "split_on c xs") (fastforce split: if_splits)+
qed simp

lemma set_path_Base: "set (path_Base p) \<subseteq> set p \<union> {CHR ''.'', CHR ''/''}"
proof -
  let ?q = "rev (dropWhile (\<lambda>c. c = CHR ''/'') (rev p))"
  have "set (last (split_on (CHR ''/'') ?q)) \<subseteq> set ?q" by (rule set_split_on [OF last_in_set]) simp
  also have "\<dots> \<subseteq> set p" using set_dropWhileD by fastforce
  finally show ?thesis by (auto simp: path_Base_def Let_def)
qed

lemma set_path_Join: "clean_abs p \<Longrightarrow> valid_name n \<Longrightarrow> set (path_Join p n) \<subseteq> set p \<union> set n \<union> {CHR ''/''}"
  by (auto simp: path_Join_valid)

end
