(* ===== verification/Types.thy ===== *)
theory Types
  imports Go_Strings
begin

unbundle bit_operations_syntax

text \<open>
  The data of \<^verbatim>\<open>internal/cache/types.go\<close>, and the part of Go's \<^verbatim>\<open>os.FileMode\<close> and \<^verbatim>\<open>os.FileInfo\<close> it is
  built on. An \<^verbatim>\<open>os.FileInfo\<close> is represented by the four values its methods report. A time is the
  number of nanoseconds since the epoch; only \<^verbatim>\<open>UnixNano\<close> narrows it to 64 bits.
\<close>

section \<open>File modes\<close>

type_synonym FileMode = "32 word"

definition ModeDir :: FileMode where "ModeDir = 0x80000000"
definition ModeSymlink :: FileMode where "ModeSymlink = 0x08000000"
definition ModeDevice :: FileMode where "ModeDevice = 0x04000000"
definition ModeNamedPipe :: FileMode where "ModeNamedPipe = 0x02000000"
definition ModeSocket :: FileMode where "ModeSocket = 0x01000000"
definition ModeCharDevice :: FileMode where "ModeCharDevice = 0x00200000"
definition ModeIrregular :: FileMode where "ModeIrregular = 0x00080000"

definition os_ModeType :: FileMode where
  "os_ModeType = ModeDir OR ModeSymlink OR ModeNamedPipe OR ModeSocket OR ModeDevice OR
     ModeCharDevice OR ModeIrregular"

lemmas mode_defs = ModeDir_def ModeSymlink_def ModeDevice_def ModeNamedPipe_def ModeSocket_def
  ModeCharDevice_def ModeIrregular_def os_ModeType_def

lemma os_ModeType_value: "os_ModeType = 0x8F280000"
  by (simp add: mode_defs)

lemma type_bits_only [simp]: "(m AND os_ModeType) AND NOT os_ModeType = 0"
  by (simp add: and.assoc)

section \<open>Times\<close>

definition UnixNano :: "int \<Rightarrow> int64" where
  "UnixNano t = word_of_int t"

definition time_Unix0 :: "int64 \<Rightarrow> int" where
  "time_Unix0 n = sint n"

definition unix_nano_range :: "int \<Rightarrow> bool" where
  "unix_nano_range t \<longleftrightarrow> - (2 ^ 63) \<le> t \<and> t < 2 ^ 63"

lemma time_round_trip: "unix_nano_range t \<Longrightarrow> time_Unix0 (UnixNano t) = t"
  by (simp add: time_Unix0_def UnixNano_def unix_nano_range_def sint_sbintrunc' signed_take_bit_int_eq_self)

section \<open>File information\<close>

record cachedFileInfo =
  fi_basename :: string
  fi_size :: int64
  fi_mode :: FileMode
  fi_mtime :: int

type_synonym FileInfo = cachedFileInfo

definition newFileInfo :: "string \<Rightarrow> int64 \<Rightarrow> FileMode \<Rightarrow> int \<Rightarrow> FileInfo" where
  "newFileInfo path sz md mt =
     \<lparr>fi_basename = path_Base path, fi_size = sz, fi_mode = md, fi_mtime = mt\<rparr>"

definition Name :: "FileInfo \<Rightarrow> string" where "Name fi = fi_basename fi"

definition Size :: "FileInfo \<Rightarrow> int64" where "Size fi = fi_size fi"

definition Mode :: "FileInfo \<Rightarrow> FileMode" where "Mode fi = fi_mode fi"

definition ModTime :: "FileInfo \<Rightarrow> int" where "ModTime fi = fi_mtime fi"

definition IsDir :: "FileInfo \<Rightarrow> bool" where "IsDir fi \<longleftrightarrow> fi_mode fi AND ModeDir \<noteq> 0"

text \<open>\<^verbatim>\<open>Sys\<close> always reports nil: there is no underlying data source.\<close>

definition Sys :: "FileInfo \<Rightarrow> unit option" where "Sys fi = None"

lemmas fileinfo_defs [simp] = Name_def Size_def Mode_def ModTime_def

section \<open>Directory entries and rows\<close>

record OneDirEntry =
  Valid :: bool
  Inode :: u64
  ModeType :: FileMode

text \<open>
  A Go map from names to entries is an association list without duplicate names, in the order of
  insertion; a nil map is \<open>None\<close> where the program tells it from an empty one.
\<close>

type_synonym dirmap = "(string \<times> OneDirEntry) list"

type_synonym Key = string

record CachedRow =
  RowInode :: u64
  TypeName :: string
  RowFileInfo :: "FileInfo option"
  DidReadDir :: bool
  DirEntries :: "dirmap option"
  ContentHash :: "Key option"
  Target :: "string option"

end
