(* ===== verification/Sqlite.thy ===== *)
theory Sqlite
  imports Types
begin

text \<open>
  The retry layer of \<^verbatim>\<open>internal/cache/sqlite.go\<close> over a database.

  SQLite and its driver are not part of the program: they are the parameter \<open>engine\<close>, which decides
  for every attempt whether it fails and with which code, whether a statement that fails has changed the
  table nevertheless, what number a new row receives, and what
  a text reads back as after it went through a column of the table (a column declared \<^verbatim>\<open>STRING\<close>
  has numeric affinity in SQLite, so a text that looks like a number does not come back as written).
  The meaning of the SQL statements themselves is given by the functions that the theories of the
  callers pass in, one per statement.

  The database handle holds the table, the number of attempts made so far and the durations slept.
\<close>

section \<open>The engine and the handle\<close>

record engine =
  eng_fault :: "nat \<Rightarrow> sqlite_code option"
  eng_torn :: "nat \<Rightarrow> bool"
  eng_rowid :: "int64 list \<Rightarrow> int64 option"
  eng_text :: "string \<Rightarrow> string"
  eng_rand :: "nat \<Rightarrow> nat"

record 'r sqliteDB =
  db_rows :: 'r
  db_tick :: nat
  db_sleeps :: "int64 list"

text \<open>A statement as the engine carries it out on the table when it does not fail.\<close>

type_synonym ('r, 'a) stmt = "'r \<Rightarrow> 'a result \<times> 'r"

definition tick :: "'r sqliteDB \<Rightarrow> 'r sqliteDB" where
  "tick d = d\<lparr>db_tick := Suc (db_tick d)\<rparr>"

text \<open>
  \<^verbatim>\<open>sql.Stmt.Exec\<close>: one attempt. The program turns the rollback journal off, so a statement that fails is not
  undone: after a fault other than contention the table may be as before or as if the statement had been
  carried out. (Every statement of the program changes at most one row.) A busy database was not locked and
  is not changed.
\<close>

definition Stmt_Exec :: "engine \<Rightarrow> ('r, 'a) stmt \<Rightarrow> 'r sqliteDB \<Rightarrow> 'a result \<times> 'r sqliteDB" where
  "Stmt_Exec e st d =
     (case eng_fault e (db_tick d) of
        Some c \<Rightarrow>
          (Inl (SqliteError c),
           if c \<noteq> ErrBusy \<and> eng_torn e (db_tick d) then (tick d)\<lparr>db_rows := snd (st (db_rows d))\<rparr> else tick d)
      | None \<Rightarrow> (case st (db_rows d) of (r, rows) \<Rightarrow> (r, (tick d)\<lparr>db_rows := rows\<rparr>)))"

section \<open>Waiting\<close>

text \<open>Durations are nanoseconds in an \<^verbatim>\<open>int64\<close>.\<close>

definition baseDelay :: int64 where "baseDelay = 100 * 1000000"

definition backoffMaxDelay :: int64 where "backoffMaxDelay = 500 * 1000000"

definition rand_Int63n :: "engine \<Rightarrow> nat \<Rightarrow> int64 \<Rightarrow> int64" where
  "rand_Int63n e t n = word_of_nat (eng_rand e t mod unat n)"

definition waitOrErr ::
  "engine \<Rightarrow> error \<Rightarrow> int64 \<Rightarrow> 'r sqliteDB \<Rightarrow> error option \<times> int64 \<times> 'r sqliteDB" where
  "waitOrErr e err delayAccumulator d =
     (case err of
        SqliteError code \<Rightarrow>
          (case code of
             ErrBusy \<Rightarrow>
               (let increment = rand_Int63n e (db_tick d) backoffMaxDelay;
                    delay = delayAccumulator + increment
                in (None, delay, d\<lparr>db_sleeps := db_sleeps d @ [delay]\<rparr>))
           | _ \<Rightarrow> (Some err, delayAccumulator, d))
      | _ \<Rightarrow> (Some err, delayAccumulator, d))"

section \<open>Retrying statements\<close>

partial_function (option) retryExec ::
  "engine \<Rightarrow> ('r, 'a) stmt \<Rightarrow> int64 \<Rightarrow> 'r sqliteDB \<Rightarrow> ('a result \<times> 'r sqliteDB) option" where
  "retryExec e st delay d =
     (case Stmt_Exec e st d of
        (Inl err, d1) \<Rightarrow>
          (case waitOrErr e err delay d1 of
             (Some err', _, d2) \<Rightarrow> Some (Inl err', d2)
           | (None, delay', d2) \<Rightarrow> retryExec e st delay' d2)
      | (Inr result, d1) \<Rightarrow> Some (Inr result, d1))"

definition ret_loop :: "('s \<Rightarrow> ('a \<times> 's) option) \<Rightarrow> ('s, 'a) prog" where
  "ret_loop l = of_loop (\<lambda>s. map_option (\<lambda>(r, t). (Ret r, t)) (l s))"

definition RetryExec :: "engine \<Rightarrow> ('r, 'a) stmt \<Rightarrow> ('r sqliteDB, 'a result) prog" where
  "RetryExec e st = ret_loop (retryExec e st baseDelay)"

text \<open>\<^verbatim>\<open>RetryQuery\<close> is the same loop around \<^verbatim>\<open>sql.Stmt.Query\<close>.\<close>

definition RetryQuery :: "engine \<Rightarrow> ('r, 'a) stmt \<Rightarrow> ('r sqliteDB, 'a result) prog" where
  "RetryQuery e st = ret_loop (retryExec e st baseDelay)"

section \<open>Retrying the scan of a row\<close>

text \<open>
  A \<^verbatim>\<open>*sql.Row\<close>: either the error of the query, kept in the object, or what the first call of
  \<^verbatim>\<open>Rows.Next\<close> yields. An error of \<^verbatim>\<open>Next\<close> is kept by the \<^verbatim>\<open>Rows\<close> object too, which the first \<^verbatim>\<open>Scan\<close>
  closes; in both cases a further \<^verbatim>\<open>Scan\<close> reports the same error again.
\<close>

datatype 'a sql_Row = Row_err error | Row_next "'a option result"

definition Row_Scan :: "'a sql_Row \<Rightarrow> 'a result" where
  "Row_Scan row =
     (case row of
        Row_err err \<Rightarrow> Inl err
      | Row_next (Inl err) \<Rightarrow> Inl err
      | Row_next (Inr None) \<Rightarrow> Inl ErrNoRows
      | Row_next (Inr (Some v)) \<Rightarrow> Inr v)"

partial_function (option) retryScan ::
  "engine \<Rightarrow> 'a sql_Row \<Rightarrow> int64 \<Rightarrow> 'r sqliteDB \<Rightarrow> ('a result \<times> 'r sqliteDB) option" where
  "retryScan e row delay d =
     (case Row_Scan row of
        Inl err \<Rightarrow>
          (case waitOrErr e err delay d of
             (Some err', _, d2) \<Rightarrow> Some (Inl err', d2)
           | (None, delay', d2) \<Rightarrow> retryScan e row delay' d2)
      | Inr v \<Rightarrow> Some (Inr v, d))"

definition Scan :: "engine \<Rightarrow> 'a sql_Row \<Rightarrow> ('r sqliteDB, 'a result) prog" where
  "Scan e row = ret_loop (retryScan e row baseDelay)"

text \<open>The query is issued once, by \<^verbatim>\<open>stmt.QueryRow\<close>.\<close>

definition RetryQueryRow ::
  "engine \<Rightarrow> ('r, 'a option) stmt \<Rightarrow> ('r sqliteDB, 'a sql_Row) prog" where
  "RetryQueryRow e st = (\<lambda>d. case Stmt_Exec e st d of (r, d1) \<Rightarrow> (Ret (Row_next r), d1))"

text \<open>The chained call \<^verbatim>\<open>stmt.RetryQueryRow(...).Scan(...)\<close>.\<close>

definition QueryRowScan :: "engine \<Rightarrow> ('r, 'a option) stmt \<Rightarrow> ('r sqliteDB, 'a result) prog" where
  "QueryRowScan e st = bnd (RetryQueryRow e st) (Scan e)"

section \<open>What the loops return\<close>

lemma waitOrErr_busy:
  "waitOrErr e (SqliteError ErrBusy) delay d =
     (let delay' = delay + rand_Int63n e (db_tick d) backoffMaxDelay
      in (None, delay', d\<lparr>db_sleeps := db_sleeps d @ [delay']\<rparr>))"
  by (simp add: waitOrErr_def Let_def)

lemma waitOrErr_other: "err \<noteq> SqliteError ErrBusy \<Longrightarrow> waitOrErr e err delay d = (Some err, delay, d)"
  by (auto simp: waitOrErr_def split: error.split sqlite_code.split)

lemma waitOrErr_cases:
  obtains (busy) delay' d' where "err = SqliteError ErrBusy" "waitOrErr e err delay d = (None, delay', d')"
      "db_rows d' = db_rows d" "db_tick d' = db_tick d"
  | (other) "err \<noteq> SqliteError ErrBusy" "waitOrErr e err delay d = (Some err, delay, d)"
proof (cases "err = SqliteError ErrBusy")
  case True
  let ?delay = "delay + rand_Int63n e (db_tick d) backoffMaxDelay"
  show ?thesis
    by (rule busy [of ?delay "d\<lparr>db_sleeps := db_sleeps d @ [?delay]\<rparr>"])
       (simp_all add: True waitOrErr_busy Let_def)
next
  case False
  then show ?thesis using other by (simp add: waitOrErr_other)
qed

lemma Stmt_Exec_cases:
  obtains (fault) c where "Stmt_Exec e st d = (Inl (SqliteError c), tick d)"
  | (torn) c where "c \<noteq> ErrBusy" "Stmt_Exec e st d = (Inl (SqliteError c), (tick d)\<lparr>db_rows := snd (st (db_rows d))\<rparr>)"
  | (run) r rows where "eng_fault e (db_tick d) = None" "st (db_rows d) = (r, rows)"
      "Stmt_Exec e st d = (r, (tick d)\<lparr>db_rows := rows\<rparr>)"
proof (cases "eng_fault e (db_tick d)")
  case None
  then show ?thesis using run by (cases "st (db_rows d)") (simp add: Stmt_Exec_def)
next
  case (Some c)
  then show ?thesis
    using fault [of c] torn [of c] by (cases "c \<noteq> ErrBusy \<and> eng_torn e (db_tick d)") (auto simp: Stmt_Exec_def)
qed

lemma tick_simps [simp]:
  "db_rows (tick d) = db_rows d" "db_tick (tick d) = Suc (db_tick d)" "db_sleeps (tick d) = db_sleeps d"
  by (simp_all add: tick_def)

text \<open>A statement that is refused, by a constraint, leaves the table alone.\<close>

definition atomic_stmt :: "('r, 'a) stmt \<Rightarrow> bool" where
  "atomic_stmt st \<longleftrightarrow> (\<forall>rows. case st rows of (Inl _, rows') \<Rightarrow> rows' = rows | (Inr _, _) \<Rightarrow> True)"

lemma atomic_stmtD: "atomic_stmt st \<Longrightarrow> st rows = (Inl err, rows') \<Longrightarrow> rows' = rows"
  by (drule spec [where x = rows, OF iffD1 [OF atomic_stmt_def]]) simp

text \<open>The table after an attempt that failed: untouched, or as the statement leaves it.\<close>

definition torn :: "('r, 'a) stmt \<Rightarrow> 'r \<Rightarrow> 'r \<Rightarrow> bool" where
  "torn st rows rows' \<longleftrightarrow> rows' = rows \<or> (\<exists>x. st rows = (Inr x, rows'))"

lemma torn_refl: "torn st rows rows"
  by (simp add: torn_def)

lemma torn_snd: "atomic_stmt st \<Longrightarrow> torn st rows (snd (st rows))"
  by (cases "st rows"; cases "fst (st rows)") (auto simp: torn_def dest: atomic_stmtD)

definition retry_post :: "('r, 'a) stmt \<Rightarrow> 'r \<Rightarrow> 'a result \<times> 'r sqliteDB \<Rightarrow> bool" where
  "retry_post st rows p = (case p of
       (Inl err, d') \<Rightarrow> err \<noteq> SqliteError ErrBusy \<and> torn st rows (db_rows d')
     | (Inr x, d') \<Rightarrow> st rows = (Inr x, db_rows d'))"

lemma Stmt_Exec_Inl_rows:
  assumes "atomic_stmt st" "Stmt_Exec e st d = (Inl err, d1)"
  shows "torn st (db_rows d) (db_rows d1)" "err = SqliteError ErrBusy \<Longrightarrow> db_rows d1 = db_rows d"
  using assms(2)
  by (cases rule: Stmt_Exec_cases [of e st d]; auto simp: torn_refl torn_snd [OF assms(1)] dest: atomic_stmtD [OF assms(1)])+

lemma Stmt_Exec_Inr_rows:
  "Stmt_Exec e st d = (Inr x, d1) \<Longrightarrow> st (db_rows d) = (Inr x, db_rows d1)"
  by (cases rule: Stmt_Exec_cases [of e st d]) auto

lemma retryExec_post:
  assumes at: "atomic_stmt st" and ret: "retryExec e st delay d = Some p"
  shows "retry_post st (db_rows d) p"
proof -
  have "atomic_stmt st \<longrightarrow> retry_post st (db_rows d) p"
  proof (rule retryExec.raw_induct
      [where P = "\<lambda>e st delay d p. atomic_stmt st \<longrightarrow> retry_post st (db_rows d) p", OF _ ret], rule impI)
    fix f and e :: engine and st :: "('a, 'b) stmt" and delay d p
    assume IH: "\<And>e st delay d p. f e st delay d = Some p \<Longrightarrow>
        atomic_stmt st \<longrightarrow> retry_post st (db_rows d) p"
      and eq: "(case Stmt_Exec e st d of
        (Inl err, d1) \<Rightarrow> (case waitOrErr e err delay d1 of
             (None, delay', d2) \<Rightarrow> f e st delay' d2 | (Some err', _, d2) \<Rightarrow> Some (Inl err', d2))
      | (Inr result, d1) \<Rightarrow> Some (Inr result, d1)) = Some p"
      and at: "atomic_stmt st"
    obtain r1 d1 where x: "Stmt_Exec e st d = (r1, d1)" by fastforce
    show "retry_post st (db_rows d) p"
    proof (cases r1)
      case (Inl err)
      note rows = Stmt_Exec_Inl_rows [OF at x [unfolded Inl]]
      show ?thesis
      proof (cases rule: waitOrErr_cases [of err e delay d1])
        case (busy delay' d')
        with eq x Inl have "f e st delay' d' = Some p" by simp
        with IH at have "retry_post st (db_rows d') p" by blast
        with busy rows(2) show ?thesis by simp
      next
        case other
        with eq x Inl rows(1) show ?thesis by (auto simp: retry_post_def)
      qed
    next
      case (Inr y)
      with eq x Stmt_Exec_Inr_rows [of e st d] show ?thesis by (auto simp: retry_post_def)
    qed
  qed
  with at show ?thesis by simp
qed

lemma ret_loop_run:
  "ret_loop l s = (case l s of None \<Rightarrow> (Diverge, s) | Some (r, t) \<Rightarrow> (Ret r, t))"
  by (simp add: ret_loop_def of_loop_def split: option.split)

lemma RetryExec_cases:
  assumes "atomic_stmt st"
  obtains (diverge) "RetryExec e st d = (Diverge, d)"
  | (error) err d' where "RetryExec e st d = (Ret (Inl err), d')" "torn st (db_rows d) (db_rows d')"
      "err \<noteq> SqliteError ErrBusy"
  | (ok) x d' where "RetryExec e st d = (Ret (Inr x), d')" "st (db_rows d) = (Inr x, db_rows d')"
proof (cases "retryExec e st baseDelay d")
  case None
  then show ?thesis using diverge by (simp add: RetryExec_def ret_loop_run)
next
  case (Some p)
  obtain r d' where p: "p = (r, d')" by fastforce
  have run: "RetryExec e st d = (Ret r, d')"
    using Some by (simp add: RetryExec_def ret_loop_run p)
  have post: "retry_post st (db_rows d) (r, d')"
    using retryExec_post [OF assms Some] by (simp add: p)
  show ?thesis
    using post run error ok by (cases r) (auto simp: retry_post_def)
qed

lemma keeps_RetryExec:
  assumes "atomic_stmt st" and "\<And>rows x rows'. I rows \<Longrightarrow> st rows = (Inr x, rows') \<Longrightarrow> I rows'"
  shows "keeps (\<lambda>d. I (db_rows d)) (RetryExec e st)"
proof (rule keepsI)
  fix d :: "'a sqliteDB"
  assume "I (db_rows d)"
  with assms(2) show "I (db_rows (snd (RetryExec e st d)))"
    by (cases rule: RetryExec_cases [OF assms(1), of e d]) (auto simp: torn_def)
qed

section \<open>Reading a row\<close>

definition query_stmt :: "('r \<Rightarrow> 'a option result) \<Rightarrow> ('r, 'a option) stmt" where
  "query_stmt q = (\<lambda>rows. (q rows, rows))"

lemma retryScan_immediate:
  "Row_Scan row \<noteq> Inl (SqliteError ErrBusy) \<Longrightarrow> retryScan e row delay d = Some (Row_Scan row, d)"
  by (subst retryScan.simps) (auto simp: waitOrErr_other split: sum.split)

text \<open>Once the row object holds the busy error, every further scan reports it again.\<close>

lemma retryScan_busy:
  assumes "Row_Scan row = Inl (SqliteError ErrBusy)"
  shows "retryScan e row delay d = None"
proof (rule ccontr)
  assume "retryScan e row delay d \<noteq> None"
  then obtain p where ret: "retryScan e row delay d = Some p" by blast
  have "Row_Scan row \<noteq> Inl (SqliteError ErrBusy)"
  proof (rule retryScan.raw_induct
      [where P = "\<lambda>e row delay d p. Row_Scan row \<noteq> Inl (SqliteError ErrBusy)", OF _ ret])
    fix f and e :: engine and row :: "'a sql_Row" and delay d p
    assume IH: "\<And>e row delay d p. f e row delay d = Some p \<Longrightarrow> Row_Scan row \<noteq> Inl (SqliteError ErrBusy)"
      and eq: "(case Row_Scan row of
        Inl err \<Rightarrow> (case waitOrErr e err delay d of
             (None, delay', d2) \<Rightarrow> f e row delay' d2 | (Some err', _, d2) \<Rightarrow> Some (Inl err', d2))
      | Inr v \<Rightarrow> Some (Inr v, d)) = Some p"
    show "Row_Scan row \<noteq> Inl (SqliteError ErrBusy)"
    proof
      assume busy: "Row_Scan row = Inl (SqliteError ErrBusy)"
      with eq obtain delay' d2 where "f e row delay' d2 = Some p"
        by (auto simp: waitOrErr_busy Let_def)
      from IH [OF this] busy show False by simp
    qed
  qed
  with assms show False by simp
qed

lemma QueryRowScan_cases:
  obtains (diverge) d' where "QueryRowScan e (query_stmt q) d = (Diverge, d')" "db_rows d' = db_rows d"
  | (error) err d' where "QueryRowScan e (query_stmt q) d = (Ret (Inl err), d')" "db_rows d' = db_rows d"
      "(\<exists>c. err = SqliteError c \<and> c \<noteq> ErrBusy) \<or> q (db_rows d) = Inl err"
  | (none) d' where "QueryRowScan e (query_stmt q) d = (Ret (Inl ErrNoRows), d')"
      "db_rows d' = db_rows d" "q (db_rows d) = Inr None"
  | (some) v d' where "QueryRowScan e (query_stmt q) d = (Ret (Inr v), d')"
      "db_rows d' = db_rows d" "q (db_rows d) = Inr (Some v)"
proof -
  obtain r d1 where x: "Stmt_Exec e (query_stmt q) d = (r, d1)" by fastforce
  then have rows: "db_rows d1 = db_rows d" and r: "(\<exists>c. r = Inl (SqliteError c)) \<or> r = q (db_rows d)"
    by (cases rule: Stmt_Exec_cases [of e "query_stmt q" d]; auto simp: query_stmt_def)+
  have run: "QueryRowScan e (query_stmt q) d = Scan e (Row_next r) d1"
    by (simp add: QueryRowScan_def RetryQueryRow_def bnd_def x)
  show ?thesis
  proof (cases "Row_Scan (Row_next r) = Inl (SqliteError ErrBusy)")
    case True
    then show ?thesis using diverge rows
      by (simp add: run Scan_def ret_loop_run retryScan_busy)
  next
    case False
    then have fin: "QueryRowScan e (query_stmt q) d = (Ret (Row_Scan (Row_next r)), d1)"
      by (simp add: run Scan_def ret_loop_run retryScan_immediate)
    show ?thesis
    proof (cases r)
      case (Inl err)
      with False have "err \<noteq> SqliteError ErrBusy" by (simp add: Row_Scan_def)
      moreover have "QueryRowScan e (query_stmt q) d = (Ret (Inl err), d1)"
        using fin Inl by (simp add: Row_Scan_def)
      ultimately show ?thesis using error rows r Inl by auto
    next
      case (Inr v)
      with r have q: "q (db_rows d) = Inr v" by simp
      show ?thesis
        using none [of d1] some [of _ d1] fin rows q Inr by (cases v) (simp_all add: Row_Scan_def)
    qed
  qed
qed

lemma keeps_QueryRowScan [keeps_rules]:
  "keeps (\<lambda>d. I (db_rows d)) (QueryRowScan e (query_stmt q))"
proof (rule keepsI)
  fix d :: "'a sqliteDB"
  assume "I (db_rows d)"
  then show "I (db_rows (snd (QueryRowScan e (query_stmt q) d)))"
    by (cases rule: QueryRowScan_cases [of e q d]) auto
qed

section \<open>Contention\<close>

text \<open>The durations slept over \<open>k\<close> busy attempts that start at attempt \<open>t\<close>.\<close>

fun backoff :: "engine \<Rightarrow> nat \<Rightarrow> int64 \<Rightarrow> nat \<Rightarrow> int64 list" where
  "backoff e t delay 0 = []"
| "backoff e t delay (Suc k) =
     (let delay' = delay + rand_Int63n e (Suc t) backoffMaxDelay in delay' # backoff e (Suc t) delay' k)"

lemma retryExec_busy_step:
  "eng_fault e (db_tick d) = Some ErrBusy \<Longrightarrow>
   retryExec e st delay d =
     (let delay' = delay + rand_Int63n e (Suc (db_tick d)) backoffMaxDelay
      in retryExec e st delay' ((tick d)\<lparr>db_sleeps := db_sleeps d @ [delay']\<rparr>))"
  by (subst retryExec.simps) (simp add: Stmt_Exec_def waitOrErr_busy Let_def)

lemma retryExec_after_busy:
  assumes "\<And>i. i < k \<Longrightarrow> eng_fault e (db_tick d + i) = Some ErrBusy"
    and "eng_fault e (db_tick d + k) = None"
    and "st (db_rows d) = (r, rows')" and "r \<noteq> Inl (SqliteError ErrBusy)"
  shows "retryExec e st delay d =
    Some (r, d\<lparr>db_rows := rows', db_tick := db_tick d + Suc k,
              db_sleeps := db_sleeps d @ backoff e (db_tick d) delay k\<rparr>)"
  using assms
proof (induction k arbitrary: delay d)
  case 0
  then show ?case
    by (subst retryExec.simps, cases r) (auto simp: Stmt_Exec_def waitOrErr_other tick_def)
next
  case (Suc k)
  let ?delay = "delay + rand_Int63n e (Suc (db_tick d)) backoffMaxDelay"
  let ?d = "(tick d)\<lparr>db_sleeps := db_sleeps d @ [?delay]\<rparr>"
  have "eng_fault e (db_tick d) = Some ErrBusy" using Suc.prems(1) [of 0] by simp
  then have "retryExec e st delay d = retryExec e st ?delay ?d"
    by (simp add: retryExec_busy_step Let_def)
  also have "\<dots> = Some (r, ?d\<lparr>db_rows := rows', db_tick := db_tick ?d + Suc k,
      db_sleeps := db_sleeps ?d @ backoff e (db_tick ?d) ?delay k\<rparr>)"
  proof (rule Suc.IH)
    show "eng_fault e (db_tick ?d + i) = Some ErrBusy" if "i < k" for i
      using Suc.prems(1) [of "Suc i"] that by simp
  qed (use Suc.prems in simp_all)
  finally show ?case by (simp add: tick_def Let_def)
qed

lemma rand_bound: "unat (rand_Int63n e t backoffMaxDelay) < 500000000"
proof -
  have "eng_rand e t mod 500000000 < (2::nat) ^ 64"
    by (rule less_trans [OF mod_less_divisor]) simp_all
  then show ?thesis
    by (simp add: rand_Int63n_def backoffMaxDelay_def unsigned_of_nat take_bit_nat_eq_self)
qed

lemma backoff_step_bound:
  assumes "unat delay + 500000000 \<le> 2 ^ 63"
  shows "unat (delay + rand_Int63n e t backoffMaxDelay) = unat delay + unat (rand_Int63n e t backoffMaxDelay)"
  using rand_bound [of e t] assms by (subst unat_plus_if') simp

lemma backoff_bounds_gen:
  assumes "unat delay + k * 500000000 \<le> 2 ^ 63" and "w \<in> set (backoff e t delay k)"
  shows "unat delay \<le> unat w \<and> unat w \<le> unat delay + k * 499999999"
  using assms
proof (induction k arbitrary: t delay)
  case (Suc k)
  let ?r = "rand_Int63n e (Suc t) backoffMaxDelay"
  have sum: "unat (delay + ?r) = unat delay + unat ?r"
    using Suc.prems(1) by (intro backoff_step_bound) simp
  note r = rand_bound [of e "Suc t"]
  show ?case
  proof (cases "w = delay + ?r")
    case True
    then show ?thesis using sum r by simp
  next
    case False
    then have "w \<in> set (backoff e (Suc t) (delay + ?r) k)" using Suc.prems(2) by (simp add: Let_def)
    moreover have "unat (delay + ?r) + k * 500000000 \<le> 2 ^ 63" using Suc.prems(1) sum r by simp
    ultimately show ?thesis using Suc.IH [of "delay + ?r" "Suc t"] sum r by simp
  qed
qed simp

lemma backoff_sorted_gen:
  assumes "unat delay + k * 500000000 \<le> 2 ^ 63"
  shows "sorted (map unat (backoff e t delay k))"
  using assms
proof (induction k arbitrary: t delay)
  case (Suc k)
  let ?r = "rand_Int63n e (Suc t) backoffMaxDelay"
  have "unat (delay + ?r) + k * 500000000 \<le> 2 ^ 63"
    using Suc.prems rand_bound [of e "Suc t"] backoff_step_bound [of delay e "Suc t"] by simp
  then show ?case
    using Suc.IH [of "delay + ?r" "Suc t"] backoff_bounds_gen [of "delay + ?r" k _ e "Suc t"]
    by (auto simp: Let_def)
qed simp

section \<open>An engine without faults\<close>

definition quiet :: "engine \<Rightarrow> bool" where
  "quiet e \<longleftrightarrow> (\<forall>t. eng_fault e t = None)"

lemma quiet_RetryExec:
  assumes "quiet e" "st (db_rows d) = (r, rows')" "r \<noteq> Inl (SqliteError ErrBusy)"
  shows "RetryExec e st d = (Ret r, (tick d)\<lparr>db_rows := rows'\<rparr>)"
  using retryExec_after_busy [of 0 e d st r rows' baseDelay] assms
  by (simp add: quiet_def RetryExec_def ret_loop_run tick_def)

lemma quiet_QueryRowScan:
  assumes "quiet e" "q (db_rows d) = Inr v"
  shows "QueryRowScan e (query_stmt q) d = (Ret (case v of None \<Rightarrow> Inl ErrNoRows | Some x \<Rightarrow> Inr x), tick d)"
  using assms
  by (simp add: quiet_def QueryRowScan_def RetryQueryRow_def bnd_def Stmt_Exec_def query_stmt_def
      Scan_def ret_loop_run retryScan_immediate Row_Scan_def tick_def split: option.split)

end
