(* ===== verification/Metadata.thy ===== *)
theory Metadata
  imports Sqlite
begin

unbundle bit_operations_syntax

text \<open>
  The metadata cache of \<^verbatim>\<open>internal/cache/metadata.go\<close>: the table \<open>paths\<close>, the nine prepared statements
  as functions on the table, the directory-entry encoding, and the operations that the file system
  calls. The operations run on an open cache: the prepared statements exist. Log messages are left
  out; a warning that is only logged leaves the result as it is.
\<close>

section \<open>The table and its statements\<close>

definition dirEntrySeparator :: char where "dirEntrySeparator = CHR ''/''"

definition dirEntryFieldSeparator :: char where "dirEntryFieldSeparator = CHR 0x01"

record path_row =
  c_path :: string
  c_type :: string
  c_mode :: "int64 option"
  c_size :: "int64 option"
  c_mtime_nsec :: "int64 option"
  c_dirEntries :: "string option"
  c_contentHash :: "string option"
  c_target :: "string option"

type_synonym table = "(int64 \<times> path_row) list"
type_synonym metadb = "table sqliteDB"

text \<open>
  \<^verbatim>\<open>database/sql\<close> refuses an unsigned argument with the high bit set.
\<close>

definition sql_uint64 :: "u64 \<Rightarrow> int64 result" where
  "sql_uint64 n = (if 2 ^ 63 \<le> unat n then Inl SqlConvertError else Inr n)"

definition row_by_path :: "engine \<Rightarrow> string \<Rightarrow> table \<Rightarrow> (int64 \<times> path_row) option" where
  "row_by_path e path tbl = find (\<lambda>(r, row). c_path row = eng_text e path) tbl"

definition getDirEntriesStmt :: "u64 \<Rightarrow> table \<Rightarrow> string option option result" where
  "getDirEntriesStmt inode tbl =
     (case sql_uint64 inode of Inl err \<Rightarrow> Inl err
      | Inr rowid \<Rightarrow> Inr (map_option c_dirEntries (map_of tbl rowid)))"

definition getInodeStmt :: "engine \<Rightarrow> string \<Rightarrow> table \<Rightarrow> int64 option result" where
  "getInodeStmt e path tbl = Inr (map_option fst (row_by_path e path tbl))"

definition getFullEntryStmt :: "engine \<Rightarrow> string \<Rightarrow> table \<Rightarrow> (int64 \<times> path_row) option result" where
  "getFullEntryStmt e path tbl = Inr (row_by_path e path tbl)"

text \<open>
  The value of an \<^verbatim>\<open>Exec\<close> is what the method of \<^verbatim>\<open>sql.Result\<close> that its callers use reports:
  \<^verbatim>\<open>RowsAffected\<close> for an update and \<^verbatim>\<open>LastInsertId\<close> for an insertion.
\<close>

definition sql_update ::
  "(int64 \<Rightarrow> path_row \<Rightarrow> bool) \<Rightarrow> (path_row \<Rightarrow> path_row) \<Rightarrow> (table, int64 result) stmt" where
  "sql_update P f tbl =
     (Inr (Inr (word_of_nat (length (filter (\<lambda>(r, row). P r row) tbl)))),
      map (\<lambda>(r, row). (r, if P r row then f row else row)) tbl)"

definition sql_update_inode :: "u64 \<Rightarrow> (path_row \<Rightarrow> path_row) \<Rightarrow> (table, int64 result) stmt" where
  "sql_update_inode inode f tbl =
     (case sql_uint64 inode of Inl err \<Rightarrow> (Inl err, tbl)
      | Inr rowid \<Rightarrow> sql_update (\<lambda>r _. r = rowid) f tbl)"

definition updateEntryStmt :: "engine \<Rightarrow> string \<Rightarrow> string \<Rightarrow> (table, int64 result) stmt" where
  "updateEntryStmt e typeName path =
     sql_update (\<lambda>_ row. c_path row = eng_text e path) (\<lambda>row. row\<lparr>c_type := eng_text e typeName\<rparr>)"

definition new_row :: "engine \<Rightarrow> string \<Rightarrow> string \<Rightarrow> path_row" where
  "new_row e path typeName =
     \<lparr>c_path = eng_text e path, c_type = eng_text e typeName, c_mode = None, c_size = None,
      c_mtime_nsec = None, c_dirEntries = None, c_contentHash = None, c_target = None\<rparr>"

definition putNewEntryStmt :: "engine \<Rightarrow> string \<Rightarrow> string \<Rightarrow> (table, int64 result) stmt" where
  "putNewEntryStmt e path typeName tbl =
     (if row_by_path e path tbl \<noteq> None then (Inl (SqliteError ErrConstraint), tbl)
      else case eng_rowid e (map fst tbl) of
             None \<Rightarrow> (Inl (SqliteError (ErrCode 13)), tbl)
           | Some r \<Rightarrow> (Inr (Inr r), tbl @ [(r, new_row e path typeName)]))"

definition putFileInfoStmt ::
  "int64 \<Rightarrow> int64 \<Rightarrow> int64 \<Rightarrow> u64 \<Rightarrow> (table, int64 result) stmt" where
  "putFileInfoStmt md sz mtimeNsec inode = sql_update_inode inode
     (\<lambda>row. row\<lparr>c_mode := Some md, c_size := Some sz, c_mtime_nsec := Some mtimeNsec\<rparr>)"

definition putContentHashStmt :: "engine \<Rightarrow> string \<Rightarrow> u64 \<Rightarrow> (table, int64 result) stmt" where
  "putContentHashStmt e h inode = sql_update_inode inode
     (\<lambda>row. row\<lparr>c_contentHash := Some (eng_text e h)\<rparr>)"

definition putSymlinkTargetStmt :: "engine \<Rightarrow> string \<Rightarrow> u64 \<Rightarrow> (table, int64 result) stmt" where
  "putSymlinkTargetStmt e tgt inode = sql_update_inode inode
     (\<lambda>row. row\<lparr>c_target := Some (eng_text e tgt)\<rparr>)"

definition putDirEntriesStmt :: "engine \<Rightarrow> string \<Rightarrow> u64 \<Rightarrow> (table, int64 result) stmt" where
  "putDirEntriesStmt e s inode = sql_update_inode inode
     (\<lambda>row. row\<lparr>c_dirEntries := Some (eng_text e s)\<rparr>)"

section \<open>Directory entries\<close>

definition rowIDToInode :: "int64 \<Rightarrow> ('s, u64) prog" where
  "rowIDToInode rowID = (if sint rowID \<le> 0 then panic ''invalid ROWID'' else ret rowID)"

definition addDirEntry :: "u64 \<Rightarrow> string \<Rightarrow> string \<Rightarrow> (dirmap, unit result) prog" where
  "addDirEntry inode basename typeName =
     bnd (gets (\<lambda>m. map_of m basename)) (\<lambda>found.
       if found \<noteq> None then ret (Inr ())
       else
         let store = (\<lambda>valid modeType. bnd (modify (\<lambda>m. m @
               [(basename, \<lparr>Valid = valid, Inode = inode, ModeType = modeType\<rparr>)])) (\<lambda>_. ret (Inr ())))
         in if typeName = ''directory'' then store True ModeDir
            else if typeName = ''file'' then store True 0
            else if typeName = ''noentry'' then store False 0
            else if typeName = ''symlink'' then store True ModeSymlink
            else ret (Inl (ErrorString (''Invalid type '' @ typeName))))"

definition parseOneDirEntry :: "string \<Rightarrow> unit \<Rightarrow> (dirmap, unit result) prog" where
  "parseOneDirEntry one _ =
     (let parts = split_on dirEntryFieldSeparator one;
          basename = parts ! 0
      in if length parts \<le> 1 then panic ''index out of range''
         else case ParseUint (parts ! 1) of
                Inl err \<Rightarrow> ret (Inl err)
              | Inr inode \<Rightarrow>
                  if length parts \<le> 2 then panic ''index out of range''
                  else let typeName = parts ! 2 in addDirEntry inode basename typeName)"

definition parseDirEntries :: "string \<Rightarrow> (dirmap, unit result) prog" where
  "parseDirEntries all =
     (if all = [] then ret (Inr ())
      else for_each parseOneDirEntry (split_on dirEntrySeparator all) ())"

definition GetDirEntries :: "engine \<Rightarrow> u64 \<Rightarrow> dirmap \<Rightarrow> (metadb, unit result \<times> dirmap) prog" where
  "GetDirEntries e inode outEntries =
     bnd (QueryRowScan e (query_stmt (getDirEntriesStmt inode))) (\<lambda>r. case r of
         Inl err \<Rightarrow> ret (Inl err, outEntries)
       | Inr dirEntries \<Rightarrow>
           (case dirEntries of
              None \<Rightarrow> ret (Inr (), outEntries)
            | Some s \<Rightarrow> run_on (parseDirEntries s) outEntries))"

section \<open>Rows\<close>

definition rowFileInfo :: "string \<Rightarrow> path_row \<Rightarrow> ('s, FileInfo option) prog" where
  "rowFileInfo path row =
     (case (c_mode row, c_size row, c_mtime_nsec row) of
        (None, None, None) \<Rightarrow> ret None
      | (Some md, Some sz, Some mtimeNsec) \<Rightarrow>
          ret (Some (newFileInfo path sz (ucast md) (time_Unix0 mtimeNsec)))
      | _ \<Rightarrow> fatal ''incomplete fileInfo data in cache row'')"

definition rowDirEntries :: "path_row \<Rightarrow> ('s, dirmap option result) prog" where
  "rowDirEntries row =
     (case c_dirEntries row of
        None \<Rightarrow> ret (Inr None)
      | Some s \<Rightarrow> bnd (run_on (parseDirEntries s) []) (\<lambda>(r, entries).
          case r of Inl err \<Rightarrow> ret (Inl err) | Inr _ \<Rightarrow> ret (Inr (Some entries))))"

definition GetFullEntry :: "engine \<Rightarrow> string \<Rightarrow> (metadb, CachedRow option result) prog" where
  "GetFullEntry e path =
     bnd (QueryRowScan e (query_stmt (getFullEntryStmt e path))) (\<lambda>r. case r of
         Inl err \<Rightarrow> if err = ErrNoRows then ret (Inr None) else ret (Inl err)
       | Inr (rowID, row) \<Rightarrow>
           bnd (rowFileInfo path row) (\<lambda>fileInfo.
           try_bnd (rowDirEntries row) (\<lambda>dirEntries.
           ret (Inr (Some
             \<lparr>RowInode = rowID, TypeName = c_type row, RowFileInfo = fileInfo, DidReadDir = False,
              DirEntries = dirEntries, ContentHash = c_contentHash row, Target = c_target row\<rparr>)))))"

definition resultToInode :: "int64 result \<Rightarrow> ('s, u64 result) prog" where
  "resultToInode result =
     (case result of
        Inl err \<Rightarrow> ret (Inl err)
      | Inr rowID \<Rightarrow>
          if sint rowID < 0 then fatal ''got negative row ID; cannot use as inode number''
          else ret (Inr rowID))"

definition putNew :: "engine \<Rightarrow> string \<Rightarrow> string \<Rightarrow> (metadb, u64 result) prog" where
  "putNew e path typeName = try_bnd (RetryExec e (putNewEntryStmt e path typeName)) resultToInode"

definition putNewOrUpdate :: "engine \<Rightarrow> string \<Rightarrow> string \<Rightarrow> (metadb, unit result) prog" where
  "putNewOrUpdate e path typeName =
     try_bnd (RetryExec e (updateEntryStmt e typeName path)) (\<lambda>result.
       case result of
         Inl err \<Rightarrow> ret (Inl err)
       | Inr affected \<Rightarrow>
           if affected = 0 then
             try_bnd (RetryExec e (putNewEntryStmt e path typeName)) (\<lambda>_. ret (Inr ()))
           else if affected = 1 then ret (Inr ())
           else panic ''Updated more than one row'')"

definition sqlTypeName :: "FileMode \<Rightarrow> ('s, string) prog" where
  "sqlTypeName modeType =
     (if modeType AND NOT os_ModeType \<noteq> 0 then panic ''Input modeType contains permissions''
      else if modeType = 0 then ret ''file''
      else if modeType = ModeDir then ret ''directory''
      else if modeType = ModeSymlink then ret ''symlink''
      else panic ''Unknown entry type'')"

definition PutNewWithType :: "engine \<Rightarrow> string \<Rightarrow> FileMode \<Rightarrow> (metadb, u64 result) prog" where
  "PutNewWithType e path fileMode =
     (if fileMode AND NOT os_ModeType \<noteq> 0
      then panic ''fileMode contains more than just the file type''
      else bnd (sqlTypeName (fileMode AND os_ModeType)) (putNew e path))"

definition PutNewNoEntry :: "engine \<Rightarrow> string \<Rightarrow> (metadb, u64 result) prog" where
  "PutNewNoEntry e path = putNew e path ''noentry''"

definition PutNewOrUpdateWithType :: "engine \<Rightarrow> string \<Rightarrow> FileMode \<Rightarrow> (metadb, unit result) prog" where
  "PutNewOrUpdateWithType e path fileMode =
     (if fileMode AND NOT os_ModeType \<noteq> 0
      then panic ''fileMode contains more than just the file type''
      else bnd (sqlTypeName (fileMode AND os_ModeType)) (putNewOrUpdate e path))"

definition PutNewOrUpdateNoEntry :: "engine \<Rightarrow> string \<Rightarrow> (metadb, unit result) prog" where
  "PutNewOrUpdateNoEntry e path = putNewOrUpdate e path ''noentry''"

text \<open>A number of affected rows other than one is logged and otherwise ignored.\<close>

definition checkUpdateAffectedOneRow :: "int64 result \<Rightarrow> ('s, unit result) prog" where
  "checkUpdateAffectedOneRow result =
     (case result of
        Inl err \<Rightarrow> ret (Inl err)
      | Inr affected \<Rightarrow> if affected \<noteq> 1 then ret (Inr ()) else ret (Inr ()))"

definition PutFileInfo :: "engine \<Rightarrow> u64 \<Rightarrow> FileInfo \<Rightarrow> (metadb, unit result) prog" where
  "PutFileInfo e inode fileInfo =
     try_bnd (RetryExec e (putFileInfoStmt (ucast (Mode fileInfo)) (Size fileInfo)
         (UnixNano (ModTime fileInfo)) inode))
       checkUpdateAffectedOneRow"

definition PutContentHash :: "engine \<Rightarrow> u64 \<Rightarrow> Key \<Rightarrow> (metadb, unit result) prog" where
  "PutContentHash e inode contentHash =
     try_bnd (RetryExec e (putContentHashStmt e contentHash inode)) checkUpdateAffectedOneRow"

definition PutSymlinkTarget :: "engine \<Rightarrow> u64 \<Rightarrow> string \<Rightarrow> (metadb, unit result) prog" where
  "PutSymlinkTarget e inode target =
     try_bnd (RetryExec e (putSymlinkTargetStmt e target inode)) checkUpdateAffectedOneRow"

definition formatDirEntry :: "string \<Rightarrow> u64 \<Rightarrow> string \<Rightarrow> string" where
  "formatDirEntry name inode typeName =
     name @ dirEntryFieldSeparator # show_nat (unat inode) @ dirEntryFieldSeparator # typeName"

definition putOneDirEntry ::
  "engine \<Rightarrow> string \<Rightarrow> FileInfo \<Rightarrow> string list \<Rightarrow> (metadb, string list result) prog" where
  "putOneDirEntry e path dirEntry formatted =
     (let entryPath = path_Join path (Name dirEntry) in
      bnd (sqlTypeName (Mode dirEntry AND os_ModeType)) (\<lambda>typeName.
      bnd (QueryRowScan e (query_stmt (getInodeStmt e entryPath))) (\<lambda>r.
      try_bnd
        (case r of
           Inl err \<Rightarrow>
             if err = ErrNoRows then
               try_bnd (RetryExec e (putNewEntryStmt e entryPath typeName)) (\<lambda>result.
                 case result of Inl err \<Rightarrow> ret (Inl err) | Inr rowID \<Rightarrow> ret (Inr rowID))
             else ret (Inl err)
         | Inr rowID \<Rightarrow> ret (Inr rowID))
        (\<lambda>inode. ret (Inr (formatted @ [formatDirEntry (Name dirEntry) inode typeName]))))))"

definition PutDirEntries ::
  "engine \<Rightarrow> u64 \<Rightarrow> string \<Rightarrow> FileInfo list \<Rightarrow> (metadb, unit result) prog" where
  "PutDirEntries e inode path entries =
     try_bnd (for_each (putOneDirEntry e path) entries []) (\<lambda>formatted.
     try_bnd (RetryExec e (putDirEntriesStmt e (join_with dirEntrySeparator formatted) inode))
       checkUpdateAffectedOneRow)"

section \<open>Well-formed tables\<close>

text \<open>
  What SQLite documents of a text in a column with numeric affinity: only a text that is a
  well-formed number (optionally between white space) is converted. Every other text comes back as
  it was stored.
\<close>

definition numeric_char :: "char \<Rightarrow> bool" where
  "numeric_char c \<longleftrightarrow> is_digit c \<or> c \<in> set ''+-.eE '' \<or> c \<in> {CHR 0x09, CHR 0x0A, CHR 0x0B, CHR 0x0C, CHR 0x0D}"

definition plain_text :: "string \<Rightarrow> bool" where
  "plain_text s \<longleftrightarrow> s = [] \<or> list_ex (\<lambda>c. \<not> numeric_char c) s"

text \<open>What the program relies on: a new row gets an unused positive number, and texts that do not
  look like numbers are kept.\<close>

definition engine_ok :: "engine \<Rightarrow> bool" where
  "engine_ok e \<longleftrightarrow> (\<forall>used r. eng_rowid e used = Some r \<longrightarrow> r \<notin> set used \<and> 0 < sint r) \<and>
     (\<forall>s. plain_text s \<longrightarrow> eng_text e s = s)"

definition typeNames :: "string list" where
  "typeNames = [''file'', ''directory'', ''symlink'', ''noentry'']"

definition row_wf :: "path_row \<Rightarrow> bool" where
  "row_wf row \<longleftrightarrow> c_type row \<in> set typeNames \<and>
     (c_mode row = None \<longleftrightarrow> c_size row = None) \<and> (c_size row = None \<longleftrightarrow> c_mtime_nsec row = None)"

definition table_wf :: "table \<Rightarrow> bool" where
  "table_wf tbl \<longleftrightarrow> distinct (map fst tbl) \<and> distinct (map (c_path \<circ> snd) tbl) \<and>
     list_all (\<lambda>(r, row). 0 < sint r \<and> row_wf row) tbl"

lemma engine_ok_rowid: "engine_ok e \<Longrightarrow> eng_rowid e used = Some r \<Longrightarrow> r \<notin> set used \<and> 0 < sint r"
  by (simp add: engine_ok_def)

lemma engine_ok_text: "engine_ok e \<Longrightarrow> plain_text s \<Longrightarrow> eng_text e s = s"
  by (simp add: engine_ok_def)

lemma plain_texts [simp]:
  "plain_text ''file''" "plain_text ''directory''" "plain_text ''symlink''" "plain_text ''noentry''"
  "plain_text []"
  by (simp_all add: plain_text_def numeric_char_def is_digit_def)

lemma plain_text_char: "c \<in> set s \<Longrightarrow> \<not> numeric_char c \<Longrightarrow> plain_text s"
  by (auto simp: plain_text_def list_ex_iff)

lemma separators_not_numeric: "\<not> numeric_char (CHR ''/'')" "\<not> numeric_char (CHR 0x01)"
  by (simp_all add: numeric_char_def is_digit_def)

lemma plain_text_rooted: "is_rooted p \<Longrightarrow> plain_text p"
  by (cases p) (auto simp: is_rooted_def separators_not_numeric plain_text_def)

lemma typeNames_plain: "t \<in> set typeNames \<Longrightarrow> plain_text t"
  by (auto simp: typeNames_def)

lemma clean_abs_text: "engine_ok e \<Longrightarrow> clean_abs p \<Longrightarrow> eng_text e p = p"
  by (simp add: engine_ok_text plain_text_rooted clean_abs_def)

section \<open>Statements on well-formed tables\<close>

lemma map_of_sql_update:
  "map_of (snd (sql_update P f tbl)) r = map_option (\<lambda>row. if P r row then f row else row) (map_of tbl r)"
  by (simp add: sql_update_def map_of_map_upd)

lemma sql_update_wf:
  assumes "table_wf tbl" and "\<And>row. row_wf row \<Longrightarrow> row_wf (f row)" and "\<And>row. c_path (f row) = c_path row"
  shows "table_wf (snd (sql_update P f tbl))"
proof -
  have "map fst (snd (sql_update P f tbl)) = map fst tbl"
    "map (c_path \<circ> snd) (snd (sql_update P f tbl)) = map (c_path \<circ> snd) tbl"
    using assms(3) by (auto simp: sql_update_def)
  moreover have "list_all (\<lambda>(r, row). 0 < sint r \<and> row_wf row) (snd (sql_update P f tbl))"
    using assms(1,2) by (auto simp: sql_update_def table_wf_def list_all_iff)
  ultimately show ?thesis using assms(1) by (simp add: table_wf_def)
qed

lemma row_by_path_Some:
  assumes "table_wf tbl" "row_by_path e p tbl = Some (r, row)"
  shows "map_of tbl r = Some row" "c_path row = eng_text e p" "0 < sint r" "row_wf row"
proof -
  from assms(2) have m: "(r, row) \<in> set tbl" and "c_path row = eng_text e p"
    by (auto simp: row_by_path_def dest: find_SomeD)
  with assms(1) show "map_of tbl r = Some row" "c_path row = eng_text e p" "0 < sint r" "row_wf row"
    by (auto simp: table_wf_def list_all_iff)
qed

lemma row_by_path_None:
  "row_by_path e p tbl = None \<longleftrightarrow> (\<forall>(r, row) \<in> set tbl. c_path row \<noteq> eng_text e p)"
  by (auto simp: row_by_path_def find_None_iff)

lemma row_by_path_iff:
  assumes "table_wf tbl"
  shows "row_by_path e p tbl = Some (r, row) \<longleftrightarrow> map_of tbl r = Some row \<and> c_path row = eng_text e p"
proof
  assume "row_by_path e p tbl = Some (r, row)"
  with row_by_path_Some [OF assms] show "map_of tbl r = Some row \<and> c_path row = eng_text e p" by blast
next
  assume "map_of tbl r = Some row \<and> c_path row = eng_text e p"
  then have m: "(r, row) \<in> set tbl" and p: "c_path row = eng_text e p" by (auto dest: map_of_SomeD)
  then obtain r' row' where f: "row_by_path e p tbl = Some (r', row')"
    using row_by_path_None [of e p tbl] by (cases "row_by_path e p tbl") fastforce+
  with p have "(c_path \<circ> snd) (r, row) = (c_path \<circ> snd) (r', row')" and "(r', row') \<in> set tbl"
    using row_by_path_Some [OF assms f] by (auto dest: map_of_SomeD)
  moreover have "inj_on (c_path \<circ> snd) (set tbl)" using assms by (simp add: table_wf_def distinct_map)
  ultimately have "(r, row) = (r', row')" using m by (metis inj_onD)
  with f show "row_by_path e p tbl = Some (r, row)" by simp
qed

lemma row_by_path_sql_update:
  assumes "\<And>row. c_path (f row) = c_path row"
  shows "row_by_path e p (snd (sql_update P f tbl)) =
    map_option (\<lambda>(r, row). (r, if P r row then f row else row)) (row_by_path e p tbl)"
  unfolding row_by_path_def sql_update_def by (induction tbl) (use assms in auto)

lemma putNewEntryStmt_cases:
  obtains (error) err where "putNewEntryStmt e p t tbl = (Inl err, tbl)"
  | (ok) r where "row_by_path e p tbl = None" "eng_rowid e (map fst tbl) = Some r"
      "putNewEntryStmt e p t tbl = (Inr (Inr r), tbl @ [(r, new_row e p t)])"
  by (cases "row_by_path e p tbl"; cases "eng_rowid e (map fst tbl)") (auto simp: putNewEntryStmt_def)

lemma new_row_wf: "engine_ok e \<Longrightarrow> t \<in> set typeNames \<Longrightarrow> row_wf (new_row e p t)"
  by (simp add: row_wf_def new_row_def engine_ok_text typeNames_plain)

lemma putNewEntryStmt_wf:
  assumes "engine_ok e" "t \<in> set typeNames" "table_wf tbl"
  shows "table_wf (snd (putNewEntryStmt e p t tbl))"
proof (cases rule: putNewEntryStmt_cases [of e p t tbl])
  case (ok r)
  have "r \<notin> set (map fst tbl)" "0 < sint r" using engine_ok_rowid [OF assms(1) ok(2)] by auto
  moreover have "c_path (new_row e p t) \<notin> set (map (c_path \<circ> snd) tbl)"
    using ok(1) by (auto simp: row_by_path_None new_row_def)
  ultimately show ?thesis
    using assms ok(3) new_row_wf [OF assms(1,2)] by (auto simp: table_wf_def list_all_iff)
qed (use assms in simp)

lemma row_by_path_insert:
  assumes "putNewEntryStmt e p t tbl = (Inr x, tbl')"
  shows "row_by_path e q tbl' =
    (if eng_text e q = eng_text e p then Some (projr x, new_row e p t) else row_by_path e q tbl)"
proof (cases rule: putNewEntryStmt_cases [of e p t tbl])
  case (ok r)
  with assms have "tbl' = tbl @ [(r, new_row e p t)]" "projr x = r" by auto
  moreover have "row_by_path e q tbl = None" if "eng_text e q = eng_text e p"
    using ok(1) that by (simp add: row_by_path_def)
  moreover have "row_by_path e q (tbl @ [(r, new_row e p t)]) =
      (case row_by_path e q tbl of None \<Rightarrow> find (\<lambda>(r, row). c_path row = eng_text e q) [(r, new_row e p t)]
       | Some x \<Rightarrow> Some x)"
    by (simp add: row_by_path_def find_append)
  ultimately show ?thesis by (auto simp: new_row_def split: option.split)
qed (use assms in simp)

lemma atomic_stmts [simp]:
  "atomic_stmt (sql_update P f)" "atomic_stmt (sql_update_inode i f)" "atomic_stmt (putNewEntryStmt e p t)"
  "atomic_stmt (updateEntryStmt e t p)" "atomic_stmt (putFileInfoStmt a b c i)"
  "atomic_stmt (putContentHashStmt e h i)" "atomic_stmt (putSymlinkTargetStmt e h i)"
  "atomic_stmt (putDirEntriesStmt e h i)"
  by (simp_all add: atomic_stmt_def sql_update_def sql_update_inode_def putNewEntryStmt_def
      updateEntryStmt_def putFileInfoStmt_def putContentHashStmt_def putSymlinkTargetStmt_def
      putDirEntriesStmt_def split: sum.split option.split)

section \<open>Invariants of the table\<close>

text \<open>
  A property of tables that every statement keeps is kept by every operation of the cache. The
  locales state the contract once, for any such property: the statements that every property has to
  bear, the statement that stores a content hash, and the statement that changes the type of a row,
  which only the operations for uncached paths use. A property may
  concern what a directory's encoded entries look like, if the entry names are acceptable.
\<close>

definition entry_types :: "string list" where
  "entry_types = [''file'', ''directory'', ''symlink'']"

lemma entry_types_typeNames: "t \<in> set entry_types \<Longrightarrow> t \<in> set typeNames"
  by (auto simp: entry_types_def typeNames_def)

definition type_name :: "FileMode \<Rightarrow> string outcome" where
  "type_name m = fst (sqlTypeName m ())"

lemma sqlTypeName_run: "sqlTypeName m s = (type_name m, s)"
  by (simp add: type_name_def sqlTypeName_def)

lemma type_name_Ret: "type_name m = Ret t \<Longrightarrow> t \<in> set entry_types"
  by (auto simp: type_name_def sqlTypeName_def entry_types_def split: if_splits)

lemma type_name_cases:
  obtains (ok) t where "type_name m = Ret t" "t \<in> set entry_types" | (unknown) msg where "type_name m = Panic msg"
  using type_name_Ret [of m] ok unknown
  by (cases "type_name m") (auto simp: type_name_def sqlTypeName_def split: if_splits)

lemma keeps_sqlTypeName_bnd:
  assumes "\<And>t. t \<in> set entry_types \<Longrightarrow> keeps I (f t)"
  shows "keeps I (bnd (sqlTypeName m) f)"
  using assms by (cases rule: type_name_cases [of m]) (auto simp: keeps_def bnd_def sqlTypeName_run)

lemma putOneDirEntry_result:
  assumes "putOneDirEntry e path fi acc d = (Ret (Inr acc'), d')"
  shows "\<exists>i t. acc' = acc @ [formatDirEntry (Name fi) i t] \<and> t \<in> set entry_types"
  using assms
  by (cases rule: type_name_cases [of "Mode fi AND os_ModeType"])
     (auto simp: putOneDirEntry_def Let_def try_bnd_def bnd_def sqlTypeName_run
       split: prod.splits outcome.splits sum.splits if_splits)

lemma keeps_row_readers [keeps_rules]:
  "keeps I (rowFileInfo path row)" "keeps I (rowDirEntries row)"
proof -
  show "keeps I (rowFileInfo path row)"
    by (auto simp: keeps_def rowFileInfo_def split: option.split)
  show "keeps I (rowDirEntries row)"
    unfolding rowDirEntries_def by (intro keeps_rules)
qed

lemma keeps_result_readers [keeps_rules]:
  "keeps I (resultToInode r)" "keeps I (checkUpdateAffectedOneRow r)"
  by (simp_all add: keeps_def resultToInode_def checkUpdateAffectedOneRow_def split: sum.split)

definition encoded_entries :: "(string \<Rightarrow> bool) \<Rightarrow> string list \<Rightarrow> bool" where
  "encoded_entries ok_name fs \<longleftrightarrow>
     (\<forall>f \<in> set fs. \<exists>n i t. f = formatDirEntry n i t \<and> ok_name n \<and> t \<in> set entry_types)"

lemma for_each_putOneDirEntry_encoded:
  assumes "for_each (putOneDirEntry e path) entries acc d = (Ret (Inr fs), d')"
    and "\<And>fi. fi \<in> set entries \<Longrightarrow> ok_name (Name fi)" and "encoded_entries ok_name acc"
  shows "encoded_entries ok_name fs"
  using assms
proof (induction entries arbitrary: acc d)
  case (Cons fi entries)
  from Cons.prems(1) obtain acc1 d1 where
    x: "putOneDirEntry e path fi acc d = (Ret (Inr acc1), d1)"
    and rest: "for_each (putOneDirEntry e path) entries acc1 d1 = (Ret (Inr fs), d')"
    by (auto simp: try_bnd_def bnd_def split: prod.splits outcome.splits sum.splits)
  from putOneDirEntry_result [OF x] Cons.prems(2) [of fi] Cons.prems(3)
  have "encoded_entries ok_name acc1"
    by (fastforce simp: encoded_entries_def)
  with Cons.IH [OF rest] Cons.prems(2) show ?case by simp
qed simp

text \<open>
  What the operations keep of a table, from what the statements keep of it. The statement that stores a
  content hash is a law of its own, because an invariant may restrict the hashes.
\<close>

locale table_base =
  fixes I :: "engine \<Rightarrow> table \<Rightarrow> bool"
    and ok_name :: "string \<Rightarrow> bool"
  assumes insert: "I e tbl \<Longrightarrow> t \<in> set typeNames \<Longrightarrow> I e (snd (putNewEntryStmt e p t tbl))"
    and file_info: "I e tbl \<Longrightarrow> I e (snd (putFileInfoStmt md sz mt i tbl))"
    and symlink_target: "I e tbl \<Longrightarrow> I e (snd (putSymlinkTargetStmt e h i tbl))"
    and dir_entries: "I e tbl \<Longrightarrow> encoded_entries ok_name fs \<Longrightarrow>
      I e (snd (putDirEntriesStmt e (join_with dirEntrySeparator fs) i tbl))"
begin

lemma keeps_exec:
  assumes "atomic_stmt st" "\<And>tbl. I e tbl \<Longrightarrow> I e (snd (st tbl))"
  shows "keeps (\<lambda>d. I e (db_rows d)) (RetryExec e st)"
  using assms(1) by (rule keeps_RetryExec) (use assms(2) in fastforce)

lemma keeps_stmts [keeps_rules]:
  "t \<in> set typeNames \<Longrightarrow> keeps (\<lambda>d. I e (db_rows d)) (RetryExec e (putNewEntryStmt e p t))"
  "keeps (\<lambda>d. I e (db_rows d)) (RetryExec e (putFileInfoStmt md sz mt i))"
  "keeps (\<lambda>d. I e (db_rows d)) (RetryExec e (putSymlinkTargetStmt e h i))"
  by (simp_all add: keeps_exec insert file_info symlink_target)

lemma keeps_putNew: "t \<in> set typeNames \<Longrightarrow> keeps (\<lambda>d. I e (db_rows d)) (putNew e p t)"
  unfolding putNew_def by (intro keeps_rules)

lemma keeps_PutNewWithType: "keeps (\<lambda>d. I e (db_rows d)) (PutNewWithType e p m)"
  unfolding PutNewWithType_def
  by (rule keeps_if keeps_panic keeps_sqlTypeName_bnd keeps_putNew entry_types_typeNames | assumption)+

lemma keeps_PutNewNoEntry: "keeps (\<lambda>d. I e (db_rows d)) (PutNewNoEntry e p)"
  unfolding PutNewNoEntry_def by (rule keeps_putNew) (simp add: typeNames_def)

text \<open>Where the type of one path may change.\<close>

lemma keeps_upsert_at:
  assumes "\<And>t tbl. I e tbl \<Longrightarrow> t \<in> set typeNames \<Longrightarrow> I e (snd (updateEntryStmt e t p tbl))"
  shows "keeps (\<lambda>d. I e (db_rows d)) (PutNewOrUpdateWithType e p m)" "keeps (\<lambda>d. I e (db_rows d)) (PutNewOrUpdateNoEntry e p)"
proof -
  have put: "keeps (\<lambda>d. I e (db_rows d)) (putNewOrUpdate e p t)" if "t \<in> set typeNames" for t
    unfolding putNewOrUpdate_def using that by (intro keeps_rules keeps_exec [OF atomic_stmts(4) assms])
  show "keeps (\<lambda>d. I e (db_rows d)) (PutNewOrUpdateWithType e p m)"
    unfolding PutNewOrUpdateWithType_def
    by (rule keeps_if keeps_panic keeps_sqlTypeName_bnd put entry_types_typeNames | assumption)+
  show "keeps (\<lambda>d. I e (db_rows d)) (PutNewOrUpdateNoEntry e p)"
    unfolding PutNewOrUpdateNoEntry_def by (rule put) (simp add: typeNames_def)
qed

lemma keeps_PutFileInfo: "keeps (\<lambda>d. I e (db_rows d)) (PutFileInfo e i fi)"
  unfolding PutFileInfo_def by (intro keeps_rules)

lemma keeps_PutSymlinkTarget: "keeps (\<lambda>d. I e (db_rows d)) (PutSymlinkTarget e i tgt)"
  unfolding PutSymlinkTarget_def by (intro keeps_rules)

lemma keeps_GetFullEntry: "keeps (\<lambda>d. I e (db_rows d)) (GetFullEntry e p)"
  unfolding GetFullEntry_def by (intro keeps_rules)

lemma keeps_GetDirEntries: "keeps (\<lambda>d. I e (db_rows d)) (GetDirEntries e i out)"
  unfolding GetDirEntries_def by (intro keeps_rules)

lemma keeps_putOneDirEntry: "keeps (\<lambda>d. I e (db_rows d)) (putOneDirEntry e path fi acc)"
  unfolding putOneDirEntry_def Let_def
  by (rule keeps_sqlTypeName_bnd) (intro keeps_rules entry_types_typeNames)

lemma keeps_PutDirEntries:
  assumes "\<And>fi. fi \<in> set entries \<Longrightarrow> ok_name (Name fi)"
  shows "keeps (\<lambda>d. I e (db_rows d)) (PutDirEntries e i path entries)"
proof (rule keepsI)
  fix d :: metadb
  assume "I e (db_rows d)"
  let ?loop = "for_each (putOneDirEntry e path) entries []"
  have loop: "I e (db_rows (snd (?loop d)))"
    by (rule keepsD [OF keeps_for_each [OF keeps_putOneDirEntry]]) fact
  show "I e (db_rows (snd (PutDirEntries e i path entries d)))"
  proof (cases "\<exists>fs d1. ?loop d = (Ret (Inr fs), d1)")
    case True
    then obtain fs d1 where run: "?loop d = (Ret (Inr fs), d1)" by blast
    then have enc: "encoded_entries ok_name fs"
      using for_each_putOneDirEntry_encoded [OF run, where ok_name = ok_name] assms
      by (simp add: encoded_entries_def)
    have "keeps (\<lambda>d. I e (db_rows d))
      (try_bnd (RetryExec e (putDirEntriesStmt e (join_with dirEntrySeparator fs) i))
        checkUpdateAffectedOneRow)"
      unfolding checkUpdateAffectedOneRow_def
      by (intro keeps_rules keeps_exec [OF atomic_stmts(8)] dir_entries [OF _ enc])
    with loop run show ?thesis
      by (simp add: PutDirEntries_def try_bnd_Inr [where m = ?loop, OF run] keeps_def)
  next
    case False
    with loop show ?thesis
      by (auto simp: PutDirEntries_def try_bnd_def bnd_def split: prod.splits outcome.splits sum.splits)
  qed
qed

end

locale table_invariant = table_base +
  assumes content_hash: "I e tbl \<Longrightarrow> I e (snd (putContentHashStmt e h i tbl))"
begin

lemma keeps_PutContentHash: "keeps (\<lambda>d. I e (db_rows d)) (PutContentHash e i k)"
  unfolding PutContentHash_def
  by (intro keeps_rules keeps_exec [OF atomic_stmts(6) content_hash])

end

locale table_upsert = table_base +
  assumes update_type: "I e tbl \<Longrightarrow> t \<in> set typeNames \<Longrightarrow> I e (snd (updateEntryStmt e t p tbl))"
begin

lemma keeps_PutNewOrUpdateWithType: "keeps (\<lambda>d. I e (db_rows d)) (PutNewOrUpdateWithType e p m)"
  by (intro keeps_upsert_at update_type)

lemma keeps_PutNewOrUpdateNoEntry: "keeps (\<lambda>d. I e (db_rows d)) (PutNewOrUpdateNoEntry e p)"
  by (intro keeps_upsert_at update_type)

end

locale table_invariant_update = table_invariant + table_upsert

section \<open>Encoding and decoding of directory entries\<close>

definition sep_free :: "string \<Rightarrow> bool" where
  "sep_free n \<longleftrightarrow> dirEntrySeparator \<notin> set n \<and> dirEntryFieldSeparator \<notin> set n"

definition entry_of :: "u64 \<Rightarrow> string \<Rightarrow> OneDirEntry" where
  "entry_of i t = \<lparr>Valid = (t \<noteq> ''noentry''), Inode = i,
     ModeType = (if t = ''directory'' then ModeDir else if t = ''symlink'' then ModeSymlink else 0)\<rparr>"

text \<open>The first entry of a name wins.\<close>

fun add_entry :: "string \<times> u64 \<times> string \<Rightarrow> dirmap \<Rightarrow> dirmap" where
  "add_entry (n, i, t) m = (if map_of m n = None then m @ [(n, entry_of i t)] else m)"

lemmas separator_defs = dirEntrySeparator_def dirEntryFieldSeparator_def

lemma typeNames_sep_free: "t \<in> set typeNames \<Longrightarrow> sep_free t"
  by (auto simp: typeNames_def sep_free_def separator_defs)

lemma addDirEntry_run:
  "t \<in> set typeNames \<Longrightarrow> addDirEntry i n t m = (Ret (Inr ()), add_entry (n, i, t) m)"
  by (auto simp: addDirEntry_def typeNames_def entry_of_def bnd_def)

lemma parts_of_format:
  assumes "sep_free n" "t \<in> set typeNames"
  shows "split_on dirEntryFieldSeparator (formatDirEntry n i t) = [n, show_nat (unat i), t]"
proof -
  have "dirEntryFieldSeparator \<notin> set (show_nat (unat i))"
    using show_nat_digits [of _ "unat i"] is_digit_no_sep by (auto simp: separator_defs)
  moreover have "dirEntryFieldSeparator \<notin> set n" "dirEntryFieldSeparator \<notin> set t"
    using assms typeNames_sep_free by (auto simp: sep_free_def)
  ultimately show ?thesis by (simp add: formatDirEntry_def split_on_Cons_free split_on_free)
qed

lemma format_no_entry_sep:
  assumes "sep_free n" "t \<in> set typeNames"
  shows "dirEntrySeparator \<notin> set (formatDirEntry n i t)"
proof -
  have "dirEntrySeparator \<notin> set (show_nat (unat i))"
    using show_nat_digits [of _ "unat i"] is_digit_no_sep by (auto simp: separator_defs)
  with assms typeNames_sep_free [of t] show ?thesis
    by (auto simp: formatDirEntry_def sep_free_def) (simp add: separator_defs)
qed

lemma parseOneDirEntry_format:
  assumes "sep_free n" "t \<in> set typeNames"
  shows "parseOneDirEntry (formatDirEntry n i t) u m = (Ret (Inr ()), add_entry (n, i, t) m)"
  using parts_of_format [OF assms] assms(2)
  by (simp add: parseOneDirEntry_def Let_def ParseUint_show_nat addDirEntry_run)

definition format_entries :: "(string \<times> u64 \<times> string) list \<Rightarrow> string" where
  "format_entries xs = join_with dirEntrySeparator (map (\<lambda>(n, i, t). formatDirEntry n i t) xs)"

definition good_entries :: "(string \<times> u64 \<times> string) list \<Rightarrow> bool" where
  "good_entries xs \<longleftrightarrow> list_all (\<lambda>(n, i, t). sep_free n \<and> t \<in> set typeNames) xs"

lemma for_each_parse_format:
  assumes "good_entries xs"
  shows "for_each parseOneDirEntry (map (\<lambda>(n, i, t). formatDirEntry n i t) xs) () m =
    (Ret (Inr ()), fold add_entry xs m)"
  using assms
proof (induction xs arbitrary: m)
  case (Cons x xs)
  obtain n i t where x: "x = (n, i, t)" by (cases x)
  from Cons.prems have one: "parseOneDirEntry (formatDirEntry n i t) () m = (Ret (Inr ()), add_entry x m)"
    by (simp add: x good_entries_def parseOneDirEntry_format del: add_entry.simps)
  have "for_each parseOneDirEntry (map (\<lambda>(n, i, t). formatDirEntry n i t) xs) () (add_entry x m) =
      (Ret (Inr ()), fold add_entry xs (add_entry x m))"
    using Cons by (simp add: good_entries_def)
  then show ?case
    by (simp add: x try_bnd_Inr [where m = "parseOneDirEntry (formatDirEntry n i t) ()", OF one [unfolded x]]
      del: add_entry.simps)
qed simp

lemma parse_format_entries:
  assumes "good_entries xs"
  shows "parseDirEntries (format_entries xs) m = (Ret (Inr ()), fold add_entry xs m)"
proof (cases xs)
  case Nil
  then show ?thesis by (simp add: parseDirEntries_def format_entries_def)
next
  case (Cons x ys)
  let ?fs = "map (\<lambda>(n, i, t). formatDirEntry n i t) xs"
  have ne: "format_entries xs \<noteq> []"
    using Cons by (cases ys) (auto simp: format_entries_def formatDirEntry_def split: prod.split)
  have "dirEntrySeparator \<notin> set f" if "f \<in> set ?fs" for f
    using that assms format_no_entry_sep by (fastforce simp: good_entries_def list_all_iff)
  then have "split_on dirEntrySeparator (format_entries xs) = ?fs"
    unfolding format_entries_def using Cons by (intro split_on_join_with) auto
  with ne for_each_parse_format [OF assms, of m] show ?thesis
    by (simp add: parseDirEntries_def)
qed

lemma fold_add_entry_distinct:
  assumes "distinct (map fst m @ map fst xs)"
  shows "fold add_entry xs m = m @ map (\<lambda>(n, i, t). (n, entry_of i t)) xs"
  using assms
proof (induction xs arbitrary: m)
  case (Cons x xs)
  obtain n i t where x: "x = (n, i, t)" by (cases x)
  from Cons.prems have "n \<notin> fst ` set m" by (auto simp: x)
  then have "add_entry x m = m @ [(n, entry_of i t)]" by (simp add: x map_of_eq_None_iff)
  moreover have "distinct (map fst (m @ [(n, entry_of i t)]) @ map fst xs)"
    using Cons.prems by (simp add: x)
  ultimately show ?case using Cons.IH [of "m @ [(n, entry_of i t)]"] by (simp add: x del: add_entry.simps)
qed simp

text \<open>An encoding is never taken for a number: it is empty or holds a field separator.\<close>

lemma plain_format_entries: "plain_text (format_entries xs)"
proof (cases xs)
  case (Cons x ys)
  obtain n i t where x: "x = (n, i, t)" by (cases x)
  have "dirEntryFieldSeparator \<in> set (format_entries xs)"
    by (cases ys) (simp_all add: Cons x format_entries_def formatDirEntry_def)
  then show ?thesis
    by (rule plain_text_char) (simp add: separator_defs separators_not_numeric)
qed (simp add: format_entries_def)

lemma encoded_entries_format:
  assumes "encoded_entries ok_name fs"
  obtains xs where "join_with dirEntrySeparator fs = format_entries xs"
    "\<And>n i t. (n, i, t) \<in> set xs \<Longrightarrow> ok_name n \<and> t \<in> set entry_types"
proof -
  from assms have "\<forall>f \<in> set fs. \<exists>x. f = (\<lambda>(n, i, t). formatDirEntry n i t) x \<and>
      (case x of (n, i, t) \<Rightarrow> ok_name n \<and> t \<in> set entry_types)"
    by (fastforce simp: encoded_entries_def)
  then obtain g where g: "\<forall>f \<in> set fs. f = (\<lambda>(n, i, t). formatDirEntry n i t) (g f) \<and>
      (case g f of (n, i, t) \<Rightarrow> ok_name n \<and> t \<in> set entry_types)"
    by (rule bchoice [THEN exE])
  then have "map (\<lambda>(n, i, t). formatDirEntry n i t) (map g fs) = fs"
    by (auto intro: map_idI)
  with g show thesis
    by (intro that [of "map g fs"]) (auto simp: format_entries_def)
qed

section \<open>The invariants of the cache\<close>

definition decodes :: "string \<Rightarrow> bool" where
  "decodes s = (case parseDirEntries s [] of (Ret (Inr _), _) \<Rightarrow> True | _ \<Rightarrow> False)"

definition entries_ok :: "path_row \<Rightarrow> bool" where
  "entries_ok row = (case c_dirEntries row of None \<Rightarrow> True | Some s \<Rightarrow> decodes s)"

definition table_ok :: "table \<Rightarrow> bool" where
  "table_ok tbl \<longleftrightarrow> table_wf tbl \<and> list_all (\<lambda>(r, row). entries_ok row) tbl"

text \<open>Every row of the first table is still there, under the same number and the same path, and in
  the second version with the same type.\<close>

definition rows_kept :: "table \<Rightarrow> table \<Rightarrow> bool" where
  "rows_kept old tbl \<longleftrightarrow> list_all (\<lambda>(r, _). case map_of old r of None \<Rightarrow> True | Some row \<Rightarrow>
     (case map_of tbl r of None \<Rightarrow> False | Some row' \<Rightarrow> c_path row' = c_path row)) old"

definition types_kept :: "table \<Rightarrow> table \<Rightarrow> bool" where
  "types_kept old tbl \<longleftrightarrow> list_all (\<lambda>(r, _). case map_of old r of None \<Rightarrow> True | Some row \<Rightarrow>
     (case map_of tbl r of None \<Rightarrow> False
      | Some row' \<Rightarrow> c_path row' = c_path row \<and> c_type row' = c_type row)) old"

lemma rows_kept_iff: "rows_kept old tbl \<longleftrightarrow> (\<forall>r row. map_of old r = Some row \<longrightarrow>
    (\<exists>row'. map_of tbl r = Some row' \<and> c_path row' = c_path row))"
  by (fastforce simp: rows_kept_def list_all_iff dest: map_of_SomeD split: option.splits)

lemma types_kept_iff: "types_kept old tbl \<longleftrightarrow> (\<forall>r row. map_of old r = Some row \<longrightarrow>
    (\<exists>row'. map_of tbl r = Some row' \<and> c_path row' = c_path row \<and> c_type row' = c_type row))"
  by (fastforce simp: types_kept_def list_all_iff dest: map_of_SomeD split: option.splits)

lemma rows_kept_refl: "rows_kept tbl tbl"
  by (simp add: rows_kept_iff)

lemma types_kept_refl: "types_kept tbl tbl"
  by (simp add: types_kept_iff)

text \<open>Shapes of the statements, and what field updates do to the invariants.\<close>

lemma sql_update_inode_snd:
  "snd (sql_update_inode i f tbl) = tbl \<or> (\<exists>P. snd (sql_update_inode i f tbl) = snd (sql_update P f tbl))"
  by (auto simp: sql_update_inode_def split: sum.split)

lemma putNewEntryStmt_snd:
  "snd (putNewEntryStmt e p t tbl) = tbl \<or>
   (\<exists>r. snd (putNewEntryStmt e p t tbl) = tbl @ [(r, new_row e p t)])"
  by (cases rule: putNewEntryStmt_cases [of e p t tbl]) auto

lemma sql_update_rows_kept:
  assumes "rows_kept old tbl" "\<And>row. c_path (f row) = c_path row"
  shows "rows_kept old (snd (sql_update P f tbl))"
proof (unfold rows_kept_iff, intro allI impI)
  fix r row
  assume "map_of old r = Some row"
  with assms(1) obtain row' where "map_of tbl r = Some row'" "c_path row' = c_path row"
    by (auto simp: rows_kept_iff)
  with assms(2) show "\<exists>row'. map_of (snd (sql_update P f tbl)) r = Some row' \<and> c_path row' = c_path row"
    by (simp add: map_of_sql_update)
qed

lemma sql_update_types_kept:
  assumes "types_kept old tbl" "\<And>row. c_path (f row) = c_path row" "\<And>row. c_type (f row) = c_type row"
  shows "types_kept old (snd (sql_update P f tbl))"
proof (unfold types_kept_iff, intro allI impI)
  fix r row
  assume "map_of old r = Some row"
  with assms(1) obtain row' where "map_of tbl r = Some row'" "c_path row' = c_path row" "c_type row' = c_type row"
    by (auto simp: types_kept_iff)
  with assms(2,3) show "\<exists>row'. map_of (snd (sql_update P f tbl)) r = Some row' \<and>
      c_path row' = c_path row \<and> c_type row' = c_type row"
    by (simp add: map_of_sql_update)
qed

lemma insert_kept:
  "rows_kept old tbl \<Longrightarrow> rows_kept old (tbl @ [x])" "types_kept old tbl \<Longrightarrow> types_kept old (tbl @ [x])"
  by (fastforce simp: rows_kept_iff types_kept_iff map_of_append map_add_Some_iff)+

lemma sql_update_entries:
  "list_all (\<lambda>(r, row). entries_ok row) tbl \<Longrightarrow> (\<And>row. entries_ok row \<Longrightarrow> entries_ok (f row)) \<Longrightarrow>
   list_all (\<lambda>(r, row). entries_ok row) (snd (sql_update P f tbl))"
  by (auto simp: sql_update_def list_all_iff)

lemma decodes_encoded:
  assumes "engine_ok e" "encoded_entries sep_free fs"
  shows "decodes (eng_text e (join_with dirEntrySeparator fs))"
proof -
  obtain xs where xs: "join_with dirEntrySeparator fs = format_entries xs"
    and good: "\<And>n i t. (n, i, t) \<in> set xs \<Longrightarrow> sep_free n \<and> t \<in> set entry_types"
    using encoded_entries_format [OF assms(2)] by blast
  from good have "good_entries xs"
    by (auto simp: good_entries_def list_all_iff entry_types_typeNames)
  then show ?thesis
    using assms(1) by (simp add: xs decodes_def engine_ok_text plain_format_entries parse_format_entries)
qed

lemmas inode_stmt_defs = putFileInfoStmt_def putContentHashStmt_def putSymlinkTargetStmt_def
  putDirEntriesStmt_def

lemma sql_update_inode_keeps:
  assumes "Q tbl" "\<And>P. Q (snd (sql_update P f tbl))"
  shows "Q (snd (sql_update_inode i f tbl))"
  using sql_update_inode_snd [of i f tbl] assms by auto

lemma inode_stmts_wf:
  assumes "table_wf tbl"
  shows "table_wf (snd (putFileInfoStmt md sz mt i tbl))" "table_wf (snd (putContentHashStmt e h i tbl))"
    "table_wf (snd (putSymlinkTargetStmt e h i tbl))" "table_wf (snd (putDirEntriesStmt e h i tbl))"
  unfolding inode_stmt_defs
  by (rule sql_update_inode_keeps [where Q = table_wf]; (rule sql_update_wf)?; simp add: assms row_wf_def)+

lemma inode_stmts_kept:
  assumes "rows_kept old tbl"
  shows "rows_kept old (snd (putFileInfoStmt md sz mt i tbl))" "rows_kept old (snd (putContentHashStmt e h i tbl))"
    "rows_kept old (snd (putSymlinkTargetStmt e h i tbl))" "rows_kept old (snd (putDirEntriesStmt e h i tbl))"
  unfolding inode_stmt_defs
  by (rule sql_update_inode_keeps [where Q = "rows_kept old"]; (rule sql_update_rows_kept)?; simp add: assms)+

lemma inode_stmts_typed:
  assumes "types_kept old tbl"
  shows "types_kept old (snd (putFileInfoStmt md sz mt i tbl))" "types_kept old (snd (putContentHashStmt e h i tbl))"
    "types_kept old (snd (putSymlinkTargetStmt e h i tbl))" "types_kept old (snd (putDirEntriesStmt e h i tbl))"
  unfolding inode_stmt_defs
  by (rule sql_update_inode_keeps [where Q = "types_kept old"]; (rule sql_update_types_kept)?; simp add: assms)+

lemma inode_stmts_entries:
  assumes "list_all (\<lambda>(r, row). entries_ok row) tbl"
  shows "list_all (\<lambda>(r, row). entries_ok row) (snd (putFileInfoStmt md sz mt i tbl))"
    "list_all (\<lambda>(r, row). entries_ok row) (snd (putContentHashStmt e h i tbl))"
    "list_all (\<lambda>(r, row). entries_ok row) (snd (putSymlinkTargetStmt e h i tbl))"
    "decodes (eng_text e h) \<Longrightarrow> list_all (\<lambda>(r, row). entries_ok row) (snd (putDirEntriesStmt e h i tbl))"
  unfolding inode_stmt_defs
  by (rule sql_update_inode_keeps [where Q = "list_all (\<lambda>(r, row). entries_ok row)"];
      (rule sql_update_entries)?; (rule assms)?; simp add: entries_ok_def)+

lemma updateEntryStmt_keeps:
  "engine_ok e \<Longrightarrow> t \<in> set typeNames \<Longrightarrow> table_wf tbl \<Longrightarrow> table_wf (snd (updateEntryStmt e t p tbl))"
  "list_all (\<lambda>(r, row). entries_ok row) tbl \<Longrightarrow>
     list_all (\<lambda>(r, row). entries_ok row) (snd (updateEntryStmt e t p tbl))"
  "rows_kept old tbl \<Longrightarrow> rows_kept old (snd (updateEntryStmt e t p tbl))"
  unfolding updateEntryStmt_def
  by (rule sql_update_wf sql_update_entries sql_update_rows_kept;
      simp add: engine_ok_text typeNames_plain row_wf_def entries_ok_def)+

lemma putNewEntryStmt_keeps:
  "list_all (\<lambda>(r, row). entries_ok row) tbl \<Longrightarrow>
     list_all (\<lambda>(r, row). entries_ok row) (snd (putNewEntryStmt e p t tbl))"
  "rows_kept old tbl \<Longrightarrow> rows_kept old (snd (putNewEntryStmt e p t tbl))"
  "types_kept old tbl \<Longrightarrow> types_kept old (snd (putNewEntryStmt e p t tbl))"
  using putNewEntryStmt_snd [of e p t tbl] by (auto simp: insert_kept entries_ok_def new_row_def)

interpretation wf: table_invariant_update "\<lambda>e tbl. engine_ok e \<and> table_wf tbl" "\<lambda>_. True"
  by unfold_locales (simp_all add: putNewEntryStmt_wf inode_stmts_wf updateEntryStmt_keeps)

interpretation ok: table_invariant_update "\<lambda>e tbl. engine_ok e \<and> table_ok tbl" sep_free
  by unfold_locales (simp_all add: table_ok_def putNewEntryStmt_wf putNewEntryStmt_keeps inode_stmts_wf
      inode_stmts_entries decodes_encoded updateEntryStmt_keeps)

interpretation kept: table_invariant_update "\<lambda>e tbl. rows_kept old tbl" "\<lambda>_. True" for old
  by unfold_locales (simp_all add: putNewEntryStmt_keeps inode_stmts_kept updateEntryStmt_keeps)

interpretation typed: table_invariant "\<lambda>e tbl. types_kept old tbl" "\<lambda>_. True" for old
  by unfold_locales (simp_all add: putNewEntryStmt_keeps inode_stmts_typed)

lemma updateEntryStmt_typed:
  assumes "types_kept [(r, row)] tbl" "eng_text e p \<noteq> c_path row"
  shows "types_kept [(r, row)] (snd (updateEntryStmt e t p tbl))"
proof -
  obtain row' where "map_of tbl r = Some row'" "c_path row' = c_path row" "c_type row' = c_type row"
    using assms(1) by (auto simp: types_kept_iff split: if_splits)
  with assms(2) show ?thesis by (auto simp: types_kept_iff updateEntryStmt_def map_of_sql_update)
qed

text \<open>Every recorded content hash is one of a given set.\<close>

definition hashes_in :: "string set \<Rightarrow> table \<Rightarrow> bool" where
  "hashes_in H tbl \<longleftrightarrow> list_all (\<lambda>(r, row). c_contentHash row \<in> insert None (Some ` H)) tbl"

lemma hashes_in_update:
  assumes "hashes_in H tbl" "\<And>row. c_contentHash (f row) \<in> insert (c_contentHash row) (Some ` H)"
  shows "hashes_in H (snd (sql_update P f tbl))"
proof -
  have "c_contentHash (if P r row then f row else row) \<in> insert None (Some ` H)" if "c_contentHash row \<in> insert None (Some ` H)" for r row
    using that assms(2) [of row] by (cases "P r row") auto
  then show ?thesis
    using assms(1) unfolding hashes_in_def sql_update_def snd_conv list.pred_map
    by (elim list.pred_mono_strong) (simp only: comp_def case_prod_beta fst_conv snd_conv)
qed

lemma hashes_in_stmts:
  assumes "hashes_in H tbl"
  shows "hashes_in H (snd (putFileInfoStmt md sz mt i tbl))" "hashes_in H (snd (putSymlinkTargetStmt e h i tbl))"
    "hashes_in H (snd (putDirEntriesStmt e h i tbl))"
    "eng_text e h \<in> H \<Longrightarrow> hashes_in H (snd (putContentHashStmt e h i tbl))"
    "hashes_in H (snd (updateEntryStmt e t p tbl))" "hashes_in H (snd (putNewEntryStmt e p t tbl))"
proof -
  show "hashes_in H (snd (putFileInfoStmt md sz mt i tbl))" "hashes_in H (snd (putSymlinkTargetStmt e h i tbl))"
    "hashes_in H (snd (putDirEntriesStmt e h i tbl))"
    "eng_text e h \<in> H \<Longrightarrow> hashes_in H (snd (putContentHashStmt e h i tbl))"
    unfolding inode_stmt_defs
    by (rule sql_update_inode_keeps [where Q = "hashes_in H"]; (rule hashes_in_update)?; simp add: assms)+
  show "hashes_in H (snd (updateEntryStmt e t p tbl))"
    unfolding updateEntryStmt_def by (rule hashes_in_update) (simp_all add: assms)
  show "hashes_in H (snd (putNewEntryStmt e p t tbl))"
    using assms putNewEntryStmt_snd [of e p t tbl] by (auto simp: hashes_in_def new_row_def)
qed

interpretation hashed: table_upsert "\<lambda>e tbl. hashes_in H tbl" "\<lambda>_. True" for H
  by unfold_locales (simp_all add: hashes_in_stmts)

lemma keeps_hashes_PutContentHash:
  assumes "eng_text e key \<in> H"
  shows "keeps (\<lambda>d. hashes_in H (db_rows d)) (PutContentHash e i key)"
  unfolding PutContentHash_def
  by (intro keeps_rules hashed.keeps_exec [OF atomic_stmts(6)] hashes_in_stmts(4) assms)

lemma hashes_in_mono: "hashes_in H tbl \<Longrightarrow> H \<subseteq> H' \<Longrightarrow> hashes_in H' tbl"
  unfolding hashes_in_def by (erule list.pred_mono_strong) auto

end
