(* ===== verification/Metadata_Store.thy ===== *)
theory Metadata_Store
  imports Metadata
begin

unbundle bit_operations_syntax

text \<open>
  The metadata cache as an abstract store: a map from paths to \<^typ>\<open>CachedRow\<close>s. The operations of
  \<^verbatim>\<open>metadata.go\<close> are shown to implement insertion of a fresh row, update of one field of the row with
  a given inode, and lookup. Each operation is analysed by a case rule with one case per way it can
  end: it never returns (SQLite reports contention forever), it returns an error and leaves the
  table as it was, or it returns normally.
\<close>

section \<open>The abstract view\<close>

definition decode_entries :: "string \<Rightarrow> dirmap" where
  "decode_entries s = snd (parseDirEntries s [])"

definition row_info :: "string \<Rightarrow> path_row \<Rightarrow> FileInfo option" where
  "row_info path row =
     (case (c_mode row, c_size row, c_mtime_nsec row) of
        (Some md, Some sz, Some mt) \<Rightarrow> Some (newFileInfo path sz (ucast md) (time_Unix0 mt))
      | _ \<Rightarrow> None)"

definition view_row :: "string \<Rightarrow> int64 \<times> path_row \<Rightarrow> CachedRow" where
  "view_row path rr =
     \<lparr>RowInode = fst rr, TypeName = c_type (snd rr), RowFileInfo = row_info path (snd rr),
      DidReadDir = False, DirEntries = map_option decode_entries (c_dirEntries (snd rr)),
      ContentHash = c_contentHash (snd rr), Target = c_target (snd rr)\<rparr>"

type_synonym store = "string \<Rightarrow> CachedRow option"

definition meta_view :: "engine \<Rightarrow> table \<Rightarrow> store" where
  "meta_view e tbl = (\<lambda>p. map_option (view_row p) (row_by_path e p tbl))"

text \<open>The abstract operations.\<close>

definition fresh_row :: "u64 \<Rightarrow> string \<Rightarrow> CachedRow" where
  "fresh_row i t = \<lparr>RowInode = i, TypeName = t, RowFileInfo = None, DidReadDir = False,
     DirEntries = None, ContentHash = None, Target = None\<rparr>"

definition store_update :: "u64 \<Rightarrow> (string \<Rightarrow> CachedRow \<Rightarrow> CachedRow) \<Rightarrow> store \<Rightarrow> store" where
  "store_update i f v = (\<lambda>p. map_option (\<lambda>row. if RowInode row = i then f p row else row) (v p))"

text \<open>What \<^verbatim>\<open>GetFullEntry\<close> will report for the file information handed to \<^verbatim>\<open>PutFileInfo\<close>.\<close>

definition stored_info :: "string \<Rightarrow> FileInfo \<Rightarrow> FileInfo" where
  "stored_info p fi = newFileInfo p (Size fi) (Mode fi) (time_Unix0 (UnixNano (ModTime fi)))"

lemma view_row_fields [simp]:
  "RowInode (view_row p rr) = fst rr" "TypeName (view_row p rr) = c_type (snd rr)"
  "RowFileInfo (view_row p rr) = row_info p (snd rr)" "DidReadDir (view_row p rr) = False"
  "DirEntries (view_row p rr) = map_option decode_entries (c_dirEntries (snd rr))"
  "ContentHash (view_row p rr) = c_contentHash (snd rr)" "Target (view_row p rr) = c_target (snd rr)"
  by (simp_all add: view_row_def)

section \<open>Lookup\<close>

lemma rowFileInfo_wf: "row_wf row \<Longrightarrow> rowFileInfo p row s = (Ret (row_info p row), s)"
  by (auto simp: row_wf_def rowFileInfo_def row_info_def split: option.splits)

lemma decodes_parse: "decodes s \<Longrightarrow> parseDirEntries s [] = (Ret (Inr ()), decode_entries s)"
  by (auto simp: decodes_def decode_entries_def split: prod.splits outcome.splits sum.splits)

lemma rowDirEntries_ok:
  "entries_ok row \<Longrightarrow> rowDirEntries row s = (Ret (Inr (map_option decode_entries (c_dirEntries row))), s)"
  by (cases "c_dirEntries row")
     (auto simp: entries_ok_def rowDirEntries_def bnd_def run_on_def decodes_parse)

lemma row_by_path_ok:
  "table_ok tbl \<Longrightarrow> row_by_path e p tbl = Some (r, row) \<Longrightarrow> row_wf row \<and> entries_ok row"
  using row_by_path_Some [of tbl e p r row]
  by (auto simp: table_ok_def list_all_iff dest: map_of_SomeD)

lemma GetFullEntry_cases:
  assumes "table_ok (db_rows d)"
  obtains (diverge) d' where "GetFullEntry e p d = (Diverge, d')" "db_rows d' = db_rows d"
  | (error) c d' where "GetFullEntry e p d = (Ret (Inl (SqliteError c)), d')" "db_rows d' = db_rows d"
  | (ok) d' where "GetFullEntry e p d = (Ret (Inr (meta_view e (db_rows d) p)), d')" "db_rows d' = db_rows d"
proof (cases rule: QueryRowScan_cases [of e "getFullEntryStmt e p" d])
  case (diverge d')
  then show thesis using that(1) by (simp add: GetFullEntry_def bnd_def)
next
  case (error err d')
  then obtain c where "err = SqliteError c" by (auto simp: getFullEntryStmt_def)
  with error show thesis using that(2) by (simp add: GetFullEntry_def bnd_def)
next
  case (none d')
  then show thesis using that(3)
    by (simp add: GetFullEntry_def bnd_def getFullEntryStmt_def meta_view_def)
next
  case (some v d')
  obtain r row where v: "v = (r, row)" by (cases v)
  with some have found: "row_by_path e p (db_rows d) = Some (r, row)" by (simp add: getFullEntryStmt_def)
  note row = row_by_path_ok [OF assms found]
  have "GetFullEntry e p d = (Ret (Inr (Some (view_row p (r, row)))), d')"
    using some(1) row
    by (simp add: v GetFullEntry_def bnd_def try_bnd_def rowFileInfo_wf rowDirEntries_ok view_row_def)
  with some(2) found show thesis using that(3) by (simp add: meta_view_def)
qed

section \<open>Insertion\<close>

lemma row_info_new: "row_info p (new_row e q t) = None"
  by (simp add: row_info_def new_row_def)

lemma view_new_row: "eng_text e t = t \<Longrightarrow> view_row p (r, new_row e q t) = fresh_row r t"
  by (simp add: view_row_def fresh_row_def row_info_new) (simp add: new_row_def)

lemma meta_view_insert:
  assumes "engine_ok e" "t \<in> set typeNames" "putNewEntryStmt e p t tbl = (Inr (Inr r), tbl')"
    and "clean_abs p" "clean_abs q"
  shows "meta_view e tbl' q = ((meta_view e tbl)(p \<mapsto> fresh_row r t)) q"
  using row_by_path_insert [OF assms(3), of q] assms(1,2,4,5)
  by (auto simp: meta_view_def clean_abs_text view_new_row engine_ok_text typeNames_plain)

lemma putNewEntryStmt_Inr:
  assumes "engine_ok e" "putNewEntryStmt e p t tbl = (Inr x, tbl')"
  obtains r where "x = Inr r" "0 < sint r" "meta_view e tbl p = None"
  using assms(2) engine_ok_rowid [OF assms(1)]
  by (cases rule: putNewEntryStmt_cases [of e p t tbl]) (auto simp: meta_view_def)

lemma putNew_cases:
  assumes "engine_ok e" "t \<in> set typeNames" "clean_abs p"
  obtains (diverge) d' where "putNew e p t d = (Diverge, d')" "db_rows d' = db_rows d"
  | (error) err d' where "putNew e p t d = (Ret (Inl err), d')" "torn (putNewEntryStmt e p t) (db_rows d) (db_rows d')"
  | (ok) r d' where "putNew e p t d = (Ret (Inr r), d')" "0 < sint r"
      "meta_view e (db_rows d) p = None"
      "\<And>q. clean_abs q \<Longrightarrow> meta_view e (db_rows d') q = ((meta_view e (db_rows d))(p \<mapsto> fresh_row r t)) q"
proof (cases rule: RetryExec_cases [OF atomic_stmts(3), of e e p t d])
  case 1
  then show thesis using diverge by (simp add: putNew_def try_bnd_def bnd_def)
next
  case (2 err d')
  then show thesis using error by (simp add: putNew_def try_bnd_def bnd_def)
next
  case (3 x d')
  obtain r where r: "x = Inr r" "0 < sint r" "meta_view e (db_rows d) p = None"
    by (rule putNewEntryStmt_Inr [OF assms(1) 3(2)])
  have "putNew e p t d = (Ret (Inr r), d')"
    using 3(1) r by (simp add: putNew_def try_bnd_def bnd_def resultToInode_def)
  then show thesis
    using r meta_view_insert [OF assms(1,2) 3(2) [unfolded r(1)] assms(3)] by (intro ok)
qed

lemma PutNewWithType_run:
  assumes "m AND NOT os_ModeType = 0" "type_name m = Ret t"
  shows "PutNewWithType e p m = putNew e p t"
proof -
  from assms(1) have "m AND os_ModeType = m"
    by (metis and.right_neutral bit.compl_one bit.conj_cancel_right bit.conj_disj_distrib
        bit.disj_cancel_right or.right_neutral)
  with assms show ?thesis by (simp add: PutNewWithType_def bnd_def sqlTypeName_run fun_eq_iff)
qed

section \<open>Updates\<close>

lemma meta_view_update_inode:
  assumes "\<And>row. c_path (f row) = c_path row"
    and "\<And>p r row. view_row p (r, f row) = g p (view_row p (r, row))"
    and "sql_update_inode i f tbl = (Inr x, tbl')"
  shows "meta_view e tbl' = store_update i g (meta_view e tbl)"
proof -
  from assms(3) have "tbl' = snd (sql_update (\<lambda>r _. r = i) f tbl)"
    by (auto simp: sql_update_inode_def sql_uint64_def split: if_splits)
  then show ?thesis
    using row_by_path_sql_update [OF assms(1), where P = "\<lambda>r _. r = i" and tbl = tbl]
    by (auto simp: meta_view_def store_update_def fun_eq_iff option.map_comp assms(2)
      intro!: option.map_cong split: prod.splits)
qed

text \<open>What a statement does to the table when it succeeds.\<close>

definition stmt_effect :: "(table, int64 result) stmt \<Rightarrow> (table \<Rightarrow> table \<Rightarrow> bool) \<Rightarrow> bool" where
  "stmt_effect st V \<longleftrightarrow> (\<forall>tbl x tbl'. st tbl = (Inr x, tbl') \<longrightarrow> (\<exists>n. x = Inr n) \<and> V tbl tbl')"

lemma exec_check_cases:
  assumes "atomic_stmt st" and "stmt_effect st V"
  obtains (diverge) d' where "try_bnd (RetryExec e st) checkUpdateAffectedOneRow d = (Diverge, d')" "db_rows d' = db_rows d"
  | (error) err d' where "try_bnd (RetryExec e st) checkUpdateAffectedOneRow d = (Ret (Inl err), d')"
      "db_rows d' = db_rows d \<or> V (db_rows d) (db_rows d')"
  | (ok) d' where "try_bnd (RetryExec e st) checkUpdateAffectedOneRow d = (Ret (Inr ()), d')"
      "V (db_rows d) (db_rows d')"
proof (cases rule: RetryExec_cases [OF assms(1), of e d])
  case 1
  then show thesis using diverge by (simp add: try_bnd_def bnd_def)
next
  case (2 err d')
  have "db_rows d' = db_rows d \<or> V (db_rows d) (db_rows d')"
    using 2(2) assms(2) unfolding torn_def stmt_effect_def by blast
  with 2(1) show thesis using error by (simp add: try_bnd_def bnd_def)
next
  case (3 x d')
  with assms(2) obtain n where "x = Inr n" "V (db_rows d) (db_rows d')"
    unfolding stmt_effect_def by metis
  with 3(1) show thesis
    using ok by (auto simp: try_bnd_def bnd_def checkUpdateAffectedOneRow_def)
qed

lemma sql_update_inode_Inr: "sql_update_inode i f tbl = (Inr x, tbl') \<Longrightarrow> \<exists>n. x = Inr n"
  by (auto simp: sql_update_inode_def sql_update_def split: sum.splits)

lemma ucast_mode_round_trip [simp]: "ucast (ucast (m :: FileMode) :: int64) = m"
  by (rule bit_word_eqI) (simp add: bit_simps)

lemma row_info_updates [simp]:
  "row_info p (row\<lparr>c_type := t\<rparr>) = row_info p row"
  "row_info p (row\<lparr>c_dirEntries := de\<rparr>) = row_info p row"
  "row_info p (row\<lparr>c_contentHash := h\<rparr>) = row_info p row"
  "row_info p (row\<lparr>c_target := tg\<rparr>) = row_info p row"
  by (simp_all add: row_info_def)

definition set_info :: "FileInfo \<Rightarrow> string \<Rightarrow> CachedRow \<Rightarrow> CachedRow" where
  "set_info fi p row = row\<lparr>RowFileInfo := Some (stored_info p fi)\<rparr>"

definition set_hash :: "Key \<Rightarrow> string \<Rightarrow> CachedRow \<Rightarrow> CachedRow" where
  "set_hash k p row = row\<lparr>ContentHash := Some k\<rparr>"

definition set_target :: "string \<Rightarrow> string \<Rightarrow> CachedRow \<Rightarrow> CachedRow" where
  "set_target tgt p row = row\<lparr>Target := Some tgt\<rparr>"

definition set_entries :: "dirmap \<Rightarrow> string \<Rightarrow> CachedRow \<Rightarrow> CachedRow" where
  "set_entries m p row = row\<lparr>DirEntries := Some m\<rparr>"

lemmas set_field_defs = set_info_def set_hash_def set_target_def set_entries_def

lemma update_inode_effect:
  assumes "\<And>row. c_path (f row) = c_path row"
    and "\<And>p r row. view_row p (r, f row) = g p (view_row p (r, row))"
  shows "stmt_effect (sql_update_inode i f)
    (\<lambda>tbl tbl'. meta_view e tbl' = store_update i g (meta_view e tbl))"
  using meta_view_update_inode [OF assms] sql_update_inode_Inr by (auto simp: stmt_effect_def)

lemma putFileInfoStmt_view:
  "stmt_effect (putFileInfoStmt (ucast (Mode fi)) (Size fi) (UnixNano (ModTime fi)) i)
    (\<lambda>tbl tbl'. meta_view e tbl' = store_update i (set_info fi) (meta_view e tbl))"
  unfolding putFileInfoStmt_def
  by (rule update_inode_effect) (simp_all add: view_row_def set_info_def row_info_def stored_info_def)

lemma putContentHashStmt_view:
  "stmt_effect (putContentHashStmt e k i)
    (\<lambda>tbl tbl'. meta_view e tbl' = store_update i (set_hash (eng_text e k)) (meta_view e tbl))"
  unfolding putContentHashStmt_def by (rule update_inode_effect) (simp_all add: view_row_def set_hash_def)

lemma putSymlinkTargetStmt_view:
  "stmt_effect (putSymlinkTargetStmt e k i)
    (\<lambda>tbl tbl'. meta_view e tbl' = store_update i (set_target (eng_text e k)) (meta_view e tbl))"
  unfolding putSymlinkTargetStmt_def by (rule update_inode_effect) (simp_all add: view_row_def set_target_def)

lemma putDirEntriesStmt_view:
  "stmt_effect (putDirEntriesStmt e k i)
    (\<lambda>tbl tbl'. meta_view e tbl' =
      store_update i (set_entries (decode_entries (eng_text e k))) (meta_view e tbl))"
  unfolding putDirEntriesStmt_def by (rule update_inode_effect) (simp_all add: view_row_def set_entries_def)

text \<open>
  An operation that changes one row: it changes exactly that row of the view and returns, or it
  reports an error and has changed that row or nothing, or it never returns and leaves the table alone; it
  never panics.
\<close>

definition view_update ::
  "engine \<Rightarrow> u64 \<Rightarrow> (string \<Rightarrow> CachedRow \<Rightarrow> CachedRow) \<Rightarrow> (metadb, unit result) prog \<Rightarrow> bool" where
  "view_update e i g m \<longleftrightarrow> (\<forall>d. case m d of
      (Ret (Inr _), d') \<Rightarrow> meta_view e (db_rows d') = store_update i g (meta_view e (db_rows d))
    | (Ret (Inl _), d') \<Rightarrow> db_rows d' = db_rows d \<or>
        meta_view e (db_rows d') = store_update i g (meta_view e (db_rows d))
    | (Diverge, d') \<Rightarrow> db_rows d' = db_rows d
    | _ \<Rightarrow> False)"

lemma view_updateI:
  assumes "atomic_stmt st"
    and "stmt_effect st (\<lambda>tbl tbl'. meta_view e tbl' = store_update i g (meta_view e tbl))"
  shows "view_update e i g (try_bnd (RetryExec e st) checkUpdateAffectedOneRow)"
  unfolding view_update_def
proof
  show "case try_bnd (RetryExec e st) checkUpdateAffectedOneRow d of
      (Ret (Inr _), d') \<Rightarrow> meta_view e (db_rows d') = store_update i g (meta_view e (db_rows d))
    | (Ret (Inl _), d') \<Rightarrow> db_rows d' = db_rows d \<or>
        meta_view e (db_rows d') = store_update i g (meta_view e (db_rows d))
    | (Diverge, d') \<Rightarrow> db_rows d' = db_rows d
    | _ \<Rightarrow> False" for d
    by (rule exec_check_cases [OF assms, of e d]) simp_all
qed

lemma view_update_puts:
  "view_update e i (set_info fi) (PutFileInfo e i fi)"
  "view_update e i (set_hash (eng_text e k)) (PutContentHash e i k)"
  "view_update e i (set_target (eng_text e tgt)) (PutSymlinkTarget e i tgt)"
  unfolding PutFileInfo_def PutContentHash_def PutSymlinkTarget_def
  by (intro view_updateI atomic_stmts putFileInfoStmt_view putContentHashStmt_view putSymlinkTargetStmt_view)+

lemma view_updateD:
  assumes "view_update e i g m" "m d = (Ret (Inr x), d')"
  shows "meta_view e (db_rows d') = store_update i g (meta_view e (db_rows d))"
  using assms unfolding view_update_def by (auto dest!: spec [of _ d])

lemma view_update_cases:
  assumes "view_update e i g m"
  obtains (diverge) d' where "m d = (Diverge, d')" "db_rows d' = db_rows d"
  | (error) err d' where "m d = (Ret (Inl err), d')"
      "db_rows d' = db_rows d \<or> meta_view e (db_rows d') = store_update i g (meta_view e (db_rows d))"
  | (ok) x d' where "m d = (Ret (Inr x), d')"
      "meta_view e (db_rows d') = store_update i g (meta_view e (db_rows d))"
proof -
  obtain o' d' where m: "m d = (o', d')" by (cases "m d")
  note post = assms [unfolded view_update_def, rule_format, of d, unfolded m prod.case]
  show thesis
  proof (cases o')
    case (Ret r)
    then show thesis using m post error ok by (cases r) auto
  qed (use m post diverge in auto)
qed

section \<open>Insertion or update\<close>

lemma filter_path_count:
  assumes "table_wf tbl"
  shows "length (filter (\<lambda>(r, row). c_path row = x) tbl) =
    (if find (\<lambda>(r, row). c_path row = x) tbl = None then 0 else 1)"
proof -
  have "distinct (map (c_path \<circ> snd) tbl)" using assms by (simp add: table_wf_def)
  then show ?thesis
  proof (induction tbl)
    case (Cons y tbl)
    show ?case
    proof (cases "c_path (snd y) = x")
      case True
      with Cons.prems have "filter (\<lambda>a. c_path (snd a) = x) tbl = []"
        by (auto simp: filter_empty_conv case_prod_beta image_iff)
      with True show ?thesis by (simp add: case_prod_beta)
    next
      case False
      with Cons show ?thesis by (simp add: case_prod_beta)
    qed
  qed simp
qed

definition set_type :: "string \<Rightarrow> CachedRow \<Rightarrow> CachedRow" where
  "set_type t row = row\<lparr>TypeName := t\<rparr>"

text \<open>The abstract operation: a new row, or the old row with another type.\<close>

definition store_upsert :: "string \<Rightarrow> string \<Rightarrow> u64 \<Rightarrow> store \<Rightarrow> store" where
  "store_upsert p t r v =
     (case v p of None \<Rightarrow> v(p \<mapsto> fresh_row r t) | Some row \<Rightarrow> v(p \<mapsto> set_type t row))"

lemma updateEntryStmt_view:
  assumes "engine_ok e" "table_wf tbl" "t \<in> set typeNames" "clean_abs p" "updateEntryStmt e t p tbl = (x, tbl')"
  shows "x = Inr (Inr (if meta_view e tbl p = None then 0 else 1))"
    and "clean_abs q \<Longrightarrow> meta_view e tbl' q =
      (if q = p then map_option (set_type t) (meta_view e tbl p) else meta_view e tbl q)"
proof -
  let ?f = "\<lambda>row. row\<lparr>c_type := eng_text e t\<rparr>"
  let ?P = "\<lambda>_ row. c_path row = eng_text e p"
  have st: "updateEntryStmt e t p tbl = sql_update ?P ?f tbl" by (simp add: updateEntryStmt_def)
  show "x = Inr (Inr (if meta_view e tbl p = None then 0 else 1))"
    using assms(5) filter_path_count [OF assms(2), of "eng_text e p"]
    by (auto simp: st sql_update_def meta_view_def row_by_path_def)
  assume q: "clean_abs q"
  have "row_by_path e q tbl' =
      map_option (\<lambda>(r, row). (r, if c_path row = eng_text e p then ?f row else row)) (row_by_path e q tbl)"
    using assms(5) row_by_path_sql_update [of ?f e q ?P tbl] by (simp add: st)
  moreover have "c_path row = eng_text e p \<longleftrightarrow> q = p" if "row_by_path e q tbl = Some (r, row)" for r row
    using row_by_path_Some(2) [OF assms(2) that] q assms(1,4) by (simp add: clean_abs_text)
  ultimately show "meta_view e tbl' q =
      (if q = p then map_option (set_type t) (meta_view e tbl p) else meta_view e tbl q)"
    using assms(1,3) by (cases "row_by_path e q tbl")
      (auto simp: meta_view_def view_row_def set_type_def engine_ok_text typeNames_plain)
qed

text \<open>One of the two statements, as the other one finds the table.\<close>

lemma updateEntryStmt_upsert:
  assumes "engine_ok e" "table_wf tbl" "t \<in> set typeNames" "clean_abs p" "updateEntryStmt e t p tbl = (x, tbl')"
  shows "meta_view e tbl p = None \<Longrightarrow> clean_abs q \<Longrightarrow> meta_view e tbl' q = meta_view e tbl q"
    and "meta_view e tbl p = Some row \<Longrightarrow> clean_abs q \<Longrightarrow> meta_view e tbl' q = store_upsert p t 1 (meta_view e tbl) q"
  using updateEntryStmt_view(2) [OF assms, of q] by (simp_all add: store_upsert_def)

lemma putNewEntryStmt_upsert:
  assumes "engine_ok e" "t \<in> set typeNames" "clean_abs p" "putNewEntryStmt e p t tbl = (Inr y, tbl')"
  obtains r where "y = Inr r" "0 < sint r" "\<And>q. clean_abs q \<Longrightarrow> meta_view e tbl' q = store_upsert p t r (meta_view e tbl) q"
proof -
  obtain r where r: "y = Inr r" "0 < sint r" "meta_view e tbl p = None" by (rule putNewEntryStmt_Inr [OF assms(1,4)])
  then show thesis
    using that meta_view_insert [OF assms(1,2) assms(4) [unfolded r(1)] assms(3)] by (simp add: store_upsert_def)
qed

lemma store_upsert_cong: "v p = v' p \<Longrightarrow> v q = v' q \<Longrightarrow> store_upsert p t r v q = store_upsert p t r v' q"
  by (simp add: store_upsert_def split: option.split)

definition upserted :: "engine \<Rightarrow> string \<Rightarrow> string \<Rightarrow> table \<Rightarrow> table \<Rightarrow> bool" where
  "upserted e p t tbl tbl' \<longleftrightarrow>
     (\<exists>r. 0 < sint r \<and> (\<forall>q. clean_abs q \<longrightarrow> meta_view e tbl' q = store_upsert p t r (meta_view e tbl) q))"

definition same_view :: "engine \<Rightarrow> table \<Rightarrow> table \<Rightarrow> bool" where
  "same_view e tbl tbl' \<longleftrightarrow> (\<forall>q. clean_abs q \<longrightarrow> meta_view e tbl' q = meta_view e tbl q)"

lemma upserted_same: "same_view e tbl tbl1 \<Longrightarrow> clean_abs p \<Longrightarrow> upserted e p t tbl1 tbl' \<Longrightarrow> upserted e p t tbl tbl'"
  unfolding upserted_def same_view_def by (metis store_upsert_cong)

lemma upsert_stmts:
  assumes "engine_ok e" "t \<in> set typeNames" "clean_abs p"
  shows "table_wf tbl \<Longrightarrow> updateEntryStmt e t p tbl = (x, tbl') \<Longrightarrow>
      if meta_view e tbl p = None then same_view e tbl tbl' else upserted e p t tbl tbl'"
    and "putNewEntryStmt e p t tbl = (Inr y, tbl') \<Longrightarrow> upserted e p t tbl tbl'"
proof -
  show "if meta_view e tbl p = None then same_view e tbl tbl' else upserted e p t tbl tbl'"
    if "table_wf tbl" "updateEntryStmt e t p tbl = (x, tbl')"
    using updateEntryStmt_upsert [OF assms(1) that(1) assms(2,3) that(2)]
    by (auto simp: same_view_def upserted_def intro!: exI [of _ 1])
  show "upserted e p t tbl tbl'" if "putNewEntryStmt e p t tbl = (Inr y, tbl')"
    using putNewEntryStmt_upsert [OF assms that] unfolding upserted_def by metis
qed

lemma putNewOrUpdate_cases:
  assumes "engine_ok e" "table_wf (db_rows d)" "t \<in> set typeNames" "clean_abs p"
  obtains (diverge) d' where "putNewOrUpdate e p t d = (Diverge, d')" "same_view e (db_rows d) (db_rows d')"
  | (error) err d' where "putNewOrUpdate e p t d = (Ret (Inl err), d')"
      "same_view e (db_rows d) (db_rows d') \<or> upserted e p t (db_rows d) (db_rows d')"
  | (ok) d' where "putNewOrUpdate e p t d = (Ret (Inr ()), d')" "upserted e p t (db_rows d) (db_rows d')"
proof (cases rule: RetryExec_cases [OF atomic_stmts(4), of e e t p d])
  case 1
  then show thesis using diverge by (simp add: putNewOrUpdate_def try_bnd_def bnd_def same_view_def)
next
  case (2 err d')
  have "same_view e (db_rows d) (db_rows d') \<or> upserted e p t (db_rows d) (db_rows d')"
    using 2(2) upsert_stmts(1) [OF assms(1,3,4,2)] by (auto simp: torn_def same_view_def split: if_splits)
  with 2(1) show thesis using error by (simp add: putNewOrUpdate_def try_bnd_def bnd_def)
next
  case (3 x d1)
  note upd = updateEntryStmt_view(1) [OF assms 3(2)] upsert_stmts(1) [OF assms(1,3,4,2) 3(2)]
  show thesis
  proof (cases "meta_view e (db_rows d) p")
    case (Some row)
    with upd 3(1) show thesis by (intro ok [of d1]) (simp_all add: putNewOrUpdate_def try_bnd_def bnd_def)
  next
    case None
    with upd have same: "same_view e (db_rows d) (db_rows d1)" by simp
    note onwards = upserted_same [OF same assms(4)] upsert_stmts(2) [OF assms(1,3,4)]
    have run: "putNewOrUpdate e p t d = try_bnd (RetryExec e (putNewEntryStmt e p t)) (\<lambda>_. ret (Inr ())) d1"
      using upd(1) 3(1) None by (simp add: putNewOrUpdate_def try_bnd_Inr [where m = "RetryExec e (updateEntryStmt e t p)", OF 3(1)])
    show thesis
    proof (cases rule: RetryExec_cases [OF atomic_stmts(3), of e e p t d1])
      case 1
      then show thesis using diverge run same by (simp add: try_bnd_def bnd_def)
    next
      case (2 err d')
      have "same_view e (db_rows d) (db_rows d') \<or> upserted e p t (db_rows d) (db_rows d')"
        using 2(2) same onwards by (auto simp: torn_def)
      with 2(1) show thesis using error run by (simp add: try_bnd_def bnd_def)
    next
      case (3 y d')
      with onwards run show thesis by (intro ok [of d']) (auto simp: try_bnd_def bnd_def)
    qed
  qed
qed

section \<open>Directory entries\<close>

text \<open>Rows that exist are left as they are.\<close>

definition view_le :: "store \<Rightarrow> store \<Rightarrow> bool" where
  "view_le v v' \<longleftrightarrow> (\<forall>q row. clean_abs q \<longrightarrow> v q = Some row \<longrightarrow> v' q = Some row)"

lemma view_le_refl: "view_le v v"
  by (simp add: view_le_def)

lemma view_le_trans: "view_le u v \<Longrightarrow> view_le v w \<Longrightarrow> view_le u w"
  by (simp add: view_le_def)

text \<open>One entry of a listing as it is recorded: its name, the inode of its row and its type.\<close>

definition recorded :: "string \<Rightarrow> store \<Rightarrow> FileInfo \<Rightarrow> string \<times> u64 \<times> string \<Rightarrow> bool" where
  "recorded path v fi x \<longleftrightarrow> (case x of (n, i, t) \<Rightarrow>
     n = Name fi \<and> type_name (Mode fi AND os_ModeType) = Ret t \<and>
     (\<exists>row. v (path_Join path n) = Some row \<and> RowInode row = i))"

lemma recorded_mono:
  "recorded path v fi x \<Longrightarrow> view_le v v' \<Longrightarrow> clean_abs path \<Longrightarrow> valid_name (Name fi) \<Longrightarrow> recorded path v' fi x"
  by (auto simp: recorded_def view_le_def path_Join_clean_abs split: prod.splits)

lemma putOneDirEntry_ok:
  assumes "engine_ok e" "clean_abs path" "valid_name (Name fi)"
    and run: "putOneDirEntry e path fi acc d = (Ret (Inr acc'), d')"
  obtains i t where "acc' = acc @ [formatDirEntry (Name fi) i t]"
    "recorded path (meta_view e (db_rows d')) fi (Name fi, i, t)"
    "view_le (meta_view e (db_rows d)) (meta_view e (db_rows d'))"
proof -
  let ?p = "path_Join path (Name fi)"
  have p: "clean_abs ?p" using assms(2,3) by (rule path_Join_clean_abs)
  obtain t where t: "type_name (Mode fi AND os_ModeType) = Ret t" "t \<in> set entry_types"
    using run by (cases rule: type_name_cases [of "Mode fi AND os_ModeType"])
      (auto simp: putOneDirEntry_def bnd_def sqlTypeName_run Let_def)
  show thesis
  proof (cases rule: QueryRowScan_cases [of e "getInodeStmt e ?p" d])
    case (none d1)
    then have no: "row_by_path e ?p (db_rows d) = None" by (simp add: getInodeStmt_def)
    show thesis
    proof (cases rule: RetryExec_cases [OF atomic_stmts(3), of e e ?p t d1])
      case (3 x d2)
      obtain r where r: "x = Inr r" by (rule putNewEntryStmt_Inr [OF assms(1) 3(2)])
      have view: "meta_view e (db_rows d2) q = ((meta_view e (db_rows d))(?p \<mapsto> fresh_row r t)) q"
        if "clean_abs q" for q
        using meta_view_insert [OF assms(1) entry_types_typeNames [OF t(2)] 3(2) [unfolded r] p that] none(2)
        by simp
      have fin: "acc' = acc @ [formatDirEntry (Name fi) r t]" "d' = d2"
        using run none(1) 3(1) r t by (simp_all add: putOneDirEntry_def Let_def bnd_def try_bnd_def sqlTypeName_run)
      show thesis
      proof (rule that [OF fin(1)])
        show "recorded path (meta_view e (db_rows d')) fi (Name fi, r, t)"
          using view [OF p] t fin by (simp add: recorded_def fresh_row_def)
        show "view_le (meta_view e (db_rows d)) (meta_view e (db_rows d'))"
          using view no fin by (auto simp: view_le_def meta_view_def)
      qed
    qed (use run none(1) t in \<open>simp_all add: putOneDirEntry_def Let_def bnd_def try_bnd_def sqlTypeName_run\<close>)
  next
    case (some i d1)
    then obtain row where row: "row_by_path e ?p (db_rows d) = Some (i, row)" by (auto simp: getInodeStmt_def)
    have fin: "acc' = acc @ [formatDirEntry (Name fi) i t]" "d' = d1"
      using run some(1) t by (simp_all add: putOneDirEntry_def Let_def bnd_def try_bnd_def sqlTypeName_run)
    show thesis
    proof (rule that [OF fin(1)])
      show "recorded path (meta_view e (db_rows d')) fi (Name fi, i, t)"
        using row some(2) t fin by (simp add: recorded_def meta_view_def)
      show "view_le (meta_view e (db_rows d)) (meta_view e (db_rows d'))"
        using some(2) fin by (simp add: view_le_refl)
    qed
  next
    case (error err d1)
    then have "err \<noteq> ErrNoRows" by (auto simp: getInodeStmt_def)
    with error run t show thesis
      by (simp add: putOneDirEntry_def Let_def bnd_def try_bnd_def sqlTypeName_run)
  qed (use run t in \<open>simp_all add: putOneDirEntry_def Let_def bnd_def try_bnd_def sqlTypeName_run\<close>)
qed

lemma for_each_putOneDirEntry_ok:
  assumes "engine_ok e" "clean_abs path" "\<forall>fi \<in> set entries. valid_name (Name fi)"
    and "for_each (putOneDirEntry e path) entries acc d = (Ret (Inr fs), d')"
  shows "\<exists>xs. fs = acc @ map (\<lambda>(n, i, t). formatDirEntry n i t) xs \<and>
    list_all2 (recorded path (meta_view e (db_rows d'))) entries xs \<and>
    view_le (meta_view e (db_rows d)) (meta_view e (db_rows d'))"
  using assms(3,4)
proof (induction entries arbitrary: acc d)
  case Nil
  then show ?case by (intro exI [of _ "[]"]) (simp add: view_le_refl)
next
  case (Cons fi entries)
  from Cons.prems(2) obtain acc1 d1 where
    one: "putOneDirEntry e path fi acc d = (Ret (Inr acc1), d1)"
    and rest: "for_each (putOneDirEntry e path) entries acc1 d1 = (Ret (Inr fs), d')"
    by (auto simp: try_bnd_def bnd_def split: prod.splits outcome.splits sum.splits)
  from Cons.prems(1) have v: "valid_name (Name fi)" by simp
  obtain i t where it: "acc1 = acc @ [formatDirEntry (Name fi) i t]"
    "recorded path (meta_view e (db_rows d1)) fi (Name fi, i, t)"
    "view_le (meta_view e (db_rows d)) (meta_view e (db_rows d1))"
    by (rule putOneDirEntry_ok [OF assms(1,2) v one])
  from Cons.IH [OF _ rest] Cons.prems(1) obtain xs where
    xs: "fs = acc1 @ map (\<lambda>(n, i, t). formatDirEntry n i t) xs"
    "list_all2 (recorded path (meta_view e (db_rows d'))) entries xs"
    "view_le (meta_view e (db_rows d1)) (meta_view e (db_rows d'))"
    by auto
  have "recorded path (meta_view e (db_rows d')) fi (Name fi, i, t)"
    using recorded_mono [OF it(2) xs(3) assms(2) v] .
  with it xs show ?case
    by (intro exI [of _ "(Name fi, i, t) # xs"]) (auto intro: view_le_trans)
qed

lemma recorded_names: "list_all2 (recorded path v) entries xs \<Longrightarrow> map fst xs = map Name entries"
  by (induction rule: list_all2_induct) (auto simp: recorded_def split: prod.splits)

lemma recorded_good:
  assumes "list_all2 (recorded path v) entries xs" "\<forall>fi \<in> set entries. sep_free (Name fi)"
  shows "good_entries xs"
  using assms
proof (induction rule: list_all2_induct)
  case (Cons fi fis x xs)
  obtain n i t where x: "x = (n, i, t)" by (cases x)
  with Cons show ?case
    by (auto simp: good_entries_def recorded_def entry_types_typeNames type_name_Ret)
qed (simp add: good_entries_def)

text \<open>
  A successful \<^verbatim>\<open>PutDirEntries\<close> records, in the row of the directory, one entry per listed file with
  the inode of that file's own row, and creates the rows that were missing.
\<close>

lemma PutDirEntries_ok:
  assumes "engine_ok e" "clean_abs path" "\<forall>fi \<in> set entries. valid_name (Name fi) \<and> sep_free (Name fi)"
    and "distinct (map Name entries)"
    and run: "PutDirEntries e i path entries d = (Ret (Inr ()), d')"
  obtains v xs where "list_all2 (recorded path v) entries xs"
    "view_le (meta_view e (db_rows d)) v"
    "meta_view e (db_rows d') = store_update i (set_entries (map (\<lambda>(n, j, t). (n, entry_of j t)) xs)) v"
proof -
  let ?loop = "for_each (putOneDirEntry e path) entries []"
  from run obtain fs d1 where loop: "?loop d = (Ret (Inr fs), d1)"
    and rest: "try_bnd (RetryExec e (putDirEntriesStmt e (join_with dirEntrySeparator fs) i))
        checkUpdateAffectedOneRow d1 = (Ret (Inr ()), d')"
    by (auto simp: PutDirEntries_def try_bnd_def [of "for_each _ _ _"] bnd_def
      split: prod.splits outcome.splits sum.splits)
  from for_each_putOneDirEntry_ok [OF assms(1,2) _ loop] assms(3) obtain xs where
    xs: "fs = map (\<lambda>(n, i, t). formatDirEntry n i t) xs"
    "list_all2 (recorded path (meta_view e (db_rows d1))) entries xs"
    "view_le (meta_view e (db_rows d)) (meta_view e (db_rows d1))"
    by auto
  have "meta_view e (db_rows d') = store_update i
      (set_entries (decode_entries (eng_text e (join_with dirEntrySeparator fs)))) (meta_view e (db_rows d1))"
    by (rule exec_check_cases [where e = e and d = d1, OF atomic_stmts(8)
          putDirEntriesStmt_view [of e "join_with dirEntrySeparator fs" i]])
       (use rest in auto)
  moreover have "decode_entries (eng_text e (join_with dirEntrySeparator fs)) =
      map (\<lambda>(n, j, t). (n, entry_of j t)) xs"
  proof -
    have "join_with dirEntrySeparator fs = format_entries xs" by (simp add: xs(1) format_entries_def)
    moreover have "good_entries xs" using recorded_good [OF xs(2)] assms(3) by simp
    moreover have "distinct (map fst ([] :: dirmap) @ map fst xs)"
      using recorded_names [OF xs(2)] assms(4) by simp
    ultimately show ?thesis
      using assms(1)
      by (simp add: decode_entries_def engine_ok_text plain_format_entries parse_format_entries
          fold_add_entry_distinct del: append_Nil list.map(1))
  qed
  ultimately show thesis using that xs by simp
qed

lemma sql_uint64_positive: "0 < sint i \<Longrightarrow> sql_uint64 i = Inr i"
  for i :: u64
proof -
  assume "0 < sint i"
  moreover have "sint i < 2 ^ 63" using sint_lt [of i] by simp
  ultimately have "take_bit 64 (sint i) = sint i" by (intro take_bit_int_eq_self) auto
  then have "uint i < 2 ^ 63" using \<open>sint i < 2 ^ 63\<close> uint_sint [of i] by simp
  then have "nat (uint i) < nat (2 ^ 63)" by (subst nat_less_eq_zless) simp_all
  then show ?thesis by (simp add: sql_uint64_def)
qed

lemma GetDirEntries_cases:
  assumes "table_ok (db_rows d)" "map_of (db_rows d) i = Some row" "c_dirEntries row = Some s"
  obtains (diverge) d' where "GetDirEntries e i [] d = (Diverge, d')" "db_rows d' = db_rows d"
  | (error) c d' where "GetDirEntries e i [] d = (Ret (Inl (SqliteError c), []), d')" "db_rows d' = db_rows d"
  | (ok) d' where "GetDirEntries e i [] d = (Ret (Inr (), decode_entries s), d')" "db_rows d' = db_rows d"
proof -
  have "0 < sint i" "decodes s"
    using assms by (auto simp: table_ok_def table_wf_def list_all_iff entries_ok_def dest!: map_of_SomeD)
  then have q: "getDirEntriesStmt i (db_rows d) = Inr (Some (Some s))"
    using assms(2,3) by (simp add: getDirEntriesStmt_def sql_uint64_positive)
  show thesis
    by (cases rule: QueryRowScan_cases [of e "getDirEntriesStmt i" d])
       (use q that \<open>decodes s\<close> in \<open>auto simp: GetDirEntries_def bnd_def run_on_def decodes_parse\<close>)
qed

section \<open>Inodes and paths\<close>

lemma meta_view_inode:
  assumes "table_wf tbl" "meta_view e tbl p = Some row"
  obtains r where "RowInode row = r" "0 < sint r" "map_of tbl r = Some (snd (the (row_by_path e p tbl)))"
    "view_row p (the (row_by_path e p tbl)) = row" "c_path (snd (the (row_by_path e p tbl))) = eng_text e p"
  using assms row_by_path_Some [OF assms(1), of e p] by (fastforce simp: meta_view_def)

lemma meta_view_inode_inj:
  assumes "engine_ok e" "table_wf tbl" "clean_abs p" "clean_abs q"
    and "meta_view e tbl p = Some row" "meta_view e tbl q = Some row'" "RowInode row = RowInode row'"
  shows "p = q"
proof -
  obtain x y where "row_by_path e p tbl = Some x" "row_by_path e q tbl = Some y" "fst x = fst y"
    using assms(5-7) by (auto simp: meta_view_def)
  then have "eng_text e p = eng_text e q"
    using row_by_path_Some(1,2) [OF assms(2)] by (metis option.inject prod.collapse)
  then show ?thesis using assms(1,3,4) by (simp add: clean_abs_text)
qed

section \<open>What the file system relies on\<close>

text \<open>
  The contract of the metadata cache as the file system uses it: \<open>view\<close> is what is stored, \<open>live\<close>
  says that the database answers.
\<close>

locale metadata_store =
  fixes view :: "'s \<Rightarrow> store"
    and invar :: "'s \<Rightarrow> bool"
    and live :: bool
    and stored_as :: "string \<Rightarrow> string"
    and get :: "string \<Rightarrow> ('s, CachedRow option result) prog"
    and put_info :: "u64 \<Rightarrow> FileInfo \<Rightarrow> ('s, unit result) prog"
    and put_hash :: "u64 \<Rightarrow> Key \<Rightarrow> ('s, unit result) prog"
    and put_target :: "u64 \<Rightarrow> string \<Rightarrow> ('s, unit result) prog"
  assumes get_view: "invar s \<Longrightarrow> get p s = (Ret (Inr r), s') \<Longrightarrow> r = view s p \<and> view s' = view s"
    and put_info_view: "invar s \<Longrightarrow> put_info i fi s = (Ret (Inr ()), s') \<Longrightarrow>
      view s' = store_update i (set_info fi) (view s)"
    and put_hash_view: "invar s \<Longrightarrow> put_hash i k s = (Ret (Inr ()), s') \<Longrightarrow>
      view s' = store_update i (set_hash (stored_as k)) (view s)"
    and put_target_view: "invar s \<Longrightarrow> put_target i tgt s = (Ret (Inr ()), s') \<Longrightarrow>
      view s' = store_update i (set_target (stored_as tgt)) (view s)"
    and keeps_invar: "keeps invar (put_info i fi)" "keeps invar (put_hash i k)"
      "keeps invar (put_target i tgt)" "keeps invar (get p)"
    and get_live: "live \<Longrightarrow> invar s \<Longrightarrow> \<exists>r s'. get p s = (Ret (Inr r), s')"
    and put_live: "live \<Longrightarrow> invar s \<Longrightarrow> view s p = Some row \<Longrightarrow>
      (\<exists>s'. put_info (RowInode row) fi s = (Ret (Inr ()), s')) \<and>
      (\<exists>s'. put_hash (RowInode row) k s = (Ret (Inr ()), s')) \<and>
      (\<exists>s'. put_target (RowInode row) tgt s = (Ret (Inr ()), s'))"
begin

lemma put_then_get:
  assumes "live" "invar s" "view s p = Some row"
    and put: "\<exists>s1. put s = (Ret (Inr ()), s1)" and "keeps invar put"
    and eff: "\<And>s1. put s = (Ret (Inr ()), s1) \<Longrightarrow> view s1 = store_update (RowInode row) f (view s)"
  shows "\<exists>s1 s2. put s = (Ret (Inr ()), s1) \<and> get p s1 = (Ret (Inr (Some (f p row))), s2)"
proof -
  obtain s1 where s1: "put s = (Ret (Inr ()), s1)" using put by blast
  then have "invar s1" using keepsD_run [OF assms(5,2)] by blast
  then obtain r s2 where r: "get p s1 = (Ret (Inr r), s2)" using get_live [OF assms(1)] by blast
  have "r = view s1 p" using get_view [OF \<open>invar s1\<close> r] by simp
  also have "\<dots> = Some (f p row)" using eff [OF s1] assms(3) by (simp add: store_update_def)
  finally show ?thesis using s1 r by blast
qed

lemma info_round_trip:
  assumes "live" "invar s" "view s p = Some row"
  shows "\<exists>s1 s2. put_info (RowInode row) fi s = (Ret (Inr ()), s1) \<and>
    get p s1 = (Ret (Inr (Some (set_info fi p row))), s2)"
  using assms put_live [OF assms] keeps_invar(1) put_info_view [OF assms(2)] by (intro put_then_get) auto

lemma hash_round_trip:
  assumes "live" "invar s" "view s p = Some row"
  shows "\<exists>s1 s2. put_hash (RowInode row) k s = (Ret (Inr ()), s1) \<and>
    get p s1 = (Ret (Inr (Some (set_hash (stored_as k) p row))), s2)"
  using assms put_live [OF assms] keeps_invar(2) put_hash_view [OF assms(2)] by (intro put_then_get) auto

lemma target_round_trip:
  assumes "live" "invar s" "view s p = Some row"
  shows "\<exists>s1 s2. put_target (RowInode row) tgt s = (Ret (Inr ()), s1) \<and>
    get p s1 = (Ret (Inr (Some (set_target (stored_as tgt) p row))), s2)"
  using assms put_live [OF assms] keeps_invar(3) put_target_view [OF assms(2)] by (intro put_then_get) auto

end

lemma quiet_inode_update:
  assumes "quiet e" "0 < sint i"
  shows "\<exists>d'. try_bnd (RetryExec e (sql_update_inode i f)) checkUpdateAffectedOneRow d = (Ret (Inr ()), d')"
proof -
  obtain n tbl' where "sql_update_inode i f (db_rows d) = (Inr (Inr n), tbl')"
    using assms(2) by (simp add: sql_update_inode_def sql_uint64_positive sql_update_def)
  then have run: "RetryExec e (sql_update_inode i f) d = (Ret (Inr (Inr n)), (tick d)\<lparr>db_rows := tbl'\<rparr>)"
    using assms(1) by (simp add: quiet_RetryExec)
  show ?thesis
    by (simp add: try_bnd_def bnd_def run checkUpdateAffectedOneRow_def)
qed

lemma quiet_puts:
  assumes "quiet e" "table_wf (db_rows d)" "meta_view e (db_rows d) p = Some row"
  shows "\<exists>d'. PutFileInfo e (RowInode row) fi d = (Ret (Inr ()), d')"
    "\<exists>d'. PutContentHash e (RowInode row) k d = (Ret (Inr ()), d')"
    "\<exists>d'. PutSymlinkTarget e (RowInode row) tgt d = (Ret (Inr ()), d')"
proof -
  have "0 < sint (RowInode row)" using meta_view_inode [OF assms(2,3)] by blast
  note live = quiet_inode_update [OF assms(1) this]
  show "\<exists>d'. PutFileInfo e (RowInode row) fi d = (Ret (Inr ()), d')"
    "\<exists>d'. PutContentHash e (RowInode row) k d = (Ret (Inr ()), d')"
    "\<exists>d'. PutSymlinkTarget e (RowInode row) tgt d = (Ret (Inr ()), d')"
    unfolding PutFileInfo_def PutContentHash_def PutSymlinkTarget_def inode_stmt_defs by (rule live)+
qed

lemma quiet_GetFullEntry:
  assumes "quiet e" "table_ok (db_rows d)"
  shows "GetFullEntry e p d = (Ret (Inr (meta_view e (db_rows d) p)), tick d)"
proof (cases "row_by_path e p (db_rows d)")
  case None
  then show ?thesis
    using quiet_QueryRowScan [OF assms(1), of "getFullEntryStmt e p" d None]
    by (simp add: GetFullEntry_def bnd_def getFullEntryStmt_def meta_view_def)
next
  case (Some rr)
  obtain r row where rr: "rr = (r, row)" by (cases rr)
  from row_by_path_ok [OF assms(2) Some [unfolded rr]] show ?thesis
    using quiet_QueryRowScan [OF assms(1), of "getFullEntryStmt e p" d "Some rr"] Some
    by (simp add: rr GetFullEntry_def bnd_def try_bnd_def getFullEntryStmt_def meta_view_def
        rowFileInfo_wf rowDirEntries_ok view_row_def)
qed

lemma quiet_putNew:
  assumes "quiet e" "engine_ok e" "t \<in> set typeNames" "clean_abs p" "meta_view e (db_rows d) p = None"
    and "eng_rowid e (map fst (db_rows d)) = Some r"
  obtains d' where "putNew e p t d = (Ret (Inr r), d')"
    "\<And>q. clean_abs q \<Longrightarrow> meta_view e (db_rows d') q = ((meta_view e (db_rows d))(p \<mapsto> fresh_row r t)) q"
proof -
  have st: "putNewEntryStmt e p t (db_rows d) = (Inr (Inr r), db_rows d @ [(r, new_row e p t)])"
    using assms(5,6) by (simp add: putNewEntryStmt_def meta_view_def)
  let ?d' = "(tick d)\<lparr>db_rows := db_rows d @ [(r, new_row e p t)]\<rparr>"
  have "RetryExec e (putNewEntryStmt e p t) d = (Ret (Inr (Inr r)), ?d')"
    by (rule quiet_RetryExec [where st = "putNewEntryStmt e p t" and d = d, OF assms(1) st]) simp
  moreover have "0 < sint r" using engine_ok_rowid [OF assms(2,6)] by simp
  ultimately have "putNew e p t d = (Ret (Inr r), ?d')"
    by (simp add: putNew_def try_bnd_def bnd_def resultToInode_def)
  then show thesis using that meta_view_insert [OF assms(2,3) st assms(4)] by simp
qed

interpretation ms: metadata_store "\<lambda>d. meta_view e (db_rows d)" "\<lambda>d. engine_ok e \<and> table_ok (db_rows d)"
  "quiet e" "eng_text e" "GetFullEntry e" "PutFileInfo e" "PutContentHash e" "PutSymlinkTarget e" for e
proof unfold_locales
  fix d :: metadb and p r d'
  assume "engine_ok e \<and> table_ok (db_rows d)" "GetFullEntry e p d = (Ret (Inr r), d')"
  then have run: "table_ok (db_rows d)" "GetFullEntry e p d = (Ret (Inr r), d')" by auto
  show "r = meta_view e (db_rows d) p \<and> meta_view e (db_rows d') = meta_view e (db_rows d)"
    by (rule GetFullEntry_cases [OF run(1), of e p]) (use run(2) in simp_all)
next
  show "keeps (\<lambda>d. engine_ok e \<and> table_ok (db_rows d)) (PutFileInfo e i fi)" for i fi
    by (rule ok.keeps_PutFileInfo)
  show "keeps (\<lambda>d. engine_ok e \<and> table_ok (db_rows d)) (PutContentHash e i k)" for i k
    by (rule ok.keeps_PutContentHash)
  show "keeps (\<lambda>d. engine_ok e \<and> table_ok (db_rows d)) (PutSymlinkTarget e i tgt)" for i tgt
    by (rule ok.keeps_PutSymlinkTarget)
  show "keeps (\<lambda>d. engine_ok e \<and> table_ok (db_rows d)) (GetFullEntry e p)" for p
    by (rule ok.keeps_GetFullEntry)
qed (auto simp: table_ok_def quiet_puts quiet_GetFullEntry dest: view_updateD [OF view_update_puts(1)]
    view_updateD [OF view_update_puts(2)] view_updateD [OF view_update_puts(3)])

end
