(* ===== verification/Stats.thy ===== *)
theory Stats
  imports Prelude
begin

text \<open>
  The statistics of \<^verbatim>\<open>internal/stats/stats.go\<close>: counters per kernel operation and domain, bytes read
  per domain, and cache hits, misses and direct accesses per FUSE operation. The maps of the Go
  struct hold pointers that are created once, one per key, so a map to counter values represents
  them. Every counter is an unsigned 64-bit word and every update is one atomic addition.
\<close>

section \<open>Data\<close>

datatype OsOp =
    CloseOsOp | LstatOsOp | MkdirOsOp | OpenOsOp | ReadOsOp | ReaddirOsOp | ReadlinkOsOp
  | RemoveOsOp | RenameOsOp

definition allOsOps :: "OsOp list" where
  "allOsOps = [CloseOsOp, LstatOsOp, MkdirOsOp, OpenOsOp, ReadOsOp, ReaddirOsOp, ReadlinkOsOp,
     RemoveOsOp, RenameOsOp]"

datatype OpDomain = LocalDomain | RemoteDomain

definition allDomains :: "OpDomain list" where
  "allDomains = [LocalDomain, RemoteDomain]"

record PerOsOpStats =
  LocalCount :: u64
  RemoteCount :: u64

datatype FuseOp = AttrFuseOp | LookupFuseOp | OpenFuseOp | ReadFuseOp | ReaddirFuseOp | ReadlinkFuseOp

definition allFuseOps :: "FuseOp list" where
  "allFuseOps = [AttrFuseOp, LookupFuseOp, OpenFuseOp, ReadFuseOp, ReaddirFuseOp, ReadlinkFuseOp]"

record PerFuseOpStats =
  CacheHits :: u64
  CacheMisses :: u64
  Direct :: u64

record Stats =
  osOpStats :: "OsOp \<rightharpoonup> PerOsOpStats"
  readStats :: "OpDomain \<rightharpoonup> u64"
  fuseOpStats :: "FuseOp \<rightharpoonup> PerFuseOpStats"

section \<open>Operations\<close>

definition NewStats :: Stats where
  "NewStats =
     \<lparr>osOpStats = fold (\<lambda>op m. m(op \<mapsto> \<lparr>LocalCount = 0, RemoteCount = 0\<rparr>)) allOsOps Map.empty,
      readStats = fold (\<lambda>d m. m(d \<mapsto> 0)) allDomains Map.empty,
      fuseOpStats = fold (\<lambda>op m. m(op \<mapsto> \<lparr>CacheHits = 0, CacheMisses = 0, Direct = 0\<rparr>))
        allFuseOps Map.empty\<rparr>"

text \<open>Reading a missing key yields a nil pointer, and storing through it panics.\<close>

definition clearOsOp :: "OsOp \<Rightarrow> (Stats, unit) prog" where
  "clearOsOp op = bnd (gets osOpStats) (\<lambda>m. case m op of
       None \<Rightarrow> panic ''nil pointer dereference''
     | Some _ \<Rightarrow> modify (\<lambda>s. s\<lparr>osOpStats := m(op \<mapsto> \<lparr>LocalCount = 0, RemoteCount = 0\<rparr>)\<rparr>))"

definition clearRead :: "OpDomain \<Rightarrow> (Stats, unit) prog" where
  "clearRead d = bnd (gets readStats) (\<lambda>m. case m d of
       None \<Rightarrow> panic ''nil pointer dereference''
     | Some _ \<Rightarrow> modify (\<lambda>s. s\<lparr>readStats := m(d \<mapsto> 0)\<rparr>))"

definition clearFuseOp :: "FuseOp \<Rightarrow> (Stats, unit) prog" where
  "clearFuseOp op = bnd (gets fuseOpStats) (\<lambda>m. case m op of
       None \<Rightarrow> panic ''nil pointer dereference''
     | Some _ \<Rightarrow> modify (\<lambda>s. s\<lparr>fuseOpStats :=
         m(op \<mapsto> \<lparr>CacheHits = 0, CacheMisses = 0, Direct = 0\<rparr>)\<rparr>))"

definition Clear :: "(Stats, unit) prog" where
  "Clear =
     bnd (for_do clearOsOp allOsOps) (\<lambda>_.
     bnd (for_do clearRead allDomains) (\<lambda>_.
     for_do clearFuseOp allFuseOps))"

definition getPerOsOpStats :: "OsOp \<Rightarrow> (Stats, PerOsOpStats) prog" where
  "getPerOsOpStats op = bnd (gets osOpStats) (\<lambda>m. case m op of
       None \<Rightarrow> panic ''OS operation not previously registered in map''
     | Some opStats \<Rightarrow> ret opStats)"

definition getPerFuseOpStats :: "FuseOp \<Rightarrow> (Stats, PerFuseOpStats) prog" where
  "getPerFuseOpStats op = bnd (gets fuseOpStats) (\<lambda>m. case m op of
       None \<Rightarrow> panic ''Fuse operation not previously registered in map''
     | Some opStats \<Rightarrow> ret opStats)"

definition AccountOsOp :: "OpDomain \<Rightarrow> OsOp \<Rightarrow> (Stats, unit) prog" where
  "AccountOsOp domain op = bnd (getPerOsOpStats op) (\<lambda>opStats.
     let opStats' = (case domain of
           LocalDomain \<Rightarrow> opStats\<lparr>LocalCount := LocalCount opStats + 1\<rparr>
         | RemoteDomain \<Rightarrow> opStats\<lparr>RemoteCount := RemoteCount opStats + 1\<rparr>)
     in modify (\<lambda>s. s\<lparr>osOpStats := (osOpStats s)(op \<mapsto> opStats')\<rparr>))"

definition AccountReadBytes :: "OpDomain \<Rightarrow> int64 \<Rightarrow> (Stats, unit) prog" where
  "AccountReadBytes domain bytes = bnd (gets readStats) (\<lambda>m. case m domain of
       None \<Rightarrow> panic ''Unknown domain''
     | Some n \<Rightarrow> modify (\<lambda>s. s\<lparr>readStats := m(domain \<mapsto> n + bytes)\<rparr>))"

definition AccountCacheHit :: "FuseOp \<Rightarrow> (Stats, unit) prog" where
  "AccountCacheHit op = bnd (getPerFuseOpStats op) (\<lambda>opStats.
     modify (\<lambda>s. s\<lparr>fuseOpStats :=
       (fuseOpStats s)(op \<mapsto> opStats\<lparr>CacheHits := CacheHits opStats + 1\<rparr>)\<rparr>))"

definition AccountCacheMiss :: "FuseOp \<Rightarrow> (Stats, unit) prog" where
  "AccountCacheMiss op = bnd (getPerFuseOpStats op) (\<lambda>opStats.
     modify (\<lambda>s. s\<lparr>fuseOpStats :=
       (fuseOpStats s)(op \<mapsto> opStats\<lparr>CacheMisses := CacheMisses opStats + 1\<rparr>)\<rparr>))"

definition AccountDirect :: "FuseOp \<Rightarrow> (Stats, unit) prog" where
  "AccountDirect op = bnd (getPerFuseOpStats op) (\<lambda>opStats.
     modify (\<lambda>s. s\<lparr>fuseOpStats :=
       (fuseOpStats s)(op \<mapsto> opStats\<lparr>Direct := Direct opStats + 1\<rparr>)\<rparr>))"

definition GetOsOpStats :: "Stats \<Rightarrow> (OsOp \<rightharpoonup> PerOsOpStats)" where
  "GetOsOpStats stats = (\<lambda>op. map_option
     (\<lambda>data. \<lparr>LocalCount = LocalCount data, RemoteCount = RemoteCount data\<rparr>) (osOpStats stats op))"

definition GetReadStats :: "Stats \<Rightarrow> (OpDomain \<rightharpoonup> u64)" where
  "GetReadStats stats = (\<lambda>domain. map_option (\<lambda>n. n) (readStats stats domain))"

definition GetFuseOpStats :: "Stats \<Rightarrow> (FuseOp \<rightharpoonup> PerFuseOpStats)" where
  "GetFuseOpStats stats = (\<lambda>op. map_option
     (\<lambda>data. \<lparr>CacheHits = CacheHits data, CacheMisses = CacheMisses data, Direct = Direct data\<rparr>)
     (fuseOpStats stats op))"

section \<open>The updater interface as events, the retriever interface as counters\<close>

text \<open>
  \<^verbatim>\<open>OsStatsUpdater\<close> and \<^verbatim>\<open>FuseStatsUpdater\<close> offer five ways to report an event; \<^verbatim>\<open>Retriever\<close>
  offers the counters.
\<close>

datatype stats_event =
    EvOsOp OpDomain OsOp
  | EvReadBytes OpDomain int64
  | EvCacheHit FuseOp
  | EvCacheMiss FuseOp
  | EvDirect FuseOp

fun account :: "stats_event \<Rightarrow> (Stats, unit) prog" where
  "account (EvOsOp d op) = AccountOsOp d op"
| "account (EvReadBytes d n) = AccountReadBytes d n"
| "account (EvCacheHit op) = AccountCacheHit op"
| "account (EvCacheMiss op) = AccountCacheMiss op"
| "account (EvDirect op) = AccountDirect op"

datatype counter =
    COsOp OpDomain OsOp
  | CReadBytes OpDomain
  | CHits FuseOp
  | CMisses FuseOp
  | CDirect FuseOp

text \<open>A key that is missing from a Go map reads as the zero value.\<close>

fun counter_value :: "counter \<Rightarrow> Stats \<Rightarrow> u64" where
  "counter_value (COsOp d op) s = (case GetOsOpStats s op of None \<Rightarrow> 0
     | Some c \<Rightarrow> (case d of LocalDomain \<Rightarrow> LocalCount c | RemoteDomain \<Rightarrow> RemoteCount c))"
| "counter_value (CReadBytes d) s = (case GetReadStats s d of None \<Rightarrow> 0 | Some n \<Rightarrow> n)"
| "counter_value (CHits op) s = (case GetFuseOpStats s op of None \<Rightarrow> 0 | Some c \<Rightarrow> CacheHits c)"
| "counter_value (CMisses op) s = (case GetFuseOpStats s op of None \<Rightarrow> 0 | Some c \<Rightarrow> CacheMisses c)"
| "counter_value (CDirect op) s = (case GetFuseOpStats s op of None \<Rightarrow> 0 | Some c \<Rightarrow> Direct c)"

fun event_amount :: "stats_event \<Rightarrow> counter \<Rightarrow> u64" where
  "event_amount (EvOsOp d op) k = (if k = COsOp d op then 1 else 0)"
| "event_amount (EvReadBytes d n) k = (if k = CReadBytes d then n else 0)"
| "event_amount (EvCacheHit op) k = (if k = CHits op then 1 else 0)"
| "event_amount (EvCacheMiss op) k = (if k = CMisses op then 1 else 0)"
| "event_amount (EvDirect op) k = (if k = CDirect op then 1 else 0)"

section \<open>Well-formedness: every key is registered\<close>

definition stats_wf :: "Stats \<Rightarrow> bool" where
  "stats_wf s \<longleftrightarrow> list_all (\<lambda>op. osOpStats s op \<noteq> None) allOsOps \<and>
     list_all (\<lambda>d. readStats s d \<noteq> None) allDomains \<and>
     list_all (\<lambda>op. fuseOpStats s op \<noteq> None) allFuseOps"

section \<open>Operations and domains are finite\<close>

text \<open>
  The lists of all operations and domains hold every value once, so that the types are enumerable and what is
  said of every operation can be evaluated.
\<close>

lemma allOsOps_listed: "distinct allOsOps" "set allOsOps = UNIV"
  using OsOp.exhaust by (auto simp: allOsOps_def)

lemma allDomains_listed: "distinct allDomains" "set allDomains = UNIV"
  using OpDomain.exhaust by (auto simp: allDomains_def)

lemma allFuseOps_listed: "distinct allFuseOps" "set allFuseOps = UNIV"
  using FuseOp.exhaust by (auto simp: allFuseOps_def)

lemmas all_listed = allOsOps_listed allDomains_listed allFuseOps_listed

instantiation OsOp :: enum
begin

definition enum_OsOp :: "OsOp list" where
  "enum_OsOp = allOsOps"

definition enum_all_OsOp :: "(OsOp \<Rightarrow> bool) \<Rightarrow> bool" where
  "enum_all_OsOp P = list_all P allOsOps"

definition enum_ex_OsOp :: "(OsOp \<Rightarrow> bool) \<Rightarrow> bool" where
  "enum_ex_OsOp P = list_ex P allOsOps"

instance
  by standard
     (simp_all add: enum_OsOp_def enum_all_OsOp_def enum_ex_OsOp_def allOsOps_listed list_all_iff list_ex_iff)

end

instantiation OpDomain :: enum
begin

definition enum_OpDomain :: "OpDomain list" where
  "enum_OpDomain = allDomains"

definition enum_all_OpDomain :: "(OpDomain \<Rightarrow> bool) \<Rightarrow> bool" where
  "enum_all_OpDomain P = list_all P allDomains"

definition enum_ex_OpDomain :: "(OpDomain \<Rightarrow> bool) \<Rightarrow> bool" where
  "enum_ex_OpDomain P = list_ex P allDomains"

instance
  by standard
     (simp_all add: enum_OpDomain_def enum_all_OpDomain_def enum_ex_OpDomain_def allDomains_listed list_all_iff list_ex_iff)

end

instantiation FuseOp :: enum
begin

definition enum_FuseOp :: "FuseOp list" where
  "enum_FuseOp = allFuseOps"

definition enum_all_FuseOp :: "(FuseOp \<Rightarrow> bool) \<Rightarrow> bool" where
  "enum_all_FuseOp P = list_all P allFuseOps"

definition enum_ex_FuseOp :: "(FuseOp \<Rightarrow> bool) \<Rightarrow> bool" where
  "enum_ex_FuseOp P = list_ex P allFuseOps"

instance
  by standard
     (simp_all add: enum_FuseOp_def enum_all_FuseOp_def enum_ex_FuseOp_def allFuseOps_listed list_all_iff list_ex_iff)

end

lemma all_ops_complete [simp]: "op \<in> set allOsOps" "d \<in> set allDomains" "f \<in> set allFuseOps"
  by (simp_all add: all_listed)

lemma stats_wf_iff:
  "stats_wf s \<longleftrightarrow> (\<forall>op. osOpStats s op \<noteq> None) \<and> (\<forall>d. readStats s d \<noteq> None) \<and>
     (\<forall>op. fuseOpStats s op \<noteq> None)"
  by (auto simp: stats_wf_def list_all_iff)

lemma fold_register: "fold (\<lambda>k m. m(k \<mapsto> v)) ks m0 = (\<lambda>k. if k \<in> set ks then Some v else m0 k)"
  by (induction ks arbitrary: m0) auto

lemma NewStats_fields:
  "osOpStats NewStats = (\<lambda>_. Some \<lparr>LocalCount = 0, RemoteCount = 0\<rparr>)"
  "readStats NewStats = (\<lambda>_. Some 0)"
  "fuseOpStats NewStats = (\<lambda>_. Some \<lparr>CacheHits = 0, CacheMisses = 0, Direct = 0\<rparr>)"
  by (simp_all add: NewStats_def fold_register fun_eq_iff)

lemma stats_wf_New: "stats_wf NewStats"
  by (simp add: stats_wf_iff NewStats_fields)

lemmas account_defs = AccountOsOp_def AccountReadBytes_def AccountCacheHit_def
  AccountCacheMiss_def AccountDirect_def getPerOsOpStats_def getPerFuseOpStats_def

lemmas retriever_defs = GetOsOpStats_def GetReadStats_def GetFuseOpStats_def

text \<open>On a well-formed object every report returns, keeps the object well-formed and adds exactly
  its amount to each counter.\<close>

lemma stats_wf_cases:
  assumes "stats_wf s"
  obtains f g h where "s = \<lparr>osOpStats = (\<lambda>op. Some (f op)), readStats = (\<lambda>d. Some (g d)),
    fuseOpStats = (\<lambda>op. Some (h op))\<rparr>"
proof -
  from assms obtain f g h where "\<forall>op. osOpStats s op = Some (f op)"
    "\<forall>d. readStats s d = Some (g d)" "\<forall>op. fuseOpStats s op = Some (h op)"
    by (fastforce simp: stats_wf_iff dest: choice)
  then have "s = \<lparr>osOpStats = (\<lambda>op. Some (f op)), readStats = (\<lambda>d. Some (g d)),
    fuseOpStats = (\<lambda>op. Some (h op))\<rparr>"
    by (cases s) (simp add: fun_eq_iff)
  then show thesis by (rule that)
qed

lemma account_returns: "stats_wf s \<Longrightarrow> fst (account e s) = Ret ()"
  by (erule stats_wf_cases, cases e) (simp_all add: account_defs)

lemma account_wf: "stats_wf s \<Longrightarrow> stats_wf (snd (account e s))"
  by (erule stats_wf_cases, cases e) (simp_all add: account_defs stats_wf_iff)

lemma account_counter:
  "stats_wf s \<Longrightarrow> counter_value k (snd (account e s)) = counter_value k s + event_amount e k"
  by (erule stats_wf_cases, cases e; cases k)
     (auto simp: account_defs retriever_defs split: OpDomain.splits)

lemma keeps_account [keeps_rules]:
  "keeps stats_wf (AccountOsOp d op)" "keeps stats_wf (AccountReadBytes d n)"
  "keeps stats_wf (AccountCacheHit f)" "keeps stats_wf (AccountCacheMiss f)"
  "keeps stats_wf (AccountDirect f)"
  using account_wf [of _ "EvOsOp d op"] account_wf [of _ "EvReadBytes d n"]
    account_wf [of _ "EvCacheHit f"] account_wf [of _ "EvCacheMiss f"] account_wf [of _ "EvDirect f"]
  by (auto intro: keepsI)

section \<open>The contract of the statistics interfaces\<close>

text \<open>
  What every client of \<^verbatim>\<open>stats.Updater\<close> and \<^verbatim>\<open>stats.Retriever\<close> relies on: a report returns and adds
  its amount to the counters it concerns, whatever the other counters hold.
\<close>

locale stats_interface =
  fixes report :: "'e \<Rightarrow> ('s, unit) prog"
    and counter_of :: "'k \<Rightarrow> 's \<Rightarrow> 'c :: comm_monoid_add"
    and amount :: "'e \<Rightarrow> 'k \<Rightarrow> 'c"
    and invar :: "'s \<Rightarrow> bool"
  assumes report_returns: "invar s \<Longrightarrow> fst (report e s) = Ret ()"
    and report_invar: "invar s \<Longrightarrow> invar (snd (report e s))"
    and report_counter: "invar s \<Longrightarrow> counter_of k (snd (report e s)) = counter_of k s + amount e k"
begin

lemma report_run: "invar s \<Longrightarrow> report e s = (Ret (), snd (report e s))"
  using report_returns [of s e] by (cases "report e s") simp

lemma reports_run:
  "invar s \<Longrightarrow> for_do report es s = (Ret (), fold (\<lambda>e s. snd (report e s)) es s)"
  by (rule for_do_Ret [where I = invar]) (auto simp: report_invar report_run [symmetric])

lemma reports_invar: "invar s \<Longrightarrow> invar (snd (for_do report es s))"
  by (induction es arbitrary: s) (simp_all add: bnd_Ret [OF report_run] report_invar)

lemma reports_counter:
  "invar s \<Longrightarrow>
   counter_of k (snd (for_do report es s)) = counter_of k s + (\<Sum>e\<leftarrow>es. amount e k)"
  by (induction es arbitrary: s)
     (simp_all add: bnd_Ret [OF report_run] report_invar report_counter add.assoc)

text \<open>Reports from concurrent handlers may be interleaved in any order.\<close>

lemma reports_order_irrelevant:
  assumes "invar s" "mset es = mset es'"
  shows "counter_of k (snd (for_do report es s)) = counter_of k (snd (for_do report es' s))"
proof -
  have "(\<Sum>e\<leftarrow>es. amount e k) = (\<Sum>e\<leftarrow>es'. amount e k)"
    using assms(2) by (metis mset_map sum_mset_sum_list)
  then show ?thesis using assms(1) by (simp add: reports_counter)
qed

end

interpretation sts: stats_interface account counter_value event_amount stats_wf
  by unfold_locales (simp_all add: account_returns account_wf account_counter)

section \<open>Clear\<close>

lemma clear_steps:
  "stats_wf s \<Longrightarrow> clearOsOp op s =
     (Ret (), s\<lparr>osOpStats := (osOpStats s)(op \<mapsto> \<lparr>LocalCount = 0, RemoteCount = 0\<rparr>)\<rparr>)"
  "stats_wf s \<Longrightarrow> clearRead d s = (Ret (), s\<lparr>readStats := (readStats s)(d \<mapsto> 0)\<rparr>)"
  "stats_wf s \<Longrightarrow> clearFuseOp f s =
     (Ret (), s\<lparr>fuseOpStats := (fuseOpStats s)(f \<mapsto> \<lparr>CacheHits = 0, CacheMisses = 0, Direct = 0\<rparr>)\<rparr>)"
  by (erule stats_wf_cases, simp add: clearOsOp_def clearRead_def clearFuseOp_def)+

lemma clear_steps_wf:
  "stats_wf s \<Longrightarrow> stats_wf (s\<lparr>osOpStats := (osOpStats s)(op \<mapsto> c)\<rparr>)"
  "stats_wf s \<Longrightarrow> stats_wf (s\<lparr>readStats := (readStats s)(d \<mapsto> n)\<rparr>)"
  "stats_wf s \<Longrightarrow> stats_wf (s\<lparr>fuseOpStats := (fuseOpStats s)(f \<mapsto> g)\<rparr>)"
  by (auto simp: stats_wf_iff)

lemma fold_clear_fields:
  "fold (\<lambda>op s. s\<lparr>osOpStats := (osOpStats s)(op \<mapsto> c)\<rparr>) ops s =
     s\<lparr>osOpStats := fold (\<lambda>op m. m(op \<mapsto> c)) ops (osOpStats s)\<rparr>"
  "fold (\<lambda>d s. s\<lparr>readStats := (readStats s)(d \<mapsto> n)\<rparr>) ds s =
     s\<lparr>readStats := fold (\<lambda>d m. m(d \<mapsto> n)) ds (readStats s)\<rparr>"
  "fold (\<lambda>f s. s\<lparr>fuseOpStats := (fuseOpStats s)(f \<mapsto> g)\<rparr>) fs s =
     s\<lparr>fuseOpStats := fold (\<lambda>f m. m(f \<mapsto> g)) fs (fuseOpStats s)\<rparr>"
  by (induction ops arbitrary: s, simp_all)
     (induction ds arbitrary: s, simp_all, induction fs arbitrary: s, simp_all)

lemma Clear_run:
  assumes "stats_wf s"
  shows "Clear s = (Ret (), NewStats)"
proof -
  let ?s1 = "fold (\<lambda>op s. s\<lparr>osOpStats := (osOpStats s)(op \<mapsto> \<lparr>LocalCount = 0, RemoteCount = 0\<rparr>)\<rparr>)
    allOsOps s"
  let ?s2 = "fold (\<lambda>d s. s\<lparr>readStats := (readStats s)(d \<mapsto> 0)\<rparr>) allDomains ?s1"
  have 1: "for_do clearOsOp allOsOps s = (Ret (), ?s1)"
    by (rule for_do_Ret [where I = stats_wf]) (simp_all add: assms clear_steps clear_steps_wf)
  have w1: "stats_wf ?s1"
    using assms by (simp add: fold_clear_fields stats_wf_iff fold_register)
  have 2: "for_do clearRead allDomains ?s1 = (Ret (), ?s2)"
    by (rule for_do_Ret [where I = stats_wf]) (simp_all add: w1 clear_steps clear_steps_wf)
  have w2: "stats_wf ?s2"
    using w1 by (simp add: fold_clear_fields stats_wf_iff fold_register)
  have 3: "for_do clearFuseOp allFuseOps ?s2 = (Ret (), fold (\<lambda>f s. s\<lparr>fuseOpStats :=
      (fuseOpStats s)(f \<mapsto> \<lparr>CacheHits = 0, CacheMisses = 0, Direct = 0\<rparr>)\<rparr>) allFuseOps ?s2)"
    by (rule for_do_Ret [where I = stats_wf]) (simp_all add: w2 clear_steps clear_steps_wf)
  show ?thesis
    unfolding Clear_def
    by (simp only: bnd_Ret [where m = "for_do clearOsOp allOsOps", OF 1]
        bnd_Ret [where m = "for_do clearRead allDomains", OF 2] 3)
       (simp add: fold_clear_fields fold_register NewStats_def)
qed

lemma NewStats_counters: "counter_value k NewStats = 0"
  by (cases k) (simp_all add: retriever_defs NewStats_fields split: OpDomain.split)

end
