(* ===== verification/Os.thy ===== *)
theory Os
  imports Types
begin

text \<open>
  The functions of Go's \<^verbatim>\<open>os\<close> and \<^verbatim>\<open>io/ioutil\<close> packages that the program calls, on a kernel that holds
  a tree of named nodes and the table of open files. Paths are looked up as they are written: a
  symbolic link is followed where \<^verbatim>\<open>os.Open\<close> meets it as the last element of a path and nowhere else.

  What the program does not decide is a parameter \<^verbatim>\<open>env\<close>: which system call fails and how, how many
  bytes a short transfer moves, the random suffixes of temporary files, the umask and the clock. Each
  is indexed by the number of the system call, so that a retry may see a different answer.
\<close>

section \<open>The kernel\<close>

datatype kind = KFile "byte list" | KDir | KLink string | KOther FileMode

record knode =
  n_kind :: kind
  n_perm :: FileMode
  n_size :: int64
  n_mtime :: int

record ofile =
  o_name :: string
  o_ino :: nat
  o_pos :: nat

record kernel =
  k_files :: "(string \<times> nat) list"
  k_nodes :: "nat \<rightharpoonup> knode"
  k_nextino :: nat
  k_open :: "nat \<rightharpoonup> ofile"
  k_nextfd :: nat
  k_tick :: nat

record os_env =
  env_fault :: "nat \<Rightarrow> errno option"
  env_short :: "nat \<Rightarrow> nat"
  env_suffix :: "nat \<Rightarrow> string"
  env_umask :: FileMode
  env_clock :: "nat \<Rightarrow> int"

text \<open>An \<^verbatim>\<open>*os.File\<close>: the identity of the object and its name.\<close>

record os_File =
  f_id :: nat
  f_name :: string

definition node_at :: "kernel \<Rightarrow> string \<Rightarrow> knode option" where
  "node_at k p = Option.bind (map_of (k_files k) p) (k_nodes k)"

definition node_bytes :: "knode \<Rightarrow> byte list option" where
  "node_bytes n = (case n_kind n of KFile bs \<Rightarrow> Some bs | _ \<Rightarrow> None)"

definition file_at :: "kernel \<Rightarrow> string \<Rightarrow> byte list option" where
  "file_at k p = Option.bind (node_at k p) node_bytes"

fun kind_mode :: "kind \<Rightarrow> FileMode" where
  "kind_mode (KFile _) = 0"
| "kind_mode KDir = ModeDir"
| "kind_mode (KLink _) = ModeSymlink"
| "kind_mode (KOther m) = m AND os_ModeType"

fun kind_size :: "kind \<Rightarrow> int64 \<Rightarrow> int64" where
  "kind_size (KFile bs) _ = of_nat (length bs)"
| "kind_size (KLink t) _ = of_nat (length t)"
| "kind_size _ sz = sz"

definition node_info :: "string \<Rightarrow> knode \<Rightarrow> FileInfo" where
  "node_info name n = \<lparr>fi_basename = name, fi_size = kind_size (n_kind n) (n_size n),
     fi_mode = kind_mode (n_kind n) OR (n_perm n AND NOT os_ModeType), fi_mtime = n_mtime n\<rparr>"

definition is_dir_at :: "kernel \<Rightarrow> string \<Rightarrow> bool" where
  "is_dir_at k p = (case node_at k p of Some n \<Rightarrow> n_kind n = KDir | None \<Rightarrow> False)"

text \<open>Every system call takes a number and may fail as the environment says.\<close>

definition syscall :: "os_env \<Rightarrow> (nat \<Rightarrow> errno option \<Rightarrow> (kernel, 'a) prog) \<Rightarrow> (kernel, 'a) prog" where
  "syscall env body = (\<lambda>k. body (k_tick k) (env_fault env (k_tick k)) (k\<lparr>k_tick := Suc (k_tick k)\<rparr>))"

section \<open>Operations on names\<close>

definition os_Lstat :: "os_env \<Rightarrow> string \<Rightarrow> (kernel, FileInfo result) prog" where
  "os_Lstat env path = syscall env (\<lambda>_ fault k. case fault of
       Some e \<Rightarrow> (Ret (Inl (OsError e)), k)
     | None \<Rightarrow> (case node_at k path of
         None \<Rightarrow> (Ret (Inl (OsError ENOENT)), k)
       | Some n \<Rightarrow> (Ret (Inr (node_info (path_Base path) n)), k)))"

definition add_node :: "string \<Rightarrow> knode \<Rightarrow> kernel \<Rightarrow> kernel" where
  "add_node p n k = k\<lparr>k_files := k_files k @ [(p, k_nextino k)],
     k_nodes := (k_nodes k)(k_nextino k \<mapsto> n), k_nextino := Suc (k_nextino k)\<rparr>"

definition new_node :: "os_env \<Rightarrow> nat \<Rightarrow> kind \<Rightarrow> FileMode \<Rightarrow> knode" where
  "new_node env t kd perm = \<lparr>n_kind = kd, n_perm = perm AND NOT (env_umask env), n_size = 0,
     n_mtime = env_clock env t\<rparr>"

definition os_Mkdir :: "os_env \<Rightarrow> string \<Rightarrow> FileMode \<Rightarrow> (kernel, unit result) prog" where
  "os_Mkdir env path perm = syscall env (\<lambda>t fault k. case fault of
       Some e \<Rightarrow> (Ret (Inl (OsError e)), k)
     | None \<Rightarrow>
         if node_at k path \<noteq> None then (Ret (Inl (OsError EEXIST)), k)
         else if \<not> is_dir_at k (path_Join path ''..'') then (Ret (Inl (OsError ENOENT)), k)
         else (Ret (Inr ()), add_node path (new_node env t KDir perm) k))"

text \<open>The kernel gives up after forty links.\<close>

fun follow :: "nat \<Rightarrow> kernel \<Rightarrow> string \<Rightarrow> errno + string" where
  "follow n k p = (case node_at k p of
       None \<Rightarrow> Inl ENOENT
     | Some nd \<Rightarrow> (case n_kind nd of
         KLink t \<Rightarrow> (case n of
             0 \<Rightarrow> Inl ELOOP
           | Suc m \<Rightarrow> follow m k (if is_rooted t then Clean t else path_JoinL [p, ''..'', t]))
       | _ \<Rightarrow> Inr p))"

declare follow.simps [simp del]

text \<open>The open file remembers the node it reached, the object the name it was asked for.\<close>

definition open_fd :: "string \<Rightarrow> string \<Rightarrow> nat \<Rightarrow> kernel \<Rightarrow> os_File \<times> kernel" where
  "open_fd name reached i k = (\<lparr>f_id = k_nextfd k, f_name = name\<rparr>,
     k\<lparr>k_open := (k_open k)(k_nextfd k \<mapsto> \<lparr>o_name = reached, o_ino = i, o_pos = 0\<rparr>),
       k_nextfd := Suc (k_nextfd k)\<rparr>)"

definition os_Open :: "os_env \<Rightarrow> string \<Rightarrow> (kernel, os_File result) prog" where
  "os_Open env path = syscall env (\<lambda>_ fault k. case fault of
       Some e \<Rightarrow> (Ret (Inl (OsError e)), k)
     | None \<Rightarrow> (case follow 40 k path of
         Inl e \<Rightarrow> (Ret (Inl (OsError e)), k)
       | Inr p \<Rightarrow> (case map_of (k_files k) p of
           None \<Rightarrow> (Ret (Inl (OsError ENOENT)), k)
         | Some i \<Rightarrow> (case open_fd path p i k of (f, k') \<Rightarrow> (Ret (Inr f), k')))))"

definition os_Readlink :: "os_env \<Rightarrow> string \<Rightarrow> (kernel, string result) prog" where
  "os_Readlink env path = syscall env (\<lambda>_ fault k. case fault of
       Some e \<Rightarrow> (Ret (Inl (OsError e)), k)
     | None \<Rightarrow> (case node_at k path of
         None \<Rightarrow> (Ret (Inl (OsError ENOENT)), k)
       | Some n \<Rightarrow> (case n_kind n of
           KLink t \<Rightarrow> (Ret (Inr t), k)
         | _ \<Rightarrow> (Ret (Inl (OsError EINVAL)), k))))"

definition below :: "string \<Rightarrow> string \<Rightarrow> bool" where
  "below d q \<longleftrightarrow> take (Suc (length d)) q = d @ ''/''"

definition os_Remove :: "os_env \<Rightarrow> string \<Rightarrow> (kernel, unit result) prog" where
  "os_Remove env path = syscall env (\<lambda>_ fault k. case fault of
       Some e \<Rightarrow> (Ret (Inl (OsError e)), k)
     | None \<Rightarrow>
         if node_at k path = None then (Ret (Inl (OsError ENOENT)), k)
         else if is_dir_at k path \<and> list_ex (\<lambda>(q, _). below path q) (k_files k) then
           (Ret (Inl (OsError ENOTEMPTY)), k)
         else (Ret (Inr ()), k\<lparr>k_files := filter (\<lambda>(q, _). q \<noteq> path) (k_files k)\<rparr>))"

text \<open>
  \<^verbatim>\<open>os.Rename\<close> refuses an existing directory as its target; any other target is replaced. A directory
  moves with everything below it, any other node alone.
\<close>

definition move_path :: "string \<Rightarrow> string \<Rightarrow> string \<Rightarrow> string" where
  "move_path from to q = (if q = from then to
     else if below from q then to @ drop (length from) q else q)"

definition os_Rename :: "os_env \<Rightarrow> string \<Rightarrow> string \<Rightarrow> (kernel, unit result) prog" where
  "os_Rename env from to = syscall env (\<lambda>_ fault k. case fault of
       Some e \<Rightarrow> (Ret (Inl (OsError e)), k)
     | None \<Rightarrow>
         if is_dir_at k to then (Ret (Inl (OsError EEXIST)), k)
         else if node_at k from = None \<or> \<not> is_dir_at k (path_Join to ''..'') then
           (Ret (Inl (OsError ENOENT)), k)
         else if from = to then (Ret (Inr ()), k)
         else if is_dir_at k from \<and> node_at k to \<noteq> None then (Ret (Inl (OsError ENOTDIR)), k)
         else if is_dir_at k from \<and> list_ex (\<lambda>(q, _). below to q) (k_files k) then
           (Ret (Inl (OsError ENOTEMPTY)), k)
         else if is_dir_at k from \<and> below from to then (Ret (Inl (OsError EINVAL)), k)
         else let move = (if is_dir_at k from then move_path from to else (\<lambda>q. if q = from then to else q))
              in (Ret (Inr ()), k\<lparr>k_files :=
                map (\<lambda>(q, i). (move q, i)) (filter (\<lambda>(q, _). q \<noteq> to) (k_files k))\<rparr>))"

text \<open>
  \<^verbatim>\<open>ioutil.TempFile(dir, prefix)\<close> tries up to ten thousand random names and creates the first that
  does not exist, exclusively and with mode 0600.
\<close>

definition os_OpenFile_excl :: "os_env \<Rightarrow> string \<Rightarrow> FileMode \<Rightarrow> (kernel, os_File result) prog" where
  "os_OpenFile_excl env path perm = syscall env (\<lambda>t fault k. case fault of
       Some e \<Rightarrow> (Ret (Inl (OsError e)), k)
     | None \<Rightarrow>
         if node_at k path \<noteq> None then (Ret (Inl (OsError EEXIST)), k)
         else if \<not> is_dir_at k (path_Join path ''..'') then (Ret (Inl (OsError ENOENT)), k)
         else (case open_fd path path (k_nextino k) (add_node path (new_node env t (KFile []) perm) k) of
             (f, k') \<Rightarrow> (Ret (Inr f), k')))"

fun TempFile_loop :: "nat \<Rightarrow> os_env \<Rightarrow> string \<Rightarrow> string \<Rightarrow> error \<Rightarrow> (kernel, os_File result) prog" where
  "TempFile_loop 0 env dir prefix err = ret (Inl err)"
| "TempFile_loop (Suc n) env dir prefix err =
     bnd (gets k_tick) (\<lambda>t.
     bnd (os_OpenFile_excl env (path_Join dir (prefix @ env_suffix env t)) 0x180) (\<lambda>r. case r of
       Inl e \<Rightarrow> if IsExist e then TempFile_loop n env dir prefix e else ret (Inl e)
     | Inr f \<Rightarrow> ret (Inr f)))"

definition ioutil_TempFile :: "os_env \<Rightarrow> string \<Rightarrow> string \<Rightarrow> (kernel, os_File result) prog" where
  "ioutil_TempFile env dir prefix = TempFile_loop 10000 env dir prefix (OsError EEXIST)"

section \<open>Operations on open files\<close>

text \<open>Bytes of the file behind a node; a directory refuses to be read.\<close>

fun kind_bytes :: "kind \<Rightarrow> errno + byte list" where
  "kind_bytes (KFile bs) = Inr bs"
| "kind_bytes KDir = Inl EISDIR"
| "kind_bytes _ = Inl EINVAL"

definition file_bytes :: "kernel \<Rightarrow> nat \<Rightarrow> errno + byte list" where
  "file_bytes k i = (case k_nodes k i of None \<Rightarrow> Inl (EErrno 5) | Some n \<Rightarrow> kind_bytes (n_kind n))"

text \<open>
  \<^verbatim>\<open>(*os.File).Read\<close> issues one system call, which may deliver fewer bytes than asked for but at least
  one before the end of the file.
\<close>

definition file_Read :: "os_env \<Rightarrow> os_File \<Rightarrow> nat \<Rightarrow> (kernel, byte list \<times> error option) prog" where
  "file_Read env f n = syscall env (\<lambda>t fault k. case k_open k (f_id f) of
       None \<Rightarrow> (Ret ([], Some ErrClosed), k)
     | Some o' \<Rightarrow> (case fault of
         Some e \<Rightarrow> (Ret ([], Some (OsError e)), k)
       | None \<Rightarrow> (case file_bytes k (o_ino o') of
           Inl e \<Rightarrow> (Ret ([], Some (OsError e)), k)
         | Inr bs \<Rightarrow>
             if n = 0 then (Ret ([], None), k)
             else if length bs \<le> o_pos o' then (Ret ([], Some EOF), k)
             else let m = min n (length bs - o_pos o');
                      c = m - env_short env t mod m
                  in (Ret (take c (drop (o_pos o') bs), None),
                      k\<lparr>k_open := (k_open k)(f_id f \<mapsto> o'\<lparr>o_pos := o_pos o' + c\<rparr>)\<rparr>))))"

text \<open>
  \<^verbatim>\<open>(*os.File).ReadAt\<close> repeats the system call until the buffer is full, the file ends or an error
  occurs; the bytes read so far are returned with the error.
\<close>

definition file_ReadAt :: "os_env \<Rightarrow> os_File \<Rightarrow> nat \<Rightarrow> int64 \<Rightarrow> (kernel, byte list \<times> error option) prog" where
  "file_ReadAt env f n off = syscall env (\<lambda>t fault k. case k_open k (f_id f) of
       None \<Rightarrow> (Ret ([], Some ErrClosed), k)
     | Some o' \<Rightarrow>
         if sint off < 0 then (Ret ([], Some (ErrorString ''negative offset'')), k)
         else if n = 0 then (Ret ([], None), k)
         else (case file_bytes k (o_ino o') of
           Inl e \<Rightarrow> (Ret ([], Some (OsError e)), k)
         | Inr bs \<Rightarrow>
             (let got = take n (drop (unat off) bs)
              in case fault of
                Some e \<Rightarrow> (Ret (take (env_short env t) got, Some (OsError e)), k)
              | None \<Rightarrow> (Ret (got, if length got < n then Some EOF else None), k))))"

definition write_at :: "byte list \<Rightarrow> nat \<Rightarrow> byte list \<Rightarrow> byte list" where
  "write_at bs p ws = take p (bs @ replicate (p - length bs) 0) @ ws @ drop (p + length ws) bs"

definition file_Write :: "os_env \<Rightarrow> os_File \<Rightarrow> byte list \<Rightarrow> (kernel, nat \<times> error option) prog" where
  "file_Write env f ws = syscall env (\<lambda>t fault k. case k_open k (f_id f) of
       None \<Rightarrow> (Ret (0, Some ErrClosed), k)
     | Some o' \<Rightarrow> (case k_nodes k (o_ino o') of
         None \<Rightarrow> (Ret (0, Some (OsError (EErrno 5))), k)
       | Some nd \<Rightarrow> (case n_kind nd of
           KFile bs \<Rightarrow>
             (let ws' = (case fault of None \<Rightarrow> ws | Some _ \<Rightarrow> take (env_short env t) (butlast ws));
                  nd' = nd\<lparr>n_kind := KFile (write_at bs (o_pos o') ws'), n_mtime := env_clock env t\<rparr>
              in (Ret (length ws', map_option OsError fault),
                  k\<lparr>k_nodes := (k_nodes k)(o_ino o' \<mapsto> nd'),
                    k_open := (k_open k)(f_id f \<mapsto> o'\<lparr>o_pos := o_pos o' + length ws'\<rparr>)\<rparr>))
         | _ \<Rightarrow> (Ret (0, Some (OsError EINVAL)), k))))"

definition file_Close :: "os_env \<Rightarrow> os_File \<Rightarrow> (kernel, unit result) prog" where
  "file_Close env f = syscall env (\<lambda>_ fault k. case k_open k (f_id f) of
       None \<Rightarrow> (Ret (Inl ErrClosed), k)
     | Some _ \<Rightarrow> (Ret (case fault of None \<Rightarrow> Inr () | Some e \<Rightarrow> Inl (OsError e)),
         k\<lparr>k_open := (k_open k)(f_id f := None)\<rparr>))"

text \<open>
  \<^verbatim>\<open>(*os.File).Readdir(0)\<close> delivers the information of every entry, in the order of the directory;
  on an error it delivers those read before it.
\<close>

definition child_name :: "string \<Rightarrow> string \<Rightarrow> string option" where
  "child_name d q = (let b = path_Base q in
     if valid_name b \<and> path_Join d b = q then Some b else None)"

definition children :: "kernel \<Rightarrow> string \<Rightarrow> FileInfo list" where
  "children k d = List.map_filter (\<lambda>(q, i). case child_name d q of
       None \<Rightarrow> None
     | Some b \<Rightarrow> map_option (node_info b) (k_nodes k i)) (k_files k)"

definition file_Readdir :: "os_env \<Rightarrow> os_File \<Rightarrow> (kernel, FileInfo list \<times> error option) prog" where
  "file_Readdir env f = syscall env (\<lambda>t fault k. case k_open k (f_id f) of
       None \<Rightarrow> (Ret ([], Some ErrClosed), k)
     | Some o' \<Rightarrow> (case k_nodes k (o_ino o') of
         None \<Rightarrow> (Ret ([], Some (OsError ENOENT)), k)
       | Some nd \<Rightarrow>
           if n_kind nd \<noteq> KDir then (Ret ([], Some (OsError ENOTDIR)), k)
           else let fis = (if o_pos o' = 0 then children k (o_name o') else [])
                in (Ret (case fault of None \<Rightarrow> (fis, None)
                     | Some e \<Rightarrow> (take (env_short env t) fis, Some (OsError e))),
                    k\<lparr>k_open := (k_open k)(f_id f \<mapsto> o'\<lparr>o_pos := Suc (o_pos o')\<rparr>)\<rparr>)))"

end
