(* ===== verification/Os_Laws.thy ===== *)
theory Os_Laws
  imports Os
begin

text \<open>
  Laws of the kernel model: the consistency of its tables and that every system call keeps it, which
  calls leave the tree of names and nodes alone, and the effect of the others on the node that each
  path names.
\<close>

section \<open>Consistency\<close>

definition kernel_wf :: "kernel \<Rightarrow> bool" where
  "kernel_wf k \<longleftrightarrow> distinct (map fst (k_files k)) \<and> distinct (map snd (k_files k)) \<and>
     list_all (\<lambda>(_, i). i < k_nextino k \<and> k_nodes k i \<noteq> None) (k_files k) \<and>
     (\<forall>fd o'. k_open k fd = Some o' \<longrightarrow> fd < k_nextfd k \<and> o_ino o' < k_nextino k)"

definition tree :: "kernel \<Rightarrow> (string \<times> nat) list \<times> (nat \<rightharpoonup> knode) \<times> nat" where
  "tree k = (k_files k, k_nodes k, k_nextino k)"

lemma node_at_tree: "tree k' = tree k \<Longrightarrow> node_at k' = node_at k"
  by (rule ext) (simp add: tree_def node_at_def)

lemma tree_tick [simp]: "tree (k\<lparr>k_tick := t\<rparr>) = tree k"
  by (simp add: tree_def)

lemma node_at_tick [simp]: "node_at (k\<lparr>k_tick := t\<rparr>) = node_at k"
  by (simp add: node_at_def fun_eq_iff)

lemma is_dir_at_tick [simp]: "is_dir_at (k\<lparr>k_tick := t\<rparr>) = is_dir_at k"
  by (simp add: is_dir_at_def fun_eq_iff)

lemma kernel_wf_tick [simp]: "kernel_wf (k\<lparr>k_tick := t\<rparr>) = kernel_wf k"
  by (simp add: kernel_wf_def)

lemma keeps_syscall:
  assumes "\<And>k. I k \<Longrightarrow> I (k\<lparr>k_tick := Suc (k_tick k)\<rparr>)"
    and "\<And>t fault. keeps I (body t fault)"
  shows "keeps I (syscall env body)"
  using assms by (simp add: keeps_def syscall_def)

section \<open>Calls that leave the tree alone\<close>

lemma keeps_tree_stat:
  "keeps (\<lambda>k. tree k = c) (os_Lstat env p)" "keeps (\<lambda>k. tree k = c) (os_Readlink env p)"
  by (simp_all add: os_Lstat_def os_Readlink_def keeps_def syscall_def split: option.split kind.split)

lemma keeps_tree_open: "keeps (\<lambda>k. tree k = c) (os_Open env p)"
  by (simp add: os_Open_def keeps_def syscall_def open_fd_def tree_def split: option.split sum.split)

lemma keeps_tree_fd:
  "keeps (\<lambda>k. tree k = c) (file_Read env f n)" "keeps (\<lambda>k. tree k = c) (file_ReadAt env f n off)"
  "keeps (\<lambda>k. tree k = c) (file_Close env f)" "keeps (\<lambda>k. tree k = c) (file_Readdir env f)"
  by (simp_all add: file_Read_def file_ReadAt_def file_Close_def file_Readdir_def keeps_def syscall_def
      tree_def Let_def split: option.split sum.split)

lemmas keeps_tree = keeps_tree_stat keeps_tree_open keeps_tree_fd

section \<open>Consistency is kept\<close>

lemma node_at_Some:
  "kernel_wf k \<Longrightarrow> node_at k p = None \<longleftrightarrow> p \<notin> fst ` set (k_files k)"
  by (force simp: node_at_def kernel_wf_def list_all_iff map_of_eq_None_iff Option.bind_eq_None_conv
      dest: map_of_SomeD)

lemma kernel_wf_open_fd: "kernel_wf k \<Longrightarrow> i < k_nextino k \<Longrightarrow> kernel_wf (snd (open_fd n r i k))"
  by (auto simp: kernel_wf_def open_fd_def less_Suc_eq split: option.splits)

lemma kernel_wf_add_node:
  "kernel_wf k \<Longrightarrow> node_at k p = None \<Longrightarrow> kernel_wf (add_node p n k)"
  by (auto simp: node_at_Some kernel_wf_def add_node_def list_all_iff less_Suc_eq split: option.splits)

lemma kernel_wf_filter: "kernel_wf k \<Longrightarrow> kernel_wf (k\<lparr>k_files := filter P (k_files k)\<rparr>)"
  by (auto simp: kernel_wf_def list_all_iff distinct_map_filter split: option.splits)

lemma kernel_wf_update:
  assumes "kernel_wf k" "k_open k fd = Some o'" "o_ino o'' = o_ino o'"
  shows "kernel_wf (k\<lparr>k_open := (k_open k)(fd \<mapsto> o'')\<rparr>)"
    "kernel_wf (k\<lparr>k_nodes := (k_nodes k)(i \<mapsto> nd), k_open := (k_open k)(fd \<mapsto> o'')\<rparr>)"
    "kernel_wf (k\<lparr>k_open := (k_open k)(fd := None)\<rparr>)"
  using assms by (force simp: kernel_wf_def list_all_iff split: option.splits)+

lemma keeps_wf_stat:
  "keeps kernel_wf (os_Lstat env p)" "keeps kernel_wf (os_Readlink env p)"
  by (simp_all add: os_Lstat_def os_Readlink_def keeps_def syscall_def split: option.split kind.split)

lemma keeps_wf_open: "keeps kernel_wf (os_Open env p)"
proof -
  have "i < k_nextino k" if "kernel_wf k" "map_of (k_files k) q = Some i" for k q i
    using that by (auto simp: kernel_wf_def list_all_iff dest!: map_of_SomeD)
  then have fd: "kernel_wf k'" if "kernel_wf k" "map_of (k_files k) q = Some i" "open_fd p q i k = (f, k')"
    for k q i f k' using that kernel_wf_open_fd [of k i p q] by auto
  show ?thesis
    by (auto simp: os_Open_def keeps_def syscall_def intro: fd [where k = "_\<lparr>k_tick := _\<rparr>", simplified]
        split: option.split sum.split prod.split)
qed

lemma keeps_wf_fd:
  "keeps kernel_wf (file_Read env f n)" "keeps kernel_wf (file_ReadAt env f n off)"
  "keeps kernel_wf (file_Close env f)" "keeps kernel_wf (file_Readdir env f)"
  "keeps kernel_wf (file_Write env f ws)"
proof -
  show "keeps kernel_wf (file_Read env f n)"
    unfolding file_Read_def keeps_def syscall_def
    by (auto simp: Let_def intro!: kernel_wf_update(1) [where k = "_\<lparr>k_tick := _\<rparr>", simplified]
        split: option.split sum.split)
  show "keeps kernel_wf (file_ReadAt env f n off)"
    by (simp add: file_ReadAt_def keeps_def syscall_def Let_def split: option.split sum.split)
  show "keeps kernel_wf (file_Close env f)"
    unfolding file_Close_def keeps_def syscall_def
    by (auto intro!: kernel_wf_update(3) [where k = "_\<lparr>k_tick := _\<rparr>", simplified] split: option.split)
  show "keeps kernel_wf (file_Readdir env f)"
    unfolding file_Readdir_def keeps_def syscall_def
    by (auto simp: Let_def intro!: kernel_wf_update(1) [where k = "_\<lparr>k_tick := _\<rparr>", simplified]
        split: option.split)
  show "keeps kernel_wf (file_Write env f ws)"
    unfolding file_Write_def keeps_def syscall_def
    by (auto simp: Let_def intro!: kernel_wf_update(2) [where k = "_\<lparr>k_tick := _\<rparr>", simplified]
        split: option.split kind.split)
qed

lemma keeps_wf_names:
  "keeps kernel_wf (os_Mkdir env p perm)" "keeps kernel_wf (os_OpenFile_excl env p perm)"
  "keeps kernel_wf (os_Remove env p)"
proof -
  show "keeps kernel_wf (os_Mkdir env p perm)"
    by (auto simp: os_Mkdir_def keeps_def syscall_def intro!: kernel_wf_add_node split: option.split)
  show "keeps kernel_wf (os_Remove env p)"
    unfolding os_Remove_def keeps_def syscall_def
    by (auto intro!: kernel_wf_filter [where k = "_\<lparr>k_tick := _\<rparr>", simplified] split: option.split)
  have "kernel_wf k'" if "kernel_wf k" "node_at k p = None"
    "open_fd p p (k_nextino k) (add_node p n k) = (f, k')" for k n f k'
    using that kernel_wf_open_fd [of "add_node p n k" "k_nextino k" p p]
    by (simp add: kernel_wf_add_node) (simp add: add_node_def)
  from this [where k = "_\<lparr>k_tick := _\<rparr>", simplified]
  show "keeps kernel_wf (os_OpenFile_excl env p perm)"
    by (auto simp: os_OpenFile_excl_def keeps_def syscall_def split: option.split prod.split)
qed

lemma keeps_TempFile:
  assumes "\<And>p. keeps I (os_OpenFile_excl env p 0x180)"
  shows "keeps I (ioutil_TempFile env dir pre)"
proof -
  have "keeps I (TempFile_loop n env dir pre err)" for n err
    by (induction n arbitrary: err) (auto intro!: keeps_rules assms)
  then show ?thesis by (simp add: ioutil_TempFile_def)
qed

section \<open>Effects on the tree\<close>

lemma node_at_add_node:
  assumes "kernel_wf k" "node_at k p = None"
  shows "node_at (add_node p n k) = (node_at k)(p \<mapsto> n)"
proof (rule ext)
  have fresh: "p \<notin> fst ` set (k_files k)" using assms by (simp add: node_at_Some)
  have "i \<noteq> k_nextino k" if "map_of (k_files k) q = Some i" for q i
    using that assms(1) by (auto simp: kernel_wf_def list_all_iff dest!: map_of_SomeD)
  then show "node_at (add_node p n k) q = ((node_at k)(p \<mapsto> n)) q" for q
    using fresh
    by (cases "map_of (k_files k) q")
       (auto simp: node_at_def add_node_def map_of_append_fresh [OF fresh] simp flip: map_of_eq_None_iff
         simp del: map_of_append)
qed

lemma map_of_filter_key: "map_of (filter (\<lambda>(q, _). q \<noteq> p) xs) = (map_of xs)(p := None)"
  by (induction xs) (auto simp: fun_eq_iff)

lemma node_at_filter:
  fixes k :: kernel
  shows "node_at (k\<lparr>k_files := filter (\<lambda>(q, _). q \<noteq> p) (k_files k)\<rparr>) = (node_at k)(p := None)"
  by (rule ext) (simp add: node_at_def map_of_filter_key)

lemma map_of_move:
  assumes "distinct (map fst xs)" "map_of xs p = Some i" "p \<noteq> q"
  shows "map_of (map (\<lambda>(r, i). (if r = p then q else r, i)) (filter (\<lambda>(r, _). r \<noteq> q) xs)) =
    (map_of xs)(p := None, q \<mapsto> i)"
  using assms
proof (induction xs)
  case (Cons x xs)
  have move_other: "map_of (map (\<lambda>(r, i). (if r = p then q else r, i)) (filter (\<lambda>(r, _). r \<noteq> q) ys)) =
      (map_of ys)(q := None)" if "p \<notin> fst ` set ys" for ys :: "('a \<times> 'b) list"
    using that by (induction ys) (auto simp: fun_eq_iff)
  obtain r j where x: "x = (r, j)" by (cases x)
  show ?case
  proof (cases "r = p")
    case True
    with Cons.prems x show ?thesis by (auto simp: move_other fun_eq_iff map_of_eq_None_iff)
  next
    case False
    with Cons x show ?thesis by (auto simp: fun_eq_iff)
  qed
qed simp

lemma node_at_move:
  assumes "kernel_wf k" "node_at k p \<noteq> None" "p \<noteq> q"
  shows "node_at (k\<lparr>k_files := map (\<lambda>(r, i). (if r = p then q else r, i))
    (filter (\<lambda>(r, _). r \<noteq> q) (k_files k))\<rparr>) = (node_at k)(p := None, q := node_at k p)"
proof -
  obtain i where i: "map_of (k_files k) p = Some i"
    using assms(2) by (cases "map_of (k_files k) p") (auto simp: node_at_def)
  show ?thesis
    using assms(1,3) i by (intro ext) (simp add: node_at_def kernel_wf_def map_of_move [OF _ i assms(3)])
qed

lemma kernel_wf_map:
  assumes "kernel_wf k" "inj_on f (fst ` set (filter P (k_files k)))"
  shows "kernel_wf (k\<lparr>k_files := map (\<lambda>(q, i). (f q, i)) (filter P (k_files k))\<rparr>)"
proof -
  let ?xs = "filter P (k_files k)"
  have wf: "distinct (map fst ?xs)" "distinct (map snd ?xs)"
    using assms(1) by (auto simp: kernel_wf_def distinct_map_filter)
  have "fst \<circ> (\<lambda>(q, i :: nat). (f q, i)) = f \<circ> fst" "snd \<circ> (\<lambda>(q, i :: nat). (f q, i)) = snd"
    by (auto simp: fun_eq_iff)
  moreover have "distinct (map f (map fst ?xs))" using wf(1) assms(2) by (simp add: distinct_map comp_inj_on)
  ultimately show ?thesis using assms(1) wf(2) by (auto simp: kernel_wf_def list_all_iff)
qed

lemma move_path_inj:
  assumes "\<And>q. q \<in> S \<Longrightarrow> q \<noteq> to \<and> \<not> below to q"
  shows "inj_on (move_path from to) S"
proof (rule inj_onI)
  fix q r
  assume *: "q \<in> S" "r \<in> S" "move_path from to q = move_path from to r"
  have split: "x = from @ drop (length from) x \<and> below to (to @ drop (length from) x)" if "below from x" for x
    using that append_take_drop_id [of "Suc (length from)" x] unfolding below_def
    by (metis append.assoc append_Cons append_Nil append_eq_conv_conj length_append_singleton take_append
        append_same_eq length_append)
  show "q = r"
    using *(3) assms [OF *(1)] assms [OF *(2)] split [of q] split [of r]
    by (auto simp: move_path_def split: if_splits)
qed

lemma keeps_wf_rename: "keeps kernel_wf (os_Rename env p q)"
proof -
  have "kernel_wf k'" if k: "kernel_wf k" and run: "os_Rename env p q k = (r, k')" for k r k'
  proof -
    let ?k = "k\<lparr>k_tick := Suc (k_tick k)\<rparr>"
    have one: "inj_on (\<lambda>r. if r = p then q else r) (fst ` set (filter (\<lambda>(r, _). r \<noteq> q) (k_files ?k)))"
      by (auto simp: inj_on_def)
    have sub: "inj_on (move_path p q) (fst ` set (filter (\<lambda>(r, _). r \<noteq> q) (k_files ?k)))"
      if "\<not> list_ex (\<lambda>(r, _). below q r) (k_files k)"
      using that by (intro move_path_inj) (auto simp: list_ex_iff)
    from run show ?thesis
      using kernel_wf_map [OF _ one] kernel_wf_map [OF _ sub] k
      by (auto simp: os_Rename_def syscall_def Let_def split: option.splits if_splits)
  qed
  then show ?thesis by (auto simp: keeps_def) (metis prod.collapse)
qed

lemmas keeps_wf = keeps_wf_stat keeps_wf_open keeps_wf_fd keeps_wf_names keeps_wf_rename
  keeps_TempFile [OF keeps_wf_names(2)]

section \<open>Specifications\<close>

definition env_quiet :: "os_env \<Rightarrow> bool" where
  "env_quiet env \<longleftrightarrow> (\<forall>t. env_fault env t = None)"

lemma syscall_run: "syscall env body k = body (k_tick k) (env_fault env (k_tick k)) (k\<lparr>k_tick := Suc (k_tick k)\<rparr>)"
  by (simp add: syscall_def)

lemma total_os:
  "total_prog (os_Lstat env p)" "total_prog (os_Readlink env p)" "total_prog (os_Open env p)"
  "total_prog (os_Mkdir env p perm)" "total_prog (os_Remove env p)" "total_prog (os_Rename env p q)"
  "total_prog (file_Close env f)" "total_prog (file_Readdir env f)" "total_prog (file_ReadAt env f n off)"
  by (auto simp: total_prog_def syscall_run os_Lstat_def os_Readlink_def os_Open_def os_Mkdir_def os_Remove_def
      os_Rename_def file_Close_def file_Readdir_def file_ReadAt_def Let_def open_fd_def
      split: option.split sum.split kind.split)

text \<open>A property of the names and nodes is kept by every call that leaves the tree alone.\<close>

lemma keeps_nodes:
  assumes "\<And>c. keeps (\<lambda>k. tree k = c) m" "keeps kernel_wf m"
  shows "keeps (\<lambda>k. kernel_wf k \<and> R (node_at k)) m"
proof (rule keepsI)
  fix k
  assume k: "kernel_wf k \<and> R (node_at k)"
  have "tree (snd (m k)) = tree k" using assms(1) by (rule keeps_frame)
  then show "kernel_wf (snd (m k)) \<and> R (node_at (snd (m k)))"
    using k keepsD [OF assms(2)] node_at_tree by metis
qed

lemma returns_nodes:
  assumes "total_prog m" "\<And>c. keeps (\<lambda>k. tree k = c) m" "keeps kernel_wf m"
  shows "returns (\<lambda>k. kernel_wf k \<and> R (node_at k)) m (\<lambda>_ k. kernel_wf k \<and> R (node_at k))"
  using assms by (intro returns_invariant keeps_nodes)

lemma os_Lstat_spec:
  "returns (\<lambda>k. kernel_wf k \<and> R (node_at k)) (os_Lstat env p)
    (\<lambda>r k. kernel_wf k \<and> R (node_at k) \<and> (case r of
        Inr fi \<Rightarrow> (\<exists>nd. node_at k p = Some nd \<and> fi = node_info (path_Base p) nd)
      | Inl e \<Rightarrow> env_quiet env \<longrightarrow> e = OsError ENOENT \<and> node_at k p = None))"
  by (auto simp: returns_def os_Lstat_def syscall_run env_quiet_def split: option.splits)

lemma os_Mkdir_spec:
  "returns (\<lambda>k. kernel_wf k \<and> node_at k = N) (os_Mkdir env p perm)
    (\<lambda>r k. kernel_wf k \<and> (case r of
        Inr _ \<Rightarrow> N p = None \<and> (\<exists>nd. node_at k = N(p \<mapsto> nd) \<and> n_kind nd = KDir)
      | Inl e \<Rightarrow> node_at k = N \<and> (env_quiet env \<longrightarrow>
          (IsExist e \<and> N p \<noteq> None) \<or> (e = OsError ENOENT \<and> \<not> is_dir_at k (path_Join p ''..'')))))"
proof (rule returnsI)
  fix k
  assume k: "kernel_wf k \<and> node_at k = N"
  then have "kernel_wf (snd (os_Mkdir env p perm k))" using keepsD [OF keeps_wf_names(1)] by blast
  then show "\<exists>r k'. os_Mkdir env p perm k = (Ret r, k') \<and> (kernel_wf k' \<and> (case r of
        Inr _ \<Rightarrow> N p = None \<and> (\<exists>nd. node_at k' = N(p \<mapsto> nd) \<and> n_kind nd = KDir)
      | Inl e \<Rightarrow> node_at k' = N \<and> (env_quiet env \<longrightarrow>
          (IsExist e \<and> N p \<noteq> None) \<or> (e = OsError ENOENT \<and> \<not> is_dir_at k' (path_Join p ''..'')))))"
    using k node_at_add_node [of "k\<lparr>k_tick := Suc (k_tick k)\<rparr>" p]
    by (auto simp: os_Mkdir_def syscall_run env_quiet_def IsExist_def new_node_def split: option.splits if_splits)
qed

lemma os_Remove_spec:
  "returns (\<lambda>k. kernel_wf k \<and> node_at k = N) (os_Remove env p)
    (\<lambda>r k. kernel_wf k \<and> (node_at k = N(p := None) \<or> node_at k = N \<and> (env_quiet env \<longrightarrow> is_dir_at k p)))"
proof (rule returnsI)
  fix k
  assume k: "kernel_wf k \<and> node_at k = N"
  then have "kernel_wf (snd (os_Remove env p k))" using keepsD [OF keeps_wf_names(3)] by blast
  then show "\<exists>r k'. os_Remove env p k = (Ret r, k') \<and> (kernel_wf k' \<and>
      (node_at k' = N(p := None) \<or> node_at k' = N \<and> (env_quiet env \<longrightarrow> is_dir_at k' p)))"
    using k node_at_filter [where k = "k\<lparr>k_tick := Suc (k_tick k)\<rparr>"]
    by (auto simp: os_Remove_def syscall_run env_quiet_def split: option.splits if_splits)
qed

lemma os_Rename_spec:
  assumes "\<And>nd. N p = Some nd \<Longrightarrow> n_kind nd \<noteq> KDir" "p \<noteq> q"
  shows "returns (\<lambda>k. kernel_wf k \<and> node_at k = N) (os_Rename env p q)
    (\<lambda>r k. kernel_wf k \<and> (case r of
        Inr _ \<Rightarrow> N p \<noteq> None \<and> node_at k = N(p := None, q := N p)
      | Inl e \<Rightarrow> node_at k = N \<and> (env_quiet env \<longrightarrow>
          is_dir_at k q \<or> N p = None \<or> \<not> is_dir_at k (path_Join q ''..''))))"
proof (rule returnsI)
  fix k
  assume k: "kernel_wf k \<and> node_at k = N"
  then have wf: "kernel_wf (snd (os_Rename env p q k))" using keepsD [OF keeps_wf_rename] by blast
  have nd: "\<not> is_dir_at k p" using assms(1) k by (auto simp: is_dir_at_def split: option.split)
  have "node_at k p \<noteq> None \<Longrightarrow> node_at (k\<lparr>k_tick := Suc (k_tick k), k_files := map (\<lambda>(r, i). (if r = p then q else r, i))
    (filter (\<lambda>(r, _). r \<noteq> q) (k_files k))\<rparr>) = (node_at k)(p := None, q := node_at k p)"
    using node_at_move [of "k\<lparr>k_tick := Suc (k_tick k)\<rparr>" p q] k assms(2) by simp
  then show "\<exists>r k'. os_Rename env p q k = (Ret r, k') \<and> (kernel_wf k' \<and> (case r of
        Inr _ \<Rightarrow> N p \<noteq> None \<and> node_at k' = N(p := None, q := N p)
      | Inl e \<Rightarrow> node_at k' = N \<and> (env_quiet env \<longrightarrow>
          is_dir_at k' q \<or> N p = None \<or> \<not> is_dir_at k' (path_Join q ''..''))))"
    using wf k nd assms(2)
    by (auto simp: os_Rename_def syscall_run env_quiet_def Let_def split: option.splits if_splits)
qed

end
