(* ===== verification/Syscalls.thy ===== *)
theory Syscalls
  imports Stats Os_Laws
begin

text \<open>
  \<^verbatim>\<open>internal/real/syscalls.go\<close>: kernel operations that count themselves. The state is the kernel and the
  statistics object; every operation reports its event before it enters the kernel.
\<close>

section \<open>State\<close>

record sys =
  sys_kernel :: kernel
  sys_stats :: Stats

definition in_kernel :: "(kernel, 'a) prog \<Rightarrow> (sys, 'a) prog" where
  "in_kernel = zoom sys_kernel (\<lambda>k s. s\<lparr>sys_kernel := k\<rparr>)"

definition in_stats :: "(Stats, 'a) prog \<Rightarrow> (sys, 'a) prog" where
  "in_stats = zoom sys_stats (\<lambda>st s. s\<lparr>sys_stats := st\<rparr>)"

text \<open>\<^verbatim>\<open>tracedReader\<close>; its \<^verbatim>\<open>stats\<close> field points to the statistics object of the state.\<close>

record tracedReader =
  tr_domain :: OpDomain
  tr_file :: os_File

section \<open>Operations\<close>

text \<open>\<^verbatim>\<open>NewSyscalls(s)\<close>: operations on the kernel as it is, counted towards \<open>s\<close>.\<close>

definition NewSyscalls :: "Stats \<Rightarrow> kernel \<Rightarrow> sys" where
  "NewSyscalls s k = \<lparr>sys_kernel = k, sys_stats = s\<rparr>"

definition tracedReader_Close :: "os_env \<Rightarrow> tracedReader \<Rightarrow> (sys, unit result) prog" where
  "tracedReader_Close env tr =
     bnd (in_stats (AccountOsOp (tr_domain tr) CloseOsOp)) (\<lambda>_. in_kernel (file_Close env (tr_file tr)))"

definition tracedReader_Read :: "os_env \<Rightarrow> tracedReader \<Rightarrow> nat \<Rightarrow> (sys, byte list \<times> error option) prog" where
  "tracedReader_Read env tr len_p =
     bnd (in_stats (AccountOsOp (tr_domain tr) ReadOsOp)) (\<lambda>_.
     bnd (in_kernel (file_Read env (tr_file tr) len_p)) (\<lambda>(got, err).
     let n = length got in
     if err = None \<and> n > 0 then
       bnd (in_stats (AccountReadBytes (tr_domain tr) (of_nat n))) (\<lambda>_. ret (got, err))
     else ret (got, err)))"

definition tracedReader_ReadAt ::
  "os_env \<Rightarrow> tracedReader \<Rightarrow> nat \<Rightarrow> int64 \<Rightarrow> (sys, byte list \<times> error option) prog" where
  "tracedReader_ReadAt env tr len_p off =
     bnd (in_stats (AccountOsOp (tr_domain tr) ReadOsOp)) (\<lambda>_.
     bnd (in_kernel (file_ReadAt env (tr_file tr) len_p off)) (\<lambda>(got, err).
     let n = length got in
     if err = None \<and> n > 0 then
       bnd (in_stats (AccountReadBytes (tr_domain tr) (of_nat n))) (\<lambda>_. ret (got, err))
     else ret (got, err)))"

text \<open>The program only ever asks for all entries: \<^verbatim>\<open>Readdir(0)\<close>.\<close>

definition tracedReader_Readdir :: "os_env \<Rightarrow> tracedReader \<Rightarrow> (sys, FileInfo list \<times> error option) prog" where
  "tracedReader_Readdir env tr =
     bnd (in_stats (AccountOsOp (tr_domain tr) ReaddirOsOp)) (\<lambda>_. in_kernel (file_Readdir env (tr_file tr)))"

definition syscalls_Lstat :: "os_env \<Rightarrow> OpDomain \<Rightarrow> string \<Rightarrow> (sys, FileInfo result) prog" where
  "syscalls_Lstat env domain path =
     bnd (in_stats (AccountOsOp domain LstatOsOp)) (\<lambda>_. in_kernel (os_Lstat env path))"

definition syscalls_Mkdir :: "os_env \<Rightarrow> OpDomain \<Rightarrow> string \<Rightarrow> FileMode \<Rightarrow> (sys, unit result) prog" where
  "syscalls_Mkdir env domain path mode =
     bnd (in_stats (AccountOsOp domain MkdirOsOp)) (\<lambda>_. in_kernel (os_Mkdir env path mode))"

definition syscalls_Open :: "os_env \<Rightarrow> OpDomain \<Rightarrow> string \<Rightarrow> (sys, tracedReader result) prog" where
  "syscalls_Open env domain path =
     bnd (in_stats (AccountOsOp domain OpenOsOp)) (\<lambda>_.
     try_bnd (in_kernel (os_Open env path)) (\<lambda>file.
     ret (Inr \<lparr>tr_domain = domain, tr_file = file\<rparr>)))"

definition syscalls_Readlink :: "os_env \<Rightarrow> OpDomain \<Rightarrow> string \<Rightarrow> (sys, string result) prog" where
  "syscalls_Readlink env domain path =
     bnd (in_stats (AccountOsOp domain ReadlinkOsOp)) (\<lambda>_. in_kernel (os_Readlink env path))"

definition syscalls_Rename :: "os_env \<Rightarrow> OpDomain \<Rightarrow> string \<Rightarrow> string \<Rightarrow> (sys, unit result) prog" where
  "syscalls_Rename env domain from to =
     bnd (in_stats (AccountOsOp domain RenameOsOp)) (\<lambda>_. in_kernel (os_Rename env from to))"

definition syscalls_Remove :: "os_env \<Rightarrow> OpDomain \<Rightarrow> string \<Rightarrow> (sys, unit result) prog" where
  "syscalls_Remove env domain path =
     bnd (in_stats (AccountOsOp domain RemoveOsOp)) (\<lambda>_. in_kernel (os_Remove env path))"

section \<open>Invariants of the kernel and of the statistics\<close>

lemma keeps_in_kernel:
  "keeps (\<lambda>k. I k) m \<Longrightarrow> keeps (\<lambda>s. I (sys_kernel s)) (in_kernel m)"
  "keeps (\<lambda>s. J (sys_stats s)) (in_kernel m)"
  by (auto simp: in_kernel_def keeps_def zoom_def split: prod.split)

lemma keeps_in_stats:
  "keeps (\<lambda>k. J k) m \<Longrightarrow> keeps (\<lambda>s. J (sys_stats s)) (in_stats m)"
  "keeps (\<lambda>s. I (sys_kernel s)) (in_stats m)"
  by (auto simp: in_stats_def keeps_def zoom_def split: prod.split)

lemma returns_in_kernel:
  assumes "\<And>s. P s \<Longrightarrow> returns (\<lambda>k. k = sys_kernel s) m (\<lambda>x k. Q x (s\<lparr>sys_kernel := k\<rparr>))"
  shows "returns P (in_kernel m) Q"
  unfolding in_kernel_def using assms by (rule returns_zoom)

lemma returns_in_stats:
  "returns (\<lambda>s. stats_wf (sys_stats s) \<and> P (sys_kernel s)) (in_stats (account ev))
    (\<lambda>_ s. stats_wf (sys_stats s) \<and> P (sys_kernel s))"
proof (rule returnsI)
  fix s :: sys
  assume "stats_wf (sys_stats s) \<and> P (sys_kernel s)"
  then show "\<exists>x t. in_stats (account ev) s = (Ret x, t) \<and> stats_wf (sys_stats t) \<and> P (sys_kernel t)"
    using sts.report_run [of "sys_stats s" ev] account_wf [of "sys_stats s" ev]
    by (cases "account ev (sys_stats s)") (simp add: in_stats_def zoom_def)
qed

text \<open>
  A specification of a kernel operation is a specification of the counted operation: counting never
  fails and never touches the kernel.
\<close>

definition sys_ok :: "(kernel \<Rightarrow> bool) \<Rightarrow> sys \<Rightarrow> bool" where
  "sys_ok P s \<longleftrightarrow> stats_wf (sys_stats s) \<and> P (sys_kernel s)"

lemma returns_kernel:
  assumes "returns P m Q"
  shows "returns (sys_ok P) (in_kernel m) (\<lambda>x. sys_ok (Q x))"
proof (rule returns_in_kernel)
  show "returns (\<lambda>k. k = sys_kernel s) m (\<lambda>x k. sys_ok (Q x) (s\<lparr>sys_kernel := k\<rparr>))" if "sys_ok P s" for s
    using assms by (rule returns_conseq) (use that in \<open>auto simp: sys_ok_def\<close>)
qed

lemma returns_account: "returns (sys_ok P) (in_stats (account ev)) (\<lambda>_. sys_ok P)"
  unfolding sys_ok_def [abs_def] by (rule returns_in_stats)

lemmas returns_AccountOsOp = returns_account [where ev = "EvOsOp d op" for d op, simplified]
lemmas returns_AccountReadBytes = returns_account [where ev = "EvReadBytes d n" for d n, simplified]

lemma returns_counted:
  assumes "returns P m Q"
  shows "returns (sys_ok P) (bnd (in_stats (AccountOsOp d op)) (\<lambda>_. in_kernel m)) (\<lambda>x. sys_ok (Q x))"
  by (rule returns_bnd [OF returns_AccountOsOp returns_kernel [OF assms]])

lemma returns_counted_read:
  assumes "returns P m (\<lambda>(got, err). Q got err)"
  shows "returns (sys_ok P)
    (bnd (in_stats (AccountOsOp d op)) (\<lambda>_. bnd (in_kernel m) (\<lambda>(got, err). let n = length got in
       if err = None \<and> n > 0 then bnd (in_stats (AccountReadBytes d (of_nat n))) (\<lambda>_. ret (got, err))
       else ret (got, err)))) (\<lambda>(got, err). sys_ok (Q got err))"
proof (rule returns_bnd [OF returns_counted [OF assms, of d op], unfolded bnd_assoc])
  show "returns (sys_ok (case x of (got, err) \<Rightarrow> Q got err))
      (case x of (got, err) \<Rightarrow> let n = length got in
       if err = None \<and> n > 0 then bnd (in_stats (AccountReadBytes d (of_nat n))) (\<lambda>_. ret (got, err))
       else ret (got, err)) (\<lambda>(got, err). sys_ok (Q got err))" for x
    by (cases x) (auto simp: Let_def intro!: returns_ret returns_bnd [OF returns_AccountReadBytes])
qed

lemma syscalls_returns:
  "returns P (os_Lstat env p) QL \<Longrightarrow> returns (sys_ok P) (syscalls_Lstat env d p) (\<lambda>x. sys_ok (QL x))"
  "returns P (os_Mkdir env p mode) QM \<Longrightarrow> returns (sys_ok P) (syscalls_Mkdir env d p mode) (\<lambda>x. sys_ok (QM x))"
  "returns P (os_Readlink env p) QK \<Longrightarrow> returns (sys_ok P) (syscalls_Readlink env d p) (\<lambda>x. sys_ok (QK x))"
  "returns P (os_Rename env p q) QN \<Longrightarrow> returns (sys_ok P) (syscalls_Rename env d p q) (\<lambda>x. sys_ok (QN x))"
  "returns P (os_Remove env p) QV \<Longrightarrow> returns (sys_ok P) (syscalls_Remove env d p) (\<lambda>x. sys_ok (QV x))"
  "returns P (file_Close env (tr_file tr)) QC \<Longrightarrow>
    returns (sys_ok P) (tracedReader_Close env tr) (\<lambda>x. sys_ok (QC x))"
  "returns P (file_Readdir env (tr_file tr)) QD \<Longrightarrow>
    returns (sys_ok P) (tracedReader_Readdir env tr) (\<lambda>x. sys_ok (QD x))"
  unfolding syscalls_Lstat_def syscalls_Mkdir_def syscalls_Readlink_def syscalls_Rename_def
    syscalls_Remove_def tracedReader_Close_def tracedReader_Readdir_def
  by (rule returns_counted; assumption)+

lemma tracedReader_returns:
  "returns P (file_Read env (tr_file tr) n) (\<lambda>(got, err). Q got err) \<Longrightarrow>
    returns (sys_ok P) (tracedReader_Read env tr n) (\<lambda>(got, err). sys_ok (Q got err))"
  "returns P (file_ReadAt env (tr_file tr) n off) (\<lambda>(got, err). Q got err) \<Longrightarrow>
    returns (sys_ok P) (tracedReader_ReadAt env tr n off) (\<lambda>(got, err). sys_ok (Q got err))"
  unfolding tracedReader_Read_def tracedReader_ReadAt_def by (rule returns_counted_read; assumption)+

lemma syscalls_Open_returns:
  assumes "returns P (os_Open env p) Q"
  shows "returns (sys_ok P) (syscalls_Open env d p)
    (\<lambda>r. sys_ok (Q (case r of Inl e \<Rightarrow> Inl e | Inr tr \<Rightarrow> Inr (tr_file tr))))"
  unfolding syscalls_Open_def
  by (rule returns_bnd [OF returns_AccountOsOp], rule returns_try_bnd [OF returns_kernel [OF assms]])
     (simp_all add: returns_ret)

end
