(* ===== verification/Content.thy ===== *)
theory Content
  imports Md5 Syscalls
begin

text \<open>
  \<^verbatim>\<open>internal/cache/content.go\<close>: the content cache keeps one file per distinct content, named after
  its MD5 digest, in a bucket directory named after the first two digits. \<^verbatim>\<open>PutContents\<close> copies a
  remote file to a temporary file while it digests it and renames the result into place.
\<close>

section \<open>State and operations\<close>

text \<open>The root directory; the \<^verbatim>\<open>syscalls\<close> field is the counted kernel of the state.\<close>

record ContentCache =
  cc_root :: string

definition NewContentCache :: "string \<Rightarrow> ContentCache" where
  "NewContentCache root = \<lparr>cc_root = root\<rparr>"

definition Root :: "ContentCache \<Rightarrow> string" where
  "Root cache = cc_root cache"

definition bucketForKey :: "Key \<Rightarrow> ('s, string) prog" where
  "bucketForKey key =
     (if length key < 2 then panic ''slice bounds out of range'' else ret (take 2 key))"

definition pathForKey :: "ContentCache \<Rightarrow> Key \<Rightarrow> ('s, string) prog" where
  "pathForKey cache key = bnd (bucketForKey key) (\<lambda>bucket. ret (path_JoinL [cc_root cache, bucket, key]))"

definition HasKey :: "os_env \<Rightarrow> ContentCache \<Rightarrow> Key \<Rightarrow> (sys, bool result) prog" where
  "HasKey env cache key =
     bnd (pathForKey cache key) (\<lambda>path.
     bnd (syscalls_Lstat env LocalDomain path) (\<lambda>r. case r of
       Inr _ \<Rightarrow> ret (Inr True)
     | Inl err \<Rightarrow> if IsNotExist err then ret (Inr False) else ret (Inl err)))"

definition GetFileForContents :: "os_env \<Rightarrow> ContentCache \<Rightarrow> Key \<Rightarrow> (sys, string result) prog" where
  "GetFileForContents env cache key =
     try_bnd (HasKey env cache key) (\<lambda>found.
     if \<not> found then ret (Inl (ErrorString (''attempted to get non-existent key '' @ key)))
     else bnd (pathForKey cache key) (\<lambda>path. ret (Inr path)))"

text \<open>
  One round of the loop of \<^verbatim>\<open>copy2\<close>: \<open>Inl\<close> leaves the loop with the number of bytes written and the
  error, \<open>Inr\<close> goes round. The result of the second writer is dropped.
\<close>

definition copy2_round ::
  "(byte list \<Rightarrow> ('s, nat \<times> error option) prog) \<Rightarrow> (byte list \<Rightarrow> ('s, nat \<times> error option) prog) \<Rightarrow>
   (nat \<Rightarrow> ('s, byte list \<times> error option) prog) \<Rightarrow> int64 \<Rightarrow>
   ('s, (int64 \<times> error option) + int64) prog" where
  "copy2_round dst1 dst2 src written =
     bnd (src (32 * 1024)) (\<lambda>(buf, er).
     let rest = (\<lambda>written. if er = Some EOF then ret (Inl (written, None))
                    else case er of Some e \<Rightarrow> ret (Inl (written, Some e)) | None \<Rightarrow> ret (Inr written))
     in if 0 < length buf then
          bnd (dst1 buf) (\<lambda>(nw, ew).
          let written = (if 0 < nw then written + of_nat nw else written)
          in case ew of
               Some e \<Rightarrow> ret (Inl (written, Some e))
             | None \<Rightarrow>
                 if length buf \<noteq> nw then ret (Inl (written, Some ErrShortWrite))
                 else bnd (dst2 buf) (\<lambda>_. rest written))
        else rest written)"

definition copy2 ::
  "(byte list \<Rightarrow> ('s, nat \<times> error option) prog) \<Rightarrow> (byte list \<Rightarrow> ('s, nat \<times> error option) prog) \<Rightarrow>
   (nat \<Rightarrow> ('s, byte list \<times> error option) prog) \<Rightarrow> ('s, int64 \<times> error option) prog" where
  "copy2 dst1 dst2 src = of_loop (loop (copy2_round dst1 dst2 src) 0)"

text \<open>\<^verbatim>\<open>hash.Hash.Write\<close> on a hash object held in a local variable; it never returns an error.\<close>

definition hash_Write :: "byte list \<Rightarrow> ('s \<times> byte list, nat \<times> error option) prog" where
  "hash_Write p = (\<lambda>(s, h). (Ret (length p, None), (s, h @ p)))"

definition PutContents :: "os_env \<Rightarrow> ContentCache \<Rightarrow> string \<Rightarrow> (sys, Key result) prog" where
  "PutContents env cache path =
     bnd (syscalls_Open env RemoteDomain path) (\<lambda>r. case r of
       Inl err \<Rightarrow> ret (Inl (Errorf (''failed to open '' @ path) err))
     | Inr input \<Rightarrow>
     defer_call (tracedReader_Close env input) (
     bnd (in_kernel (ioutil_TempFile env (cc_root cache) ''partial'')) (\<lambda>r. case r of
       Inl err \<Rightarrow> ret (Inl (Errorf ''cannot create temporary file'' err))
     | Inr temp \<Rightarrow>
     defer_call (in_kernel (file_Close env temp)) (
     defer_call (syscalls_Remove env LocalDomain (f_name temp)) (
     bnd (with_local [] (copy2 (\<lambda>p. outer (in_kernel (file_Write env temp p))) hash_Write
            (\<lambda>n. outer (tracedReader_Read env input n)))) (\<lambda>((_, err), h). case err of
       Some err \<Rightarrow> ret (Inl (Errorf (''failed to fetch '' @ path) err))
     | None \<Rightarrow>
     bnd (tracedReader_Close env input) (\<lambda>_.
     bnd (in_kernel (file_Close env temp)) (\<lambda>_.
     let key = hex_EncodeToString (md5_Sum h) in
     bnd (HasKey env cache key) (\<lambda>r. case r of
       Inl err \<Rightarrow> ret (Inl (Errorf ''failed to check for existence'' err))
     | Inr found \<Rightarrow>
     if found then ret (Inr key)
     else
     bnd (bucketForKey key) (\<lambda>bucket.
     bnd (syscalls_Mkdir env LocalDomain (path_Join (cc_root cache) bucket) 0x1ED) (\<lambda>r.
     case (case r of Inl err \<Rightarrow> if IsExist err then None else Some err | Inr _ \<Rightarrow> None) of
       Some err \<Rightarrow> ret (Inl (Errorf (''failed to create bucket '' @ bucket) err))
     | None \<Rightarrow>
     bnd (pathForKey cache key) (\<lambda>dest.
     try_bnd (syscalls_Rename env LocalDomain (f_name temp) dest) (\<lambda>_.
     ret (Inr key))))))))))))))"

section \<open>What the cache holds\<close>

definition valid_key :: "Key \<Rightarrow> bool" where
  "valid_key key \<longleftrightarrow> length key = 32 \<and> list_all (\<lambda>c. c \<in> set hex_digits) key"

definition key_path :: "string \<Rightarrow> Key \<Rightarrow> string" where
  "key_path root key = path_Join (path_Join root (take 2 key)) key"

text \<open>Whatever stands at the place of a key is a file whose digest is the key.\<close>

definition content_ok :: "string \<Rightarrow> kernel \<Rightarrow> bool" where
  "content_ok root k \<longleftrightarrow> list_all (\<lambda>(p, i). let key = path_Base p in
     valid_key key \<and> key_path root key = p \<longrightarrow>
     (case Option.bind (k_nodes k i) node_bytes of Some bs \<Rightarrow> md5_hex bs = key | None \<Rightarrow> False)) (k_files k)"

text \<open>Suffixes of temporary files are decimal numbers.\<close>

definition env_ok :: "os_env \<Rightarrow> bool" where
  "env_ok env \<longleftrightarrow> (\<forall>t. list_all is_digit (env_suffix env t))"

lemma env_ok_suffix: "env_ok env \<Longrightarrow> CHR ''/'' \<notin> set (env_suffix env t) \<and> CHR 0x01 \<notin> set (env_suffix env t)"
  unfolding env_ok_def list_all_iff using is_digit_no_sep by blast

lemma valid_key_md5: "valid_key (md5_hex bs)"
  using set_hex [of "md5_Sum bs"] by (auto simp: valid_key_def length_md5_hex list_all_iff)

lemma valid_key_names:
  assumes "valid_key key"
  shows "valid_name key" "valid_name (take 2 key)" "\<not> length key < 2"
proof -
  have "CHR ''/'' \<notin> set hex_digits" "CHR ''.'' \<notin> set hex_digits" by (simp_all add: hex_digits_def)
  then have c: "c \<noteq> CHR ''/''" "c \<noteq> CHR ''.''" if "c \<in> set key" for c
    using assms that unfolding valid_key_def list_all_iff by metis+
  have l: "length key = 32" using assms by (simp add: valid_key_def)
  then obtain a b r where "key = a # b # r" by (cases key; cases "tl key") auto
  then show "valid_name (take 2 key)" "valid_name key" "\<not> length key < 2"
    using c by (auto simp: valid_name_def)
qed

lemma pathForKey_run:
  assumes "clean_abs (cc_root cache)" "valid_key key"
  shows "pathForKey cache key = ret (key_path (cc_root cache) key)"
  using valid_key_names [OF assms(2)] assms(1)
  by (simp add: pathForKey_def bucketForKey_def key_path_def path_JoinL_three fun_eq_iff)

lemma key_path_clean: "clean_abs root \<Longrightarrow> valid_key key \<Longrightarrow> clean_abs (key_path root key)"
  by (simp add: key_path_def valid_key_names path_Join_clean_abs)

lemma key_path_base: "clean_abs root \<Longrightarrow> valid_key key \<Longrightarrow> path_Base (key_path root key) = key"
  by (simp add: key_path_def path_Base_Join path_Join_clean_abs valid_key_names)

lemma key_path_inj:
  "clean_abs root \<Longrightarrow> valid_key key \<Longrightarrow> valid_key key' \<Longrightarrow> key_path root key = key_path root key' \<Longrightarrow> key = key'"
  by (metis key_path_base)

lemma key_path_parent:
  "clean_abs root \<Longrightarrow> valid_key key \<Longrightarrow> path_Join (key_path root key) ''..'' = path_Join root (take 2 key)"
  by (simp add: key_path_def path_Join_dotdot path_Join_clean_abs valid_key_names)

lemma path_elems_key_path:
  "clean_abs root \<Longrightarrow> valid_key key \<Longrightarrow> path_elems (key_path root key) = path_elems root @ [take 2 key, key]"
  by (simp add: key_path_def path_elems_Join path_Join_clean_abs valid_key_names)

lemma key_path_ne_child:
  assumes "clean_abs root" "valid_key key" "valid_name n"
  shows "key_path root key \<noteq> path_Join root n"
  using path_elems_key_path [OF assms(1,2)] path_elems_Join [OF assms(1,3)] by auto

lemma content_ok_iff:
  assumes "kernel_wf k" "clean_abs root"
  shows "content_ok root k \<longleftrightarrow> (\<forall>key. valid_key key \<longrightarrow> node_at k (key_path root key) \<noteq> None \<longrightarrow>
    (\<exists>bs. file_at k (key_path root key) = Some bs \<and> md5_hex bs = key))"
    (is "_ \<longleftrightarrow> (\<forall>key. ?ok key)")
proof
  have dist: "distinct (map fst (k_files k))" using assms(1) by (simp add: kernel_wf_def)
  show "content_ok root k \<Longrightarrow> \<forall>key. ?ok key"
    by (fastforce simp: content_ok_def list_all_iff file_at_def node_at_def Let_def key_path_base assms(2)
        bind_eq_Some_conv dest!: map_of_SomeD split: option.splits)
  assume ok: "\<forall>key. ?ok key"
  have "case Option.bind (k_nodes k i) node_bytes of None \<Rightarrow> False | Some bs \<Rightarrow> md5_hex bs = key"
    if "(key_path root key, i) \<in> set (k_files k)" "valid_key key" for key i
  proof -
    have m: "map_of (k_files k) (key_path root key) = Some i" using that(1) dist by simp
    moreover have "k_nodes k i \<noteq> None" using that(1) assms(1) by (auto simp: kernel_wf_def list_all_iff)
    ultimately have "node_at k (key_path root key) \<noteq> None" by (auto simp: node_at_def)
    then show ?thesis using ok that(2) m by (auto simp: file_at_def node_at_def)
  qed
  then show "content_ok root k" by (auto simp: content_ok_def list_all_iff Let_def)
qed

end
