(* ===== verification/Content_Laws.thy ===== *)
theory Content_Laws
  imports Content
begin

text \<open>
  Correctness of the content cache: the copy loop ends and digests exactly what it stored, and
  \<^verbatim>\<open>PutContents\<close> returns, keeps every cached file, and stores the remote bytes under their digest.
\<close>

section \<open>Opening the source\<close>

definition open_bytes :: "kernel \<Rightarrow> string \<Rightarrow> errno + byte list" where
  "open_bytes k p = (case follow 40 k p of
       Inl e \<Rightarrow> Inl e
     | Inr q \<Rightarrow> (case node_at k q of None \<Rightarrow> Inl ENOENT | Some nd \<Rightarrow> kind_bytes (n_kind nd)))"

lemma follow_nodes: "node_at k' = node_at k \<Longrightarrow> follow n k' p = follow n k p"
proof (induction n arbitrary: p)
  case 0
  then show ?case by (simp add: follow.simps [of 0] split: option.split kind.split)
next
  case (Suc n)
  then show ?case by (simp add: follow.simps [of "Suc n"] split: option.split kind.split)
qed

text \<open>The remote file is open at its beginning and nothing else has happened.\<close>

definition reading :: "(string \<rightharpoonup> knode) \<Rightarrow> os_File \<Rightarrow> errno + byte list \<Rightarrow> kernel \<Rightarrow> bool" where
  "reading N inp src k \<longleftrightarrow> kernel_wf k \<and> node_at k = N \<and>
     (\<exists>o'. k_open k (f_id inp) = Some o' \<and> o_pos o' = 0 \<and> file_bytes k (o_ino o') = src)"

lemma os_Open_spec:
  "returns (\<lambda>k. kernel_wf k \<and> node_at k = N \<and> open_bytes k p = src) (os_Open env p)
    (\<lambda>r k. case r of
        Inl _ \<Rightarrow> kernel_wf k \<and> node_at k = N \<and> (env_quiet env \<longrightarrow> (\<forall>bs. src \<noteq> Inr bs))
      | Inr f \<Rightarrow> reading N f src k)"
proof (rule returnsI)
  fix k
  assume k: "kernel_wf k \<and> node_at k = N \<and> open_bytes k p = src"
  let ?k = "k\<lparr>k_tick := Suc (k_tick k)\<rparr>"
  have wf: "kernel_wf (snd (os_Open env p k))" using k keepsD [OF keeps_wf_open] by blast
  have tr: "node_at (snd (os_Open env p k)) = N"
    using k node_at_tree keeps_frame [OF keeps_tree_open] by metis
  have ex: "\<exists>nd. k_nodes k i = Some nd" if "map_of (k_files k) q = Some i" for q i
    using that k by (auto simp: kernel_wf_def list_all_iff dest!: map_of_SomeD)
  have f: "follow 40 ?k p = follow 40 k p" by (rule follow_nodes) simp
  show "\<exists>r k'. os_Open env p k = (Ret r, k') \<and> (case r of
        Inl _ \<Rightarrow> kernel_wf k' \<and> node_at k' = N \<and> (env_quiet env \<longrightarrow> (\<forall>bs. src \<noteq> Inr bs))
      | Inr f \<Rightarrow> reading N f src k')"
    using k wf tr
    by (auto dest: ex simp: os_Open_def syscall_run f env_quiet_def open_bytes_def open_fd_def reading_def node_at_def
        file_bytes_def split: option.splits sum.splits)
qed

section \<open>Copying\<close>

text \<open>
  The source has delivered the bytes \<open>g\<close> so far and the temporary file \<open>tp\<close>, which did not exist
  before, holds the bytes \<open>h\<close>.
\<close>

definition staged :: "(string \<rightharpoonup> knode) \<Rightarrow> string \<Rightarrow> byte list \<Rightarrow> kernel \<Rightarrow> bool" where
  "staged N tp h k \<longleftrightarrow> kernel_wf k \<and> N tp = None \<and>
     (\<exists>nd. node_at k = N(tp \<mapsto> nd) \<and> n_kind nd = KFile h)"

definition copying ::
  "(string \<rightharpoonup> knode) \<Rightarrow> string \<Rightarrow> os_File \<Rightarrow> os_File \<Rightarrow> errno + byte list \<Rightarrow> byte list \<Rightarrow> byte list \<Rightarrow> kernel \<Rightarrow> bool" where
  "copying N tp inp tmp src g h k \<longleftrightarrow> staged N tp h k \<and>
     (\<exists>i t. map_of (k_files k) tp = Some (o_ino t) \<and> k_open k (f_id inp) = Some i \<and>
        k_open k (f_id tmp) = Some t \<and> f_id inp \<noteq> f_id tmp \<and> o_ino i \<noteq> o_ino t \<and>
        o_pos t = length h \<and> o_pos i = length g \<and> file_bytes k (o_ino i) = src \<and>
        (\<forall>bs. src = Inr bs \<longrightarrow> take (length g) bs = g))"

lemma copying_staged: "copying N tp inp tmp src g h k \<Longrightarrow> staged N tp h k"
  by (simp add: copying_def)

lemma keeps_staged:
  assumes "\<And>c. keeps (\<lambda>k. tree k = c) m" "keeps kernel_wf m"
  shows "keeps (staged N tp h) m"
  using keeps_nodes [OF assms, of "\<lambda>M. N tp = None \<and> (\<exists>nd. M = N(tp \<mapsto> nd) \<and> n_kind nd = KFile h)"]
  by (simp add: staged_def [abs_def])

lemma OpenFile_excl_spec:
  "returns (reading N inp src) (os_OpenFile_excl env p perm)
    (\<lambda>r k. case r of
        Inl e \<Rightarrow> reading N inp src k \<and> (env_quiet env \<longrightarrow> N p \<noteq> None \<or> \<not> is_dir_at k (path_Join p ''..''))
      | Inr f \<Rightarrow> f_name f = p \<and> copying N p inp f src [] [] k)"
proof (rule returnsI)
  fix k
  assume k: "reading N inp src k"
  let ?k = "k\<lparr>k_tick := Suc (k_tick k)\<rparr>"
  let ?nd = "new_node env (k_tick k) (KFile []) perm"
  have wf: "kernel_wf (snd (os_OpenFile_excl env p perm k))"
    using k keepsD [OF keeps_wf_names(2)] by (simp add: reading_def)
  have "node_at ?k p = None \<Longrightarrow> node_at (add_node p ?nd ?k) = (node_at ?k)(p \<mapsto> ?nd)"
    using k by (intro node_at_add_node) (simp_all add: reading_def)
  then have na: "node_at k p = None \<Longrightarrow> node_at (snd (open_fd p p (k_nextino ?k) (add_node p ?nd ?k))) = N(p \<mapsto> ?nd)"
    using k node_at_tree [of "snd (open_fd p p (k_nextino ?k) (add_node p ?nd ?k))" "add_node p ?nd ?k"]
    by (simp add: reading_def open_fd_def tree_def)
  have fresh: "node_at k p = None \<Longrightarrow> p \<notin> fst ` set (k_files k)" using k node_at_Some reading_def by blast
  obtain i where i: "k_open k (f_id inp) = Some i" "o_pos i = 0" "file_bytes k (o_ino i) = src"
    and N: "node_at k = N" and wf0: "kernel_wf k" using k by (auto simp: reading_def)
  then have lt: "f_id inp < k_nextfd k" "o_ino i < k_nextino k" by (auto simp: kernel_wf_def)
  show "\<exists>r k'. os_OpenFile_excl env p perm k = (Ret r, k') \<and> (case r of
        Inl e \<Rightarrow> reading N inp src k' \<and> (env_quiet env \<longrightarrow> N p \<noteq> None \<or> \<not> is_dir_at k' (path_Join p ''..''))
      | Inr f \<Rightarrow> f_name f = p \<and> copying N p inp f src [] [] k')"
  proof (cases "env_fault env (k_tick k) = None \<and> node_at k p = None \<and> is_dir_at k (path_Join p ''..'')")
    case True
    let ?r = "open_fd p p (k_nextino ?k) (add_node p ?nd ?k)"
    have run: "os_OpenFile_excl env p perm k = (Ret (Inr (fst ?r)), snd ?r)"
      using True by (simp add: os_OpenFile_excl_def syscall_run case_prod_beta)
    have fields: "map_of (k_files (snd ?r)) p = Some (k_nextino k)" "f_name (fst ?r) = p"
      "k_open (snd ?r) (f_id inp) = Some i" "f_id (fst ?r) = k_nextfd k" "file_bytes (snd ?r) (o_ino i) = src"
      "k_open (snd ?r) (k_nextfd k) = Some \<lparr>o_name = p, o_ino = k_nextino k, o_pos = 0\<rparr>"
      using i lt map_of_append_fresh [OF fresh] True
      by (simp_all add: open_fd_def add_node_def file_bytes_def del: map_of_append)
    have "staged N p [] (snd ?r)"
      using wf na True N run by (auto simp: staged_def new_node_def)
    then have "copying N p inp (fst ?r) src [] [] (snd ?r)"
      using fields lt i(2) by (simp add: copying_def)
    with run fields(2) show ?thesis by simp
  next
    case False
    then show ?thesis
      using k N by (auto simp: os_OpenFile_excl_def syscall_run env_quiet_def reading_def file_bytes_def
          split: option.split)
  qed
qed

lemma TempFile_spec:
  "returns (reading N inp src) (ioutil_TempFile env dir pre)
    (\<lambda>r k. case r of
        Inl e \<Rightarrow> reading N inp src k \<and> (env_quiet env \<longrightarrow>
          (\<exists>t. N (path_Join dir (pre @ env_suffix env t)) \<noteq> None \<or>
               \<not> is_dir_at k (path_Join (path_Join dir (pre @ env_suffix env t)) ''..'')))
      | Inr f \<Rightarrow> (\<exists>t. f_name f = path_Join dir (pre @ env_suffix env t)) \<and> copying N (f_name f) inp f src [] [] k)"
    (is "returns _ _ ?Q")
proof -
  have round: "returns (reading N inp src) (TempFile_loop (Suc n) env dir pre err) ?Q"
    if rest: "n = 0 \<or> (\<forall>e. returns (reading N inp src) (TempFile_loop n env dir pre e) ?Q)" for n err
    unfolding TempFile_loop.simps(2)
  proof (rule returns_bnd [OF returns_gets [where Q = "\<lambda>_. reading N inp src"]], assumption,
      rule returns_bnd [OF OpenFile_excl_spec])
    fix t r
    let ?p = "path_Join dir (pre @ env_suffix env t)"
    show "returns (\<lambda>k. case r of
        Inl e \<Rightarrow> reading N inp src k \<and> (env_quiet env \<longrightarrow> N ?p \<noteq> None \<or> \<not> is_dir_at k (path_Join ?p ''..''))
      | Inr f \<Rightarrow> f_name f = ?p \<and> copying N ?p inp f src [] [] k)
      (case r of Inl e \<Rightarrow> if IsExist e then TempFile_loop n env dir pre e else ret (Inl e) | Inr f \<Rightarrow> ret (Inr f)) ?Q"
    proof (cases r)
      case (Inl e)
      show ?thesis
      proof (cases "IsExist e \<and> n \<noteq> 0")
        case True
        with rest have "returns (reading N inp src) (TempFile_loop n env dir pre e) ?Q" by blast
        with Inl True show ?thesis by (auto intro: returns_conseq)
      next
        case False
        then show ?thesis using Inl by (cases n) (auto intro!: returns_ret, blast+)
      qed
    qed (auto intro!: returns_ret)
  qed
  have "returns (reading N inp src) (TempFile_loop (Suc n) env dir pre err) ?Q" for n err
    by (induction n arbitrary: err) (simp_all add: round del: TempFile_loop.simps)
  from this [of 9999] show ?thesis by (simp add: ioutil_TempFile_def del: TempFile_loop.simps)
qed

text \<open>Reading delivers the next bytes of the source, or tells that all have been delivered.\<close>

lemma file_Read_spec:
  assumes "0 < n"
  shows "returns (copying N tp inp tmp src g h) (file_Read env inp n)
    (\<lambda>(got, err) k. copying N tp inp tmp src (g @ got) h k \<and>
       (got = [] \<longrightarrow> err \<noteq> None) \<and> (got \<noteq> [] \<longrightarrow> err = None) \<and>
       (err = Some EOF \<longrightarrow> src = Inr g) \<and>
       (got \<noteq> [] \<longrightarrow> (\<exists>bs. src = Inr bs \<and> length (g @ got) \<le> length bs)) \<and>
       (env_quiet env \<longrightarrow> (\<exists>bs. src = Inr bs) \<longrightarrow> err = None \<or> err = Some EOF))"
proof (rule returnsI)
  fix k
  assume c: "copying N tp inp tmp src g h k"
  then obtain i t where it: "map_of (k_files k) tp = Some (o_ino t)" "k_open k (f_id inp) = Some i"
    "k_open k (f_id tmp) = Some t" "f_id inp \<noteq> f_id tmp" "o_ino i \<noteq> o_ino t" "o_pos t = length h"
    "o_pos i = length g" "file_bytes k (o_ino i) = src" and pre: "\<And>bs. src = Inr bs \<Longrightarrow> take (length g) bs = g"
    and st: "staged N tp h k"
    by (auto simp: copying_def)
  have st': "staged N tp h (snd (file_Read env inp n k))"
    by (rule keepsD [OF keeps_staged [OF keeps_tree_fd(1) keeps_wf_fd(1)] st])
  let ?k = "k\<lparr>k_tick := Suc (k_tick k)\<rparr>"
  have fb: "file_bytes ?k (o_ino i) = src" using it(8) by (simp add: file_bytes_def)
  have same: "copying N tp inp tmp src g h ?k"
    using c by (simp add: copying_def staged_def file_bytes_def)
  show "\<exists>x k'. file_Read env inp n k = (Ret x, k') \<and> (case x of (got, err) \<Rightarrow> (\<lambda>k'. copying N tp inp tmp src (g @ got) h k' \<and>
       (got = [] \<longrightarrow> err \<noteq> None) \<and> (got \<noteq> [] \<longrightarrow> err = None) \<and>
       (err = Some EOF \<longrightarrow> src = Inr g) \<and>
       (got \<noteq> [] \<longrightarrow> (\<exists>bs. src = Inr bs \<and> length (g @ got) \<le> length bs)) \<and>
       (env_quiet env \<longrightarrow> (\<exists>bs. src = Inr bs) \<longrightarrow> err = None \<or> err = Some EOF))) k'"
  proof (cases "env_fault env (k_tick k) = None \<and> (\<exists>bs. src = Inr bs \<and> length g < length bs)")
    case False
    have "g = bs" if "src = Inr bs" "length bs \<le> length g" for bs using pre [OF that(1)] that(2) by simp
    then show ?thesis
      using False same it(2,7) fb assms
      by (auto simp: file_Read_def syscall_run env_quiet_def not_less split: option.split sum.split)
  next
    case True
    then obtain bs where bs: "src = Inr bs" "length g < length bs" by blast
    define m where "m = min n (length bs - length g)"
    define c where "c = m - env_short env (k_tick k) mod m"
    have "0 < m" using assms bs by (simp add: m_def)
    moreover have "m \<le> length bs - length g" by (simp add: m_def)
    ultimately have cb: "0 < c" "c \<le> length bs - length g"
      using mod_less_divisor [of m] by (simp_all add: c_def le_diff_conv trans_le_add1)
    define got where "got = take c (drop (length g) bs)"
    define k' where "k' = ?k\<lparr>k_open := (k_open ?k)(f_id inp \<mapsto> i\<lparr>o_pos := o_pos i + c\<rparr>)\<rparr>"
    have len: "length got = c" using cb by (simp add: got_def)
    have run: "file_Read env inp n k = (Ret (got, None), k')"
      using True it(2,7) fb assms bs
      by (simp add: file_Read_def syscall_run Let_def got_def k'_def c_def m_def)
    have "take (length g + c) bs = g @ got" using pre [OF bs(1)] by (simp add: got_def take_add)
    then have "copying N tp inp tmp src (g @ got) h k'"
      using st' it fb bs len unfolding run by (simp add: copying_def k'_def file_bytes_def)
    with run len cb bs show ?thesis by auto
  qed
qed

text \<open>Writing appends to the temporary file, also when it fails part of the way.\<close>

lemma write_at_end: "write_at bs (length bs) ws = bs @ ws"
  by (simp add: write_at_def)

lemma file_Write_spec:
  "returns (copying N tp inp tmp src g h) (file_Write env tmp ws)
    (\<lambda>(nw, err) k. if err = None then nw = length ws \<and> copying N tp inp tmp src g (h @ ws) k
       else (\<exists>h'. staged N tp h' k) \<and> \<not> env_quiet env)"
proof (rule returnsI)
  fix k
  assume c: "copying N tp inp tmp src g h k"
  then obtain i t nd where it: "map_of (k_files k) tp = Some (o_ino t)" "k_open k (f_id inp) = Some i"
    "k_open k (f_id tmp) = Some t" "f_id inp \<noteq> f_id tmp" "o_ino i \<noteq> o_ino t" "o_pos t = length h"
    "o_pos i = length g" "file_bytes k (o_ino i) = src" and pre: "\<forall>bs. src = Inr bs \<longrightarrow> take (length g) bs = g"
    and st: "kernel_wf k" "N tp = None" "node_at k = N(tp \<mapsto> nd)" "n_kind nd = KFile h"
    by (auto simp: copying_def staged_def)
  define ws' where "ws' = (case env_fault env (k_tick k) of None \<Rightarrow> ws
    | Some _ \<Rightarrow> take (env_short env (k_tick k)) (butlast ws))"
  define nd' where "nd' = nd\<lparr>n_kind := KFile (h @ ws'), n_mtime := env_clock env (k_tick k)\<rparr>"
  let ?t = "t\<lparr>o_pos := o_pos t + length ws'\<rparr>"
  define k' where "k' = k\<lparr>k_tick := Suc (k_tick k), k_nodes := (k_nodes k)(o_ino t \<mapsto> nd'),
    k_open := (k_open k)(f_id tmp \<mapsto> ?t)\<rparr>"
  have nd: "k_nodes k (o_ino t) = Some nd" using st(3) it(1) by (auto simp: node_at_def dest: fun_cong [of _ _ tp])
  have run: "file_Write env tmp ws k = (Ret (length ws', map_option OsError (env_fault env (k_tick k))), k')"
    using it(3,6) nd st(4)
    by (simp add: file_Write_def syscall_run Let_def ws'_def nd'_def k'_def write_at_end)
  have wf: "kernel_wf k'" using keepsD_run [OF keeps_wf_fd(5) st(1) run] .
  have inj: "j = o_ino t \<Longrightarrow> q = tp" if "map_of (k_files k) q = Some j" for q j
    using that it(1) st(1) map_of_SomeD by (fastforce simp: kernel_wf_def distinct_map inj_on_def)
  have "node_at k' q = (N(tp \<mapsto> nd')) q" for q
    using fun_cong [OF st(3), of q] it(1) inj [of q]
    by (cases "map_of (k_files k) q") (auto simp: node_at_def k'_def split: if_splits)
  then have "staged N tp (h @ ws') k'" using wf st(2) by (auto simp: staged_def nd'_def fun_eq_iff)
  moreover from this have "copying N tp inp tmp src g (h @ ws') k'"
    using it pre by (auto simp: copying_def k'_def file_bytes_def)
  ultimately show "\<exists>x k'. file_Write env tmp ws k = (Ret x, k') \<and>
    (case x of (nw, err) \<Rightarrow> (\<lambda>k. if err = None then nw = length ws \<and> copying N tp inp tmp src g (h @ ws) k
       else (\<exists>h'. staged N tp h' k) \<and> \<not> env_quiet env)) k'"
    using run by (auto simp: ws'_def env_quiet_def split: option.splits)
qed

text \<open>
  The loop: while it runs, the digested bytes, the stored bytes and the bytes delivered agree, and each
  round that goes on leaves fewer bytes to deliver.
\<close>

definition bytes_left :: "errno + byte list \<Rightarrow> byte list \<Rightarrow> nat" where
  "bytes_left src h = (case src of Inl _ \<Rightarrow> 0 | Inr bs \<Rightarrow> length bs - length h)"

definition copied ::
  "os_env \<Rightarrow> (string \<rightharpoonup> knode) \<Rightarrow> string \<Rightarrow> errno + byte list \<Rightarrow> error option \<Rightarrow> sys \<Rightarrow> byte list \<Rightarrow> bool" where
  "copied env N tp src err s h \<longleftrightarrow>
     (if err = None then src = Inr h \<and> sys_ok (staged N tp h) s
      else (\<exists>h'. sys_ok (staged N tp h') s) \<and> (env_quiet env \<longrightarrow> (\<forall>bs. src \<noteq> Inr bs)))"

lemma copy2_round_spec:
  "returns (\<lambda>(s, h). sys_ok (copying N tp (tr_file inp) tmp src h h) s \<and> bytes_left src h = n)
    (copy2_round (\<lambda>p. outer (in_kernel (file_Write env tmp p))) hash_Write
       (\<lambda>n. outer (tracedReader_Read env inp n)) w)
    (\<lambda>r (s, h). case r of
        Inl (_, err) \<Rightarrow> copied env N tp src err s h
      | Inr _ \<Rightarrow> sys_ok (copying N tp (tr_file inp) tmp src h h) s \<and> bytes_left src h < n)"
proof (rule returnsI, clarsimp)
  fix s h
  let ?C = "copying N tp (tr_file inp) tmp src"
  let ?m = "copy2_round (\<lambda>p. outer (in_kernel (file_Write env tmp p))) hash_Write
    (\<lambda>n. outer (tracedReader_Read env inp n)) w (s, h)"
  assume pre: "sys_ok (?C h h) s"
  obtain got err s1 where rd: "tracedReader_Read env inp 32768 s = (Ret (got, err), s1)"
    and post: "sys_ok (?C (h @ got) h) s1" "got = [] \<Longrightarrow> err \<noteq> None" "got \<noteq> [] \<Longrightarrow> err = None"
      "err = Some EOF \<Longrightarrow> src = Inr h" "got \<noteq> [] \<Longrightarrow> \<exists>bs. src = Inr bs \<and> length (h @ got) \<le> length bs"
      "env_quiet env \<Longrightarrow> src = Inr bs \<Longrightarrow> err = None \<or> err = Some EOF" for bs
    by (rule returnsE [OF tracedReader_returns(1) [OF file_Read_spec] pre, of 32768 env])
       (auto simp: sys_ok_def)
  show "\<exists>r t u. ?m = (Ret r, t, u) \<and> (case r of
        Inl (_, err) \<Rightarrow> copied env N tp src err t u
      | Inr _ \<Rightarrow> sys_ok (?C u u) t \<and> bytes_left src u < bytes_left src h)"
  proof (cases "got = []")
    case True
    have "sys_ok (staged N tp h) s1" using post(1) by (auto simp: sys_ok_def copying_staged)
    then have "copied env N tp src (if err = Some EOF then None else err) s1 h"
      using post(2,4,6) True by (auto simp: copied_def)
    then show ?thesis
      using True post(2) by (auto simp: copy2_round_def bnd_def zoom_def rd split: if_splits)
  next
    case False
    obtain nw ew s2 where wr: "in_kernel (file_Write env tmp got) s1 = (Ret (nw, ew), s2)"
      and post2: "sys_ok (\<lambda>k. if ew = None then nw = length got \<and> ?C (h @ got) (h @ got) k
        else (\<exists>h'. staged N tp h' k) \<and> \<not> env_quiet env) s2"
      by (rule returnsE [OF returns_kernel [OF file_Write_spec] post(1), of env got]) auto
    show ?thesis
    proof (cases ew)
      case None
      from post(5) [OF False] have "bytes_left src (h @ got) < bytes_left src h"
        using False by (cases got) (auto simp: bytes_left_def)
      then show ?thesis
        using None False post(3) post2
        by (simp add: copy2_round_def bnd_def zoom_def rd wr hash_Write_def sys_ok_def)
    next
      case (Some e)
      with post2 have "copied env N tp src ew s2 h" by (auto simp: copied_def sys_ok_def)
      then show ?thesis
        using Some False by (simp add: copy2_round_def bnd_def zoom_def rd wr)
    qed
  qed
qed

lemma copy2_spec:
  "returns (\<lambda>(s, h). h = [] \<and> sys_ok (copying N tp (tr_file inp) tmp src [] []) s)
    (copy2 (\<lambda>p. outer (in_kernel (file_Write env tmp p))) hash_Write
       (\<lambda>n. outer (tracedReader_Read env inp n)))
    (\<lambda>(_, err) (s, h). copied env N tp src err s h)"
proof -
  have "returns (\<lambda>(s, h). sys_ok (copying N tp (tr_file inp) tmp src h h) s)
    (copy2 (\<lambda>p. outer (in_kernel (file_Write env tmp p))) hash_Write
       (\<lambda>n. outer (tracedReader_Read env inp n)))
    (\<lambda>(_, err) (s, h). copied env N tp src err s h)"
    unfolding copy2_def
    by (rule returns_loop [where measure_of = "\<lambda>_ (s, h). bytes_left src h"],
        rule returns_conseq [OF copy2_round_spec]) (auto split: sum.splits)
  then show ?thesis by (rule returns_conseq) auto
qed

section \<open>Looking a key up\<close>

lemma HasKey_spec:
  assumes "clean_abs (cc_root cache)" "valid_key key"
  shows "returns (sys_ok (\<lambda>k. kernel_wf k \<and> R (node_at k))) (HasKey env cache key)
    (\<lambda>r. sys_ok (\<lambda>k. kernel_wf k \<and> R (node_at k) \<and>
       (r = Inr True \<longrightarrow> node_at k (key_path (cc_root cache) key) \<noteq> None) \<and>
       (env_quiet env \<longrightarrow> r = Inr (node_at k (key_path (cc_root cache) key) \<noteq> None))))"
  unfolding HasKey_def pathForKey_run [OF assms] bnd_run_simps(1)
  by (rule returns_bnd [OF syscalls_returns(1) [OF os_Lstat_spec]])
     (auto simp: sys_ok_def IsNotExist_def intro!: returns_ret split: sum.splits)

lemma GetFileForContents_spec:
  assumes "clean_abs (cc_root cache)" "valid_key key"
  shows "returns (sys_ok (\<lambda>k. kernel_wf k \<and> R (node_at k))) (GetFileForContents env cache key)
    (\<lambda>r. sys_ok (\<lambda>k. kernel_wf k \<and> R (node_at k) \<and>
       (\<forall>p. r = Inr p \<longrightarrow> p = key_path (cc_root cache) key \<and> node_at k p \<noteq> None) \<and>
       (env_quiet env \<longrightarrow> (r = Inr (key_path (cc_root cache) key)) = (node_at k (key_path (cc_root cache) key) \<noteq> None))))"
  unfolding GetFileForContents_def pathForKey_run [OF assms] bnd_run_simps(1)
  by (rule returns_try_bnd [OF HasKey_spec [OF assms]])
     (auto simp: sys_ok_def intro!: returns_ret)

section \<open>Putting contents\<close>

text \<open>
  What a call may have changed: the temporary file and the bucket directory, neither of which existed,
  and the file of the key, which then holds \<open>h\<close>.
\<close>

definition cache_delta ::
  "string \<Rightarrow> (string \<rightharpoonup> knode) \<Rightarrow> string \<Rightarrow> byte list \<Rightarrow> (string \<rightharpoonup> knode) \<Rightarrow> bool" where
  "cache_delta root N tp h M \<longleftrightarrow>
     (let key = md5_hex h; b = path_Join root (take 2 key); kp = key_path root key in
      N tp = None \<and> (\<forall>p. p \<notin> {tp, b, kp} \<longrightarrow> M p = N p) \<and> (N b \<noteq> None \<longrightarrow> M b = N b) \<and>
      (M kp = N kp \<or> (\<exists>nd. M kp = Some nd \<and> n_kind nd = KFile h)))"

text \<open>The three paths differ.\<close>

definition temp_path :: "string \<Rightarrow> string \<Rightarrow> bool" where
  "temp_path root tp \<longleftrightarrow> (\<exists>x. CHR ''/'' \<notin> set x \<and> CHR 0x01 \<notin> set x \<and> tp = path_Join root (''partial'' @ x))"

lemma temp_path_distinct:
  assumes "clean_abs root" "temp_path root tp" "valid_key key"
  shows "tp \<noteq> path_Join root (take 2 key)" "tp \<noteq> key_path root key"
    "path_Join root (take 2 key) \<noteq> key_path root key" "path_Join tp ''..'' = root"
    "root \<noteq> tp" "root \<noteq> path_Join root (take 2 key)"
proof -
  obtain x where x: "CHR ''/'' \<notin> set x" "tp = path_Join root (''partial'' @ x)"
    using assms(2) by (auto simp: temp_path_def)
  have v: "valid_name (''partial'' @ x)" using x(1) by (simp add: valid_name_def)
  note names = valid_key_names [OF assms(3)]
  show "tp \<noteq> path_Join root (take 2 key)"
  proof
    assume "tp = path_Join root (take 2 key)"
    then have "''partial'' @ x = take 2 key" using path_Join_inj [OF assms(1) v names(2)] x(2) by simp
    then have "length (''partial'' @ x) = length (take 2 key)" by (rule arg_cong)
    then show False by simp
  qed
  show "tp \<noteq> key_path root key" "path_Join root (take 2 key) \<noteq> key_path root key"
    using key_path_ne_child [OF assms(1,3)] v names(2) x(2) by metis+
  show "root \<noteq> tp" "root \<noteq> path_Join root (take 2 key)"
    using path_Join_ne_parent [OF assms(1)] v names(2) x(2) by metis+
  show "path_Join tp ''..'' = root" using assms(1) v x(2) by (simp add: path_Join_dotdot)
qed

lemma cache_delta_content:
  assumes "clean_abs root" "temp_path root tp" "kernel_wf k0" "kernel_wf k" "content_ok root k0"
    and d: "cache_delta root (node_at k0) tp h (node_at k)"
  shows "content_ok root k"
proof -
  have "\<exists>bs. file_at k (key_path root key) = Some bs \<and> md5_hex bs = key"
    if key: "valid_key key" "node_at k (key_path root key) \<noteq> None" for key
  proof -
    have old: "\<exists>bs. file_at k0 (key_path root key) = Some bs \<and> md5_hex bs = key"
      if "node_at k (key_path root key) = node_at k0 (key_path root key)"
      using content_ok_iff [OF assms(3,1)] assms(5) key that by auto
    show ?thesis
    proof (cases "node_at k (key_path root key) = node_at k0 (key_path root key)")
      case True
      then show ?thesis using old by (simp add: file_at_def)
    next
      case False
      have "key_path root key \<noteq> path_Join root (take 2 (md5_hex h))"
        by (rule key_path_ne_child [OF assms(1) key(1) valid_key_names(2) [OF valid_key_md5]])
      moreover have "key_path root key \<noteq> tp" using temp_path_distinct(2) [OF assms(1,2) key(1)] by simp
      ultimately have "key_path root key = key_path root (md5_hex h)"
        using d False by (auto simp: cache_delta_def Let_def)
      then have "key = md5_hex h" using key_path_inj [OF assms(1) key(1) valid_key_md5] by simp
      moreover from this have "file_at k (key_path root key) = Some h"
        using d False by (auto simp: cache_delta_def Let_def file_at_def node_bytes_def)
      ultimately show ?thesis by simp
    qed
  qed
  then show ?thesis using content_ok_iff [OF assms(4,1)] by blast
qed

text \<open>The part of \<^verbatim>\<open>PutContents\<close> after the copy: the key is looked up and the file renamed into place.\<close>

definition store_copy :: "os_env \<Rightarrow> ContentCache \<Rightarrow> os_File \<Rightarrow> Key \<Rightarrow> (sys, Key result) prog" where
  "store_copy env cache temp key =
     bnd (HasKey env cache key) (\<lambda>r. case r of
       Inl err \<Rightarrow> ret (Inl (Errorf ''failed to check for existence'' err))
     | Inr found \<Rightarrow>
     if found then ret (Inr key)
     else
     bnd (bucketForKey key) (\<lambda>bucket.
     bnd (syscalls_Mkdir env LocalDomain (path_Join (cc_root cache) bucket) 0x1ED) (\<lambda>r.
     case (case r of Inl err \<Rightarrow> if IsExist err then None else Some err | Inr _ \<Rightarrow> None) of
       Some err \<Rightarrow> ret (Inl (Errorf (''failed to create bucket '' @ bucket) err))
     | None \<Rightarrow>
     bnd (pathForKey cache key) (\<lambda>dest.
     try_bnd (syscalls_Rename env LocalDomain (f_name temp) dest) (\<lambda>_.
     ret (Inr key))))))"

definition dir_in :: "(string \<rightharpoonup> knode) \<Rightarrow> string \<Rightarrow> bool" where
  "dir_in N p \<longleftrightarrow> (\<exists>nd. N p = Some nd \<and> n_kind nd = KDir)"

lemma is_dir_at_iff: "is_dir_at k p = dir_in (node_at k) p"
  by (simp add: is_dir_at_def dir_in_def split: option.split)

text \<open>The cache directory is in order for a key: buckets are directories and no key is one.\<close>

definition can_store :: "string \<Rightarrow> (string \<rightharpoonup> knode) \<Rightarrow> Key \<Rightarrow> bool" where
  "can_store root N key \<longleftrightarrow> dir_in N root \<and>
     (N (path_Join root (take 2 key)) \<noteq> None \<longrightarrow> dir_in N (path_Join root (take 2 key))) \<and>
     \<not> dir_in N (key_path root key)"

definition stored ::
  "os_env \<Rightarrow> string \<Rightarrow> (string \<rightharpoonup> knode) \<Rightarrow> string \<Rightarrow> byte list \<Rightarrow> Key result \<Rightarrow> kernel \<Rightarrow> bool" where
  "stored env root N tp h r k \<longleftrightarrow> kernel_wf k \<and> cache_delta root N tp h (node_at k) \<and>
     \<not> dir_in (node_at k) tp \<and>
     (\<forall>key. r = Inr key \<longrightarrow> key = md5_hex h \<and> node_at k (key_path root key) \<noteq> None) \<and>
     (env_quiet env \<and> can_store root N (md5_hex h) \<longrightarrow> r = Inr (md5_hex h))"

lemma rename_stored:
  fixes h root
  defines "key \<equiv> md5_hex h" and "b \<equiv> path_Join root (take 2 (md5_hex h))"
  assumes root: "clean_abs root" and tp: "temp_path root tp"
    and M: "M tp = Some nd" "n_kind nd = KFile h" "N tp = None" "\<And>p. p \<notin> {tp, b} \<Longrightarrow> M p = N p"
      "N b \<noteq> None \<Longrightarrow> M b = N b" "env_quiet env \<and> can_store root N key \<Longrightarrow> dir_in M b"
  shows "returns (sys_ok (\<lambda>k. kernel_wf k \<and> node_at k = M))
    (try_bnd (syscalls_Rename env LocalDomain tp (key_path root key)) (\<lambda>_. ret (Inr key)))
    (\<lambda>r. sys_ok (stored env root N tp h r))"
proof -
  let ?kp = "key_path root key"
  note dist = temp_path_distinct [OF root tp valid_key_md5 [of h], folded key_def]
  have up: "path_Join ?kp ''..'' = b" unfolding b_def key_def by (rule key_path_parent [OF root valid_key_md5])
  have b: "b = path_Join root (take 2 key)" by (simp add: b_def key_def)
  have moved: "stored env root N tp h (Inr key) k" if "kernel_wf k" "node_at k = M(tp := None, ?kp := M tp)" for k
    using that M(1-5) dist
    by (simp add: stored_def cache_delta_def Let_def dir_in_def b flip: key_def)
  have failed: "stored env root N tp h (Inl e) k" if "kernel_wf k" "node_at k = M"
    "env_quiet env \<longrightarrow> \<not> can_store root N key" for k e
    using that M(1-5) dist by (simp add: stored_def cache_delta_def Let_def dir_in_def b flip: key_def)
  have quiet: "env_quiet env \<longrightarrow> \<not> can_store root N key"
    if "env_quiet env \<longrightarrow> dir_in M ?kp \<or> M tp = None \<or> \<not> dir_in M b"
    using that M(1,4,6) dist by (auto simp: can_store_def dir_in_def b)
  have no_dir: "n_kind nd' \<noteq> KDir" if "M tp = Some nd'" for nd' using that M(1,2) by simp
  show ?thesis
    by (rule returns_try_bnd [OF syscalls_returns(4) [OF os_Rename_spec [OF no_dir dist(2)]]])
       (auto simp: sys_ok_def is_dir_at_iff up moved failed quiet intro!: returns_ret)
qed

text \<open>Unless the key is known, the bucket is made and the copy moved there.\<close>

definition move_copy :: "os_env \<Rightarrow> ContentCache \<Rightarrow> os_File \<Rightarrow> Key \<Rightarrow> (sys, Key result) prog" where
  "move_copy env cache temp key =
     bnd (bucketForKey key) (\<lambda>bucket.
     bnd (syscalls_Mkdir env LocalDomain (path_Join (cc_root cache) bucket) 0x1ED) (\<lambda>r.
     case (case r of Inl err \<Rightarrow> if IsExist err then None else Some err | Inr _ \<Rightarrow> None) of
       Some err \<Rightarrow> ret (Inl (Errorf (''failed to create bucket '' @ bucket) err))
     | None \<Rightarrow>
     bnd (pathForKey cache key) (\<lambda>dest.
     try_bnd (syscalls_Rename env LocalDomain (f_name temp) dest) (\<lambda>_.
     ret (Inr key)))))"

lemma unmoved_stored:
  assumes root: "clean_abs root" and tp: "temp_path root tp" and nd: "N tp = None" "n_kind nd = KFile h"
    and k: "kernel_wf k" "node_at k = N(tp \<mapsto> nd)" and r: "\<forall>key. r = Inr key \<longrightarrow> key = md5_hex h \<and> N (key_path root key) \<noteq> None"
      "env_quiet env \<and> can_store root N (md5_hex h) \<longrightarrow> r = Inr (md5_hex h)"
  shows "stored env root N tp h r k"
proof -
  note dist = temp_path_distinct(1,2) [OF root tp valid_key_md5 [of h]]
  have "cache_delta root N tp h (node_at k)" "\<not> dir_in (node_at k) tp"
    using nd dist by (simp_all add: k(2) cache_delta_def Let_def dir_in_def)
  moreover have "node_at k (key_path root (md5_hex h)) = N (key_path root (md5_hex h))" using dist by (simp add: k(2))
  ultimately show ?thesis using k(1) r unfolding stored_def by metis
qed

lemma move_copy_spec:
  assumes root: "clean_abs (cc_root cache)" and tp: "temp_path (cc_root cache) (f_name temp)"
    and nd: "N (f_name temp) = None" "n_kind nd = KFile h"
  shows "returns (sys_ok (\<lambda>k. kernel_wf k \<and> node_at k = N(f_name temp \<mapsto> nd))) (move_copy env cache temp (md5_hex h))
    (\<lambda>r. sys_ok (stored env (cc_root cache) N (f_name temp) h r))"
proof (rule returnsI)
  fix s
  let ?key = "md5_hex h" and ?tp = "f_name temp" and ?root = "cc_root cache"
  let ?b = "path_Join ?root (take 2 ?key)" and ?kp = "key_path ?root ?key" and ?M1 = "N(f_name temp \<mapsto> nd)"
  note key = valid_key_md5 [of h] and names = valid_key_names [OF valid_key_md5 [of h]]
  note dist = temp_path_distinct [OF root tp key] and up = path_Join_dotdot [OF root names(2)]
  assume s: "sys_ok (\<lambda>k. kernel_wf k \<and> node_at k = ?M1) s"
  obtain r2 s2 where run2: "syscalls_Mkdir env LocalDomain ?b 0x1ED s = (Ret r2, s2)"
    and p2: "sys_ok (\<lambda>k. kernel_wf k \<and> (case r2 of
      Inr _ \<Rightarrow> ?M1 ?b = None \<and> (\<exists>bd. node_at k = ?M1(?b \<mapsto> bd) \<and> n_kind bd = KDir)
    | Inl e \<Rightarrow> node_at k = ?M1 \<and> (env_quiet env \<longrightarrow>
        (IsExist e \<and> ?M1 ?b \<noteq> None) \<or> (e = OsError ENOENT \<and> \<not> is_dir_at k (path_Join ?b ''..''))))) s2"
    by (rule returnsE [OF syscalls_returns(2) [OF os_Mkdir_spec] s])
  show "\<exists>r t. move_copy env cache temp ?key s = (Ret r, t) \<and> sys_ok (stored env ?root N ?tp h r) t"
  proof (cases "case r2 of Inl e \<Rightarrow> IsExist e | Inr _ \<Rightarrow> True")
    case False
    then obtain e where e: "r2 = Inl e" "\<not> IsExist e" by (cases r2) auto
    then have "env_quiet env \<longrightarrow> \<not> can_store ?root N ?key"
      using p2 dist by (auto simp: sys_ok_def up is_dir_at_iff dir_in_def can_store_def)
    then have "stored env ?root N ?tp h (Inl (Errorf (''failed to create bucket '' @ take 2 ?key) e)) (sys_kernel s2)"
      using p2 e nd by (intro unmoved_stored [where N = N and nd = nd, OF root tp]) (auto simp: sys_ok_def)
    then show ?thesis using e p2 names(3) by (simp add: move_copy_def bnd_def run2 bucketForKey_def sys_ok_def)
  next
    case made: True
    let ?M2 = "node_at (sys_kernel s2)"
    have M2: "?M2 ?tp = Some nd" "\<And>p. p \<notin> {?tp, ?b} \<Longrightarrow> ?M2 p = N p" "N ?b \<noteq> None \<Longrightarrow> ?M2 ?b = N ?b"
      "env_quiet env \<and> can_store ?root N ?key \<Longrightarrow> dir_in ?M2 ?b"
      using p2 dist made by (auto simp: sys_ok_def can_store_def dir_in_def up is_dir_at_iff split: sum.splits)
    have s2: "sys_ok (\<lambda>k. kernel_wf k \<and> node_at k = ?M2) s2" using p2 by (simp add: sys_ok_def)
    obtain r3 s3 where run3: "try_bnd (syscalls_Rename env LocalDomain ?tp ?kp) (\<lambda>_. ret (Inr ?key)) s2 = (Ret r3, s3)"
      "sys_ok (stored env ?root N ?tp h r3) s3"
      by (rule returnsE [OF rename_stored [OF root tp M2(1) nd(2,1) M2(2-4)] s2])
    then have "move_copy env cache temp ?key s = (Ret r3, s3)"
      using made names(3) by (auto simp: move_copy_def bnd_def run2 bucketForKey_def pathForKey_run [OF root key] split: sum.splits)
    with run3(2) show ?thesis by blast
  qed
qed

lemma store_copy_spec:
  assumes root: "clean_abs (cc_root cache)" and tp: "temp_path (cc_root cache) (f_name temp)"
  shows "returns (sys_ok (staged N (f_name temp) h)) (store_copy env cache temp (md5_hex h))
    (\<lambda>r. sys_ok (stored env (cc_root cache) N (f_name temp) h r))"
proof (rule returnsI)
  fix s
  let ?key = "md5_hex h" and ?tp = "f_name temp" and ?root = "cc_root cache"
  let ?kp = "key_path ?root ?key"
  note dist = temp_path_distinct [OF root tp valid_key_md5 [of h]]
  assume "sys_ok (staged N ?tp h) s"
  then obtain nd where pre: "sys_ok (\<lambda>k. kernel_wf k \<and> node_at k = N(?tp \<mapsto> nd)) s" "N ?tp = None" "n_kind nd = KFile h"
    by (auto simp: sys_ok_def staged_def)
  obtain r1 s1 where run1: "HasKey env cache ?key s = (Ret r1, s1)"
    and p1: "sys_ok (\<lambda>k. kernel_wf k \<and> node_at k = N(?tp \<mapsto> nd) \<and> (r1 = Inr True \<longrightarrow> node_at k ?kp \<noteq> None) \<and>
       (env_quiet env \<longrightarrow> r1 = Inr (node_at k ?kp \<noteq> None))) s1"
    by (rule returnsE [OF HasKey_spec [OF root valid_key_md5, where R = "\<lambda>M. M = N(?tp \<mapsto> nd)"] pre(1)])
  show "\<exists>r t. store_copy env cache temp ?key s = (Ret r, t) \<and> sys_ok (stored env ?root N ?tp h r) t"
  proof (cases "r1 = Inr False")
    case False
    define r where "r = (case r1 of Inl e \<Rightarrow> Inl (Errorf ''failed to check for existence'' e) | Inr _ \<Rightarrow> Inr ?key)"
    have run: "store_copy env cache temp ?key s = (Ret r, s1)"
      using False by (auto simp: store_copy_def bnd_def run1 r_def split: sum.splits)
    have "stored env ?root N ?tp h r (sys_kernel s1)"
      using p1 False dist pre(2,3) by (intro unmoved_stored [where N = N and nd = nd, OF root tp]) (auto simp: sys_ok_def r_def split: sum.splits)
    with run p1 show ?thesis by (simp add: sys_ok_def)
  next
    case True
    then have "store_copy env cache temp ?key s = move_copy env cache temp ?key s1"
      by (simp add: store_copy_def bnd_def run1 move_copy_def)
    moreover have "sys_ok (\<lambda>k. kernel_wf k \<and> node_at k = N(?tp \<mapsto> nd)) s1" using p1 by (simp add: sys_ok_def)
    ultimately show ?thesis using returnsE [OF move_copy_spec [where N = N, OF root tp pre(2,3)]] by metis
  qed
qed

text \<open>What holds when the temporary file has been dealt with, before and after its deferred removal.\<close>

definition put_result ::
  "os_env \<Rightarrow> string \<Rightarrow> (string \<rightharpoonup> knode) \<Rightarrow> string \<Rightarrow> errno + byte list \<Rightarrow> Key result \<Rightarrow> (string \<rightharpoonup> knode) \<Rightarrow> bool" where
  "put_result env root N tp src r M \<longleftrightarrow>
     (\<exists>h. cache_delta root N tp h M \<and>
        (\<forall>key. r = Inr key \<longrightarrow> src = Inr h \<and> key = md5_hex h \<and> M (key_path root key) \<noteq> None)) \<and>
     (\<forall>bs. env_quiet env \<and> src = Inr bs \<and> can_store root N (md5_hex bs) \<longrightarrow> r = Inr (md5_hex bs))"

lemma put_result_remove:
  assumes "clean_abs root" "temp_path root tp" "put_result env root N tp src r M"
  shows "put_result env root N tp src r (M(tp := None))"
proof -
  obtain h where h: "cache_delta root N tp h M"
    "\<forall>key. r = Inr key \<longrightarrow> src = Inr h \<and> key = md5_hex h \<and> M (key_path root key) \<noteq> None"
    using assms(3) by (auto simp: put_result_def)
  note dist = temp_path_distinct [OF assms(1,2) valid_key_md5 [of h]]
  have "cache_delta root N tp h (M(tp := None))"
    using h(1) dist by (simp add: cache_delta_def Let_def)
  moreover have "\<forall>key. r = Inr key \<longrightarrow> src = Inr h \<and> key = md5_hex h \<and> (M(tp := None)) (key_path root key) \<noteq> None"
    using h(2) dist(2) by auto
  ultimately show ?thesis using assms(3) unfolding put_result_def by blast
qed

lemma returns_file_Close:
  "returns (sys_ok (\<lambda>k. kernel_wf k \<and> R (node_at k))) (in_kernel (file_Close env f))
    (\<lambda>_. sys_ok (\<lambda>k. kernel_wf k \<and> R (node_at k)))"
  "returns (sys_ok (\<lambda>k. kernel_wf k \<and> R (node_at k))) (tracedReader_Close env tr)
    (\<lambda>_. sys_ok (\<lambda>k. kernel_wf k \<and> R (node_at k)))"
  by (intro returns_kernel syscalls_returns(6) returns_nodes total_os keeps_tree_fd keeps_wf_fd)+

lemma returns_staged_Close:
  "returns (sys_ok (staged N tp h)) (in_kernel (file_Close env f)) (\<lambda>_. sys_ok (staged N tp h))"
  "returns (sys_ok (staged N tp h)) (tracedReader_Close env tr) (\<lambda>_. sys_ok (staged N tp h))"
  by (intro returns_kernel syscalls_returns(6) returns_invariant total_os keeps_staged keeps_tree_fd keeps_wf_fd)+

lemma copy2_local_spec:
  "returns (sys_ok (copying N tp (tr_file inp) tmp src [] []))
    (with_local [] (copy2 (\<lambda>p. outer (in_kernel (file_Write env tmp p))) hash_Write
       (\<lambda>n. outer (tracedReader_Read env inp n))))
    (\<lambda>((_, err), h) s. copied env N tp src err s h)"
  by (rule returns_with_local, rule returns_conseq [OF copy2_spec]) auto

lemma put_body_spec:
  assumes root: "clean_abs (cc_root cache)" and tp: "temp_path (cc_root cache) (f_name temp)"
  shows "returns (sys_ok (copying N (f_name temp) (tr_file inp) temp src [] []))
    (bnd (with_local [] (copy2 (\<lambda>p. outer (in_kernel (file_Write env temp p))) hash_Write
            (\<lambda>n. outer (tracedReader_Read env inp n)))) (\<lambda>((_, err), h). case err of
       Some err \<Rightarrow> ret (Inl (Errorf msg err))
     | None \<Rightarrow>
     bnd (tracedReader_Close env inp) (\<lambda>_.
     bnd (in_kernel (file_Close env temp)) (\<lambda>_. store_copy env cache temp (md5_hex h)))))
    (\<lambda>r. sys_ok (\<lambda>k. kernel_wf k \<and> \<not> dir_in (node_at k) (f_name temp) \<and>
       put_result env (cc_root cache) N (f_name temp) src r (node_at k)))"
proof (rule returns_bnd [OF copy2_local_spec], clarsimp)
  fix err h
  let ?tp = "f_name temp" and ?root = "cc_root cache"
  let ?post = "\<lambda>r. sys_ok (\<lambda>k. kernel_wf k \<and> \<not> dir_in (node_at k) ?tp \<and> put_result env ?root N ?tp src r (node_at k))"
  have fail: "sys_ok (\<lambda>k. kernel_wf k \<and> \<not> dir_in (node_at k) ?tp \<and> put_result env ?root N ?tp src (Inl e) (node_at k)) s"
    if "sys_ok (staged N ?tp h') s" "env_quiet env \<longrightarrow> (\<forall>bs. src \<noteq> Inr bs)" for s e h'
    using that temp_path_distinct(1,2) [OF root tp valid_key_md5 [of h']]
    by (auto simp: sys_ok_def staged_def put_result_def cache_delta_def Let_def dir_in_def intro!: exI [of _ h'])
  have ok: "sys_ok (\<lambda>k. kernel_wf k \<and> \<not> dir_in (node_at k) ?tp \<and> put_result env ?root N ?tp src r (node_at k)) s"
    if "sys_ok (stored env ?root N ?tp h r) s" "src = Inr h" for r s
    using that by (auto simp: sys_ok_def stored_def put_result_def)
  show "returns (\<lambda>s. copied env N ?tp src err s h)
    (case err of None \<Rightarrow> bnd (tracedReader_Close env inp) (\<lambda>_.
       bnd (in_kernel (file_Close env temp)) (\<lambda>_. store_copy env cache temp (md5_hex h)))
     | Some err \<Rightarrow> ret (Inl (Errorf msg err))) ?post"
  proof (cases err)
    case None
    have "returns (sys_ok (staged N ?tp h)) (bnd (tracedReader_Close env inp) (\<lambda>_.
        bnd (in_kernel (file_Close env temp)) (\<lambda>_. store_copy env cache temp (md5_hex h))))
        (\<lambda>r. sys_ok (stored env ?root N ?tp h r))"
      by (rule returns_bnd [OF returns_staged_Close(2)], rule returns_bnd [OF returns_staged_Close(1)],
          rule store_copy_spec [OF root tp])
    then show ?thesis
      using None ok by (cases "src = Inr h") (auto simp: copied_def returns_def)
  next
    case (Some e)
    then show ?thesis using fail by (auto simp: copied_def intro!: returns_ret)
  qed
qed

text \<open>The name the temporary file gets at a given moment.\<close>

definition temp_name :: "os_env \<Rightarrow> string \<Rightarrow> nat \<Rightarrow> string" where
  "temp_name env root t = path_Join root (''partial'' @ env_suffix env t)"

lemma put_temp_spec:
  assumes root: "clean_abs (cc_root cache)" and tp: "temp_path (cc_root cache) (f_name temp)"
  shows "returns (sys_ok (copying N (f_name temp) (tr_file inp) temp src [] []))
    (defer_call (in_kernel (file_Close env temp)) (
     defer_call (syscalls_Remove env LocalDomain (f_name temp)) (
     bnd (with_local [] (copy2 (\<lambda>p. outer (in_kernel (file_Write env temp p))) hash_Write
            (\<lambda>n. outer (tracedReader_Read env inp n)))) (\<lambda>((_, err), h). case err of
       Some err \<Rightarrow> ret (Inl (Errorf msg err))
     | None \<Rightarrow>
     bnd (tracedReader_Close env inp) (\<lambda>_.
     bnd (in_kernel (file_Close env temp)) (\<lambda>_. store_copy env cache temp (md5_hex h)))))))
    (\<lambda>r. sys_ok (\<lambda>k. kernel_wf k \<and> (put_result env (cc_root cache) N (f_name temp) src r (node_at k) \<and>
       (env_quiet env \<longrightarrow> node_at k (f_name temp) = None))))"
proof (rule returns_defer [OF returns_defer [OF put_body_spec [OF root tp]]])
  fix r
  let ?tp = "f_name temp" and ?R = "put_result env (cc_root cache) N (f_name temp) src r"
  show "returns (sys_ok (\<lambda>k. kernel_wf k \<and> \<not> dir_in (node_at k) ?tp \<and> ?R (node_at k)))
    (syscalls_Remove env LocalDomain ?tp)
    (\<lambda>_. sys_ok (\<lambda>k. kernel_wf k \<and> (?R (node_at k) \<and> (env_quiet env \<longrightarrow> node_at k ?tp = None))))"
  proof (rule syscalls_returns(5), rule returnsI)
    fix k
    assume k: "kernel_wf k \<and> \<not> dir_in (node_at k) ?tp \<and> ?R (node_at k)"
    have pre: "kernel_wf k \<and> node_at k = node_at k" using k by simp
    show "\<exists>x k'. os_Remove env ?tp k = (Ret x, k') \<and>
      (kernel_wf k' \<and> (?R (node_at k') \<and> (env_quiet env \<longrightarrow> node_at k' ?tp = None)))"
      by (rule returnsE [OF os_Remove_spec pre, of env ?tp])
         (use k put_result_remove [OF root tp] in \<open>auto simp: is_dir_at_iff\<close>)
  qed
qed (rule returns_file_Close)

text \<open>The whole of \<^verbatim>\<open>PutContents\<close>.\<close>

definition put_post ::
  "os_env \<Rightarrow> string \<Rightarrow> (string \<rightharpoonup> knode) \<Rightarrow> errno + byte list \<Rightarrow> Key result \<Rightarrow> (string \<rightharpoonup> knode) \<Rightarrow> bool" where
  "put_post env root N src r M \<longleftrightarrow>
     ((\<forall>key. r \<noteq> Inr key) \<and> M = N \<or>
      (\<exists>tp. temp_path root tp \<and> put_result env root N tp src r M \<and> (env_quiet env \<longrightarrow> M tp = None))) \<and>
     (\<forall>bs. env_quiet env \<and> src = Inr bs \<and> can_store root N (md5_hex bs) \<and>
        (\<forall>t. N (temp_name env root t) = None) \<longrightarrow> r = Inr (md5_hex bs))"

lemma temp_name_props:
  assumes "clean_abs root" "env_ok env"
  shows "temp_path root (temp_name env root t)" "path_Join (temp_name env root t) ''..'' = root"
  using assms env_ok_suffix [OF assms(2), of t]
  by (auto simp: temp_name_def temp_path_def valid_name_def path_Join_dotdot)

lemma put_opened_spec:
  assumes root: "clean_abs (cc_root cache)" and env: "env_ok env"
  shows "returns (sys_ok (reading N (tr_file inp) src))
    (bnd (in_kernel (ioutil_TempFile env (cc_root cache) ''partial'')) (\<lambda>r. case r of
       Inl err \<Rightarrow> ret (Inl (Errorf msg1 err))
     | Inr temp \<Rightarrow>
     defer_call (in_kernel (file_Close env temp)) (
     defer_call (syscalls_Remove env LocalDomain (f_name temp)) (
     bnd (with_local [] (copy2 (\<lambda>p. outer (in_kernel (file_Write env temp p))) hash_Write
            (\<lambda>n. outer (tracedReader_Read env inp n)))) (\<lambda>((_, err), h). case err of
       Some err \<Rightarrow> ret (Inl (Errorf msg err))
     | None \<Rightarrow>
     bnd (tracedReader_Close env inp) (\<lambda>_.
     bnd (in_kernel (file_Close env temp)) (\<lambda>_. store_copy env cache temp (md5_hex h))))))))
    (\<lambda>r. sys_ok (\<lambda>k. kernel_wf k \<and> put_post env (cc_root cache) N src r (node_at k)))"
proof (rule returns_bnd [OF returns_kernel [OF TempFile_spec [where pre = "''partial''", folded temp_name_def]]], goal_cases)
  case (1 r)
  let ?root = "cc_root cache"
  note tmp = temp_name_props [OF root env]
  show ?case
  proof (cases r)
    case (Inl e)
    have "put_post env ?root N src (Inl (Errorf msg1 e)) (node_at k)"
      if "node_at k = N" "env_quiet env \<longrightarrow>
        (\<exists>t. N (temp_name env ?root t) \<noteq> None \<or> \<not> is_dir_at k (path_Join (temp_name env ?root t) ''..''))" for k
      using that by (auto simp: put_post_def can_store_def is_dir_at_iff tmp(2))
    then show ?thesis unfolding Inl sum.case by (intro returns_ret) (auto simp: sys_ok_def reading_def)
  next
    case (Inr temp)
    show ?thesis
    proof (cases "\<exists>t. f_name temp = temp_name env ?root t")
      case True
      then have tp: "temp_path ?root (f_name temp)" using tmp(1) by metis
      show ?thesis
        unfolding Inr sum.case
        by (rule returns_conseq [OF put_temp_spec [OF root tp, where N = N and src = src]])
           (use tp in \<open>auto simp: sys_ok_def put_post_def put_result_def\<close>)
    next
      case False
      then show ?thesis by (simp add: Inr returns_def sys_ok_def)
    qed
  qed
qed

lemma put_open_cases:
  assumes "\<And>inp. returns (sys_ok (reading N (tr_file inp) src)) (m inp)
    (\<lambda>r. sys_ok (\<lambda>k. kernel_wf k \<and> put_post env root N src r (node_at k)))"
  shows "returns (sys_ok (case (case r of Inl e \<Rightarrow> Inl e | Inr tr \<Rightarrow> Inr (tr_file tr)) of
        Inl _ \<Rightarrow> (\<lambda>k. kernel_wf k \<and> node_at k = N \<and> (env_quiet env \<longrightarrow> (\<forall>bs. src \<noteq> Inr bs)))
      | Inr f \<Rightarrow> reading N f src))
    (case r of Inl err \<Rightarrow> ret (Inl (Errorf msg err)) | Inr inp \<Rightarrow> defer_call (tracedReader_Close env inp) (m inp))
    (\<lambda>r. sys_ok (\<lambda>k. kernel_wf k \<and> put_post env root N src r (node_at k)))"
proof (cases r)
  case (Inl e)
  have "put_post env root N src (Inl (Errorf msg e)) (node_at k)"
    if "node_at k = N" "env_quiet env \<longrightarrow> (\<forall>bs. src \<noteq> Inr bs)" for k
    using that by (auto simp: put_post_def)
  then show ?thesis unfolding Inl sum.case by (intro returns_ret) (auto simp: sys_ok_def)
next
  case (Inr inp)
  then show ?thesis using returns_defer [OF assms returns_file_Close(2)] by simp
qed

lemma PutContents_spec:
  assumes root: "clean_abs (cc_root cache)" and env: "env_ok env"
  shows "returns (sys_ok (\<lambda>k. kernel_wf k \<and> node_at k = N \<and> open_bytes k path = src)) (PutContents env cache path)
    (\<lambda>r. sys_ok (\<lambda>k. kernel_wf k \<and> put_post env (cc_root cache) N src r (node_at k)))"
  unfolding PutContents_def Let_def store_copy_def [symmetric]
  by (rule returns_bnd [OF syscalls_Open_returns [OF os_Open_spec]],
      rule returns_conseq [OF put_open_cases [OF put_opened_spec [OF root env]]])
     (auto simp: sys_ok_def split: sum.splits)

end
