(* ===== verification/Fs_Root.thy ===== *)
theory Fs_Root
  imports Metadata_Store Content_Laws
begin

text \<open>
  \<^verbatim>\<open>internal/fs/root.go\<close> and the node types of \<^verbatim>\<open>dir.go\<close>, \<^verbatim>\<open>file.go\<close> and \<^verbatim>\<open>symlink.go\<close>: the state the
  file system works on, the construction of nodes from cached rows and directory entries, the
  attributes common to all nodes, and the start of the serving loop.

  The world is the counted kernel and the metadata database. A node is a value; an operation on a node
  is a program on the world and the node, because FUSE keeps the node and the operation updates its
  lazily loaded fields under the node's lock.
\<close>

section \<open>State\<close>

record world =
  w_sys :: sys
  w_db :: metadb

definition in_sys :: "(sys, 'a) prog \<Rightarrow> (world, 'a) prog" where
  "in_sys = zoom w_sys (\<lambda>s w. w\<lparr>w_sys := s\<rparr>)"

definition in_db :: "(metadb, 'a) prog \<Rightarrow> (world, 'a) prog" where
  "in_db = zoom w_db (\<lambda>d w. w\<lparr>w_db := d\<rparr>)"

definition report :: "stats_event \<Rightarrow> (world, unit) prog" where
  "report ev = in_sys (in_stats (account ev))"

text \<open>
  \<^verbatim>\<open>globalState\<close>. The regular expression the user chose is its predicate on paths. Go iterates over a map in
  an order of its own, which may differ from one loop to the next: \<open>g_range\<close> ranks the keys, for each state of the
  world in which a loop starts.
\<close>

definition map_range :: "(string \<Rightarrow> nat) \<Rightarrow> dirmap \<Rightarrow> dirmap" where
  "map_range rank m = sort_key (\<lambda>(key, _). rank key) m"

lemma mset_map_range [simp]: "mset (map_range rank m) = mset m"
  by (simp add: map_range_def)

record globalState =
  g_env :: os_env
  g_engine :: engine
  g_content :: ContentCache
  g_match :: "string \<Rightarrow> bool"
  g_range :: "world \<Rightarrow> string \<Rightarrow> nat"

record lazyDirData =
  ld_fileInfo :: "FileInfo option"
  ld_didReadDir :: bool
  ld_dirEntries :: "dirmap option"
  ld_rows :: "string \<rightharpoonup> CachedRow option"

record Dir =
  d_path :: string
  d_belowPath :: string
  d_inode :: u64
  d_direct :: bool
  d_data :: lazyDirData

record lazyFileData =
  lf_fileInfo :: "FileInfo option"
  lf_contentHash :: "Key option"

record File =
  f_path :: string
  f_belowPath :: string
  f_inode :: u64
  f_direct :: bool
  f_data :: lazyFileData

record lazySymlinkData =
  ls_fileInfo :: "FileInfo option"
  ls_target :: "string option"

record Symlink =
  s_path :: string
  s_belowPath :: string
  s_inode :: u64
  s_direct :: bool
  s_data :: lazySymlinkData

datatype fs_node = DirNode Dir | FileNode File | SymlinkNode Symlink

text \<open>\<^verbatim>\<open>fuse.Attr\<close>, as far as the program fills it in.\<close>

record Attr =
  a_Inode :: u64
  a_Mode :: FileMode
  a_Size :: u64
  a_Mtime :: int

section \<open>Nodes\<close>

text \<open>A nil row is dereferenced and panics.\<close>

definition newNodeForEntry ::
  "globalState \<Rightarrow> string \<Rightarrow> string \<Rightarrow> CachedRow option \<Rightarrow> string \<Rightarrow> ('s, fs_node result) prog" where
  "newNodeForEntry g parentPath parentBelowPath row name =
     (let path = path_Join parentPath name;
          belowPath = path_Join parentBelowPath name;
          direct = (\<not> g_match g path)
      in case row of
           None \<Rightarrow> panic ''nil pointer dereference''
         | Some row \<Rightarrow>
             if TypeName row = ''directory'' then
               ret (Inr (DirNode \<lparr>d_path = path, d_belowPath = belowPath, d_inode = RowInode row, d_direct = direct,
                 d_data = \<lparr>ld_fileInfo = RowFileInfo row, ld_didReadDir = False, ld_dirEntries = DirEntries row,
                   ld_rows = Map.empty\<rparr>\<rparr>))
             else if TypeName row = ''file'' then
               ret (Inr (FileNode \<lparr>f_path = path, f_belowPath = belowPath, f_inode = RowInode row, f_direct = direct,
                 f_data = \<lparr>lf_fileInfo = RowFileInfo row, lf_contentHash = ContentHash row\<rparr>\<rparr>))
             else if TypeName row = ''noentry'' then ret (Inl FuseENOENT)
             else if TypeName row = ''symlink'' then
               ret (Inr (SymlinkNode \<lparr>s_path = path, s_belowPath = belowPath, s_inode = RowInode row, s_direct = direct,
                 s_data = \<lparr>ls_fileInfo = RowFileInfo row, ls_target = Target row\<rparr>\<rparr>))
             else fatal ''unknown entry type'')"

definition newNodeForOneDirEntry ::
  "globalState \<Rightarrow> string \<Rightarrow> string \<Rightarrow> OneDirEntry \<Rightarrow> string \<Rightarrow> ('s, fs_node result) prog" where
  "newNodeForOneDirEntry g parentPath parentBelowPath dirEntry name =
     (let path = path_Join parentPath name;
          belowPath = path_Join parentBelowPath name;
          direct = (\<not> g_match g path)
      in if ModeType dirEntry = ModeDir then
           ret (Inr (DirNode \<lparr>d_path = path, d_belowPath = belowPath, d_inode = Inode dirEntry, d_direct = direct,
             d_data = \<lparr>ld_fileInfo = None, ld_didReadDir = False, ld_dirEntries = None, ld_rows = Map.empty\<rparr>\<rparr>))
         else if ModeType dirEntry = 0 then
           ret (Inr (FileNode \<lparr>f_path = path, f_belowPath = belowPath, f_inode = Inode dirEntry, f_direct = direct,
             f_data = \<lparr>lf_fileInfo = None, lf_contentHash = None\<rparr>\<rparr>))
         else if ModeType dirEntry = ModeSymlink then
           ret (Inr (SymlinkNode \<lparr>s_path = path, s_belowPath = belowPath, s_inode = Inode dirEntry, s_direct = direct,
             s_data = \<lparr>ls_fileInfo = None, ls_target = None\<rparr>\<rparr>))
         else fatal ''unknown entry type'')"

section \<open>Attributes\<close>

text \<open>
  \<^verbatim>\<open>commonAttr\<close> works on the world and the node's \<^verbatim>\<open>fileInfo\<close> field, which it receives by reference.
\<close>

definition fill_attr :: "u64 \<Rightarrow> FileInfo option \<Rightarrow> ('s, Attr result) prog" where
  "fill_attr inode fileInfo = (case fileInfo of
       None \<Rightarrow> panic ''nil pointer dereference''
     | Some fi \<Rightarrow> ret (Inr \<lparr>a_Inode = inode, a_Mode = Mode fi, a_Size = Size fi, a_Mtime = ModTime fi\<rparr>))"

definition commonAttr ::
  "globalState \<Rightarrow> u64 \<Rightarrow> bool \<Rightarrow> string \<Rightarrow> (world \<times> FileInfo option, Attr result) prog" where
  "commonAttr g inode direct belowPath =
     bnd (gets (\<lambda>(w, fi). fi \<noteq> None)) (\<lambda>cached.
     let fill = bnd (gets snd) (fill_attr inode);
         store = (\<lambda>rawFileInfo.
           try_bnd (outer (in_db (PutFileInfo (g_engine g) inode rawFileInfo))) (\<lambda>_.
           bnd (modify (\<lambda>(w, _). (w, Some rawFileInfo))) (\<lambda>_. fill)))
     in if direct then
          bnd (outer (report (EvDirect AttrFuseOp))) (\<lambda>_.
          bnd (outer (in_sys (syscalls_Lstat (g_env g) RemoteDomain belowPath))) (\<lambda>r. case r of
            Inl err \<Rightarrow> if cached then fill else ret (Inl err)
          | Inr rawFileInfo \<Rightarrow> store rawFileInfo))
        else if \<not> cached then
          bnd (outer (report (EvCacheMiss AttrFuseOp))) (\<lambda>_.
          try_bnd (outer (in_sys (syscalls_Lstat (g_env g) RemoteDomain belowPath))) store)
        else
          bnd (outer (report (EvCacheHit AttrFuseOp))) (\<lambda>_. fill))"

section \<open>The root node and the serving loop\<close>

text \<open>The last \<^verbatim>\<open>return nil, err\<close> returns a nil error with a nil row: \<open>Inr None\<close>.\<close>

definition putAndGetRow :: "globalState \<Rightarrow> string \<Rightarrow> FileMode \<Rightarrow> (world, CachedRow option result) prog" where
  "putAndGetRow g path modeType =
     (let direct = (\<not> g_match g path)
      in try_bnd (in_db (GetFullEntry (g_engine g) path)) (\<lambda>cacheRow.
         let cached = (cacheRow \<noteq> None)
         in try_bnd
              (if direct then in_db (PutNewOrUpdateWithType (g_engine g) path modeType)
               else if \<not> cached then
                 try_bnd (in_db (PutNewWithType (g_engine g) path modeType)) (\<lambda>_. ret (Inr ()))
               else ret (Inr ()))
              (\<lambda>_. in_db (GetFullEntry (g_engine g) path))))"

text \<open>
  The FUSE library is a parameter: the error of \<^verbatim>\<open>fuse.Mount\<close>, what serving requests of a given file system
  does to the world, the error found after serving, and whether a termination signal was caught.
  \<^verbatim>\<open>connection.Close\<close> has no effect on the world. After a signal was caught the program sends it to itself
  again, with the default handler, and waits in an endless loop for it to be delivered.
\<close>

record FS =
  rootNode :: fs_node

definition FS_Root :: "FS \<Rightarrow> fs_node result" where
  "FS_Root fs = Inr (rootNode fs)"

record fuse_lib =
  fl_mount :: "unit result"
  fl_serve :: "FS \<Rightarrow> (world, unit result) prog"
  fl_mount_error :: "error option"
  fl_caught_signal :: bool

definition Loop :: "fuse_lib \<Rightarrow> string \<Rightarrow> globalState \<Rightarrow> (world, unit result) prog" where
  "Loop fl remotedir g =
     try_bnd (ret (fl_mount fl)) (\<lambda>_.
     try_bnd (putAndGetRow g ''/'' ModeDir) (\<lambda>cacheRow.
     try_bnd (newNodeForEntry g ''/'' remotedir cacheRow ''/'') (\<lambda>rootDir.
     try_bnd (fl_serve fl \<lparr>rootNode = rootDir\<rparr>) (\<lambda>_.
     case fl_mount_error fl of
       Some err \<Rightarrow> ret (Inl err)
     | None \<Rightarrow>
         if fl_caught_signal fl then (\<lambda>w. (Diverge, w))
         else ret (Inr ())))))"

end
