(* ===== verification/Fs_Dir.thy ===== *)
theory Fs_Dir
  imports Fs_Root
begin

text \<open>\<^verbatim>\<open>internal/fs/dir.go\<close>: attributes, lookups and listings of a directory node.\<close>

section \<open>Attr\<close>

definition dir_info :: "('w \<times> FileInfo option, 'a) prog \<Rightarrow> ('w \<times> Dir, 'a) prog" where
  "dir_info = zoom (\<lambda>(w, d). (w, ld_fileInfo (d_data d)))
     (\<lambda>(w, fi) (_, d). (w, d\<lparr>d_data := (d_data d)\<lparr>ld_fileInfo := fi\<rparr>\<rparr>))"

definition Dir_Attr :: "globalState \<Rightarrow> (world \<times> Dir, Attr result) prog" where
  "Dir_Attr g = bnd (gets snd) (\<lambda>dir.
     dir_info (commonAttr g (d_inode dir) (d_direct dir) (d_belowPath dir)))"

section \<open>Lookup\<close>

text \<open>The end of \<^verbatim>\<open>Lookup\<close>: the row is remembered, then the node is built.\<close>

definition remember_row :: "string \<Rightarrow> CachedRow option \<Rightarrow> Dir \<Rightarrow> Dir" where
  "remember_row name row dir =
     dir\<lparr>d_data := (d_data dir)\<lparr>ld_rows := (ld_rows (d_data dir))(name \<mapsto> row)\<rparr>\<rparr>"

definition Lookup_finish :: "globalState \<Rightarrow> Dir \<Rightarrow> string \<Rightarrow> CachedRow option \<Rightarrow> (world \<times> Dir, fs_node result) prog" where
  "Lookup_finish g dir name cachedRow =
     bnd (modify (\<lambda>(w, d). (w, remember_row name cachedRow d))) (\<lambda>_.
     newNodeForEntry g (d_path dir) (d_belowPath dir) cachedRow name)"

text \<open>A row that cannot be reloaded is logged, and nil goes on.\<close>

definition Lookup_reload :: "globalState \<Rightarrow> Dir \<Rightarrow> string \<Rightarrow> (world \<times> Dir, fs_node result) prog" where
  "Lookup_reload g dir name =
     try_bnd (outer (in_db (GetFullEntry (g_engine g) (path_Join (d_path dir) name)))) (Lookup_finish g dir name)"

definition Lookup_direct :: "globalState \<Rightarrow> Dir \<Rightarrow> string \<Rightarrow> bool \<Rightarrow> (world \<times> Dir, fs_node result) prog" where
  "Lookup_direct g dir name cached =
     (let path = path_Join (d_path dir) name
      in bnd (outer (report (EvDirect LookupFuseOp))) (\<lambda>_.
         bnd (outer (in_sys (syscalls_Lstat (g_env g) RemoteDomain (path_Join (d_belowPath dir) name)))) (\<lambda>r. case r of
           Inr fileInfo \<Rightarrow>
             try_bnd (outer (in_db (PutNewOrUpdateWithType (g_engine g) path (Mode fileInfo AND os_ModeType)))) (\<lambda>_.
             Lookup_reload g dir name)
         | Inl err \<Rightarrow>
             if cached then Lookup_reload g dir name
             else if IsNotExist err then
               try_bnd (outer (in_db (PutNewOrUpdateNoEntry (g_engine g) path))) (\<lambda>_. ret (Inl FuseENOENT))
             else ret (Inl err))))"

definition Lookup_miss :: "globalState \<Rightarrow> Dir \<Rightarrow> string \<Rightarrow> (world \<times> Dir, fs_node result) prog" where
  "Lookup_miss g dir name =
     (let path = path_Join (d_path dir) name
      in bnd (outer (report (EvCacheMiss LookupFuseOp))) (\<lambda>_.
         bnd (outer (in_sys (syscalls_Lstat (g_env g) RemoteDomain (path_Join (d_belowPath dir) name)))) (\<lambda>r. case r of
           Inl err \<Rightarrow>
             if \<not> IsNotExist err then ret (Inl err)
             else try_bnd (outer (in_db (PutNewNoEntry (g_engine g) path))) (\<lambda>_. ret (Inl FuseENOENT))
         | Inr fileInfo \<Rightarrow>
             try_bnd (outer (in_db (PutNewWithType (g_engine g) path (Mode fileInfo AND os_ModeType)))) (\<lambda>_.
             Lookup_reload g dir name))))"

definition Dir_Lookup :: "globalState \<Rightarrow> string \<Rightarrow> (world \<times> Dir, fs_node result) prog" where
  "Dir_Lookup g name = bnd (gets snd) (\<lambda>dir.
     let slow =
       try_bnd (outer (in_db (GetFullEntry (g_engine g) (path_Join (d_path dir) name)))) (\<lambda>cachedRow.
       if d_direct dir then Lookup_direct g dir name (cachedRow \<noteq> None)
       else if cachedRow = None then Lookup_miss g dir name
       else bnd (outer (report (EvCacheHit LookupFuseOp))) (\<lambda>_. Lookup_finish g dir name cachedRow))
     in if \<not> d_direct dir then
          (case ld_rows (d_data dir) name of
             Some cachedRow \<Rightarrow> newNodeForEntry g (d_path dir) (d_belowPath dir) cachedRow name
           | None \<Rightarrow> slow)
        else slow)"

section \<open>ReadDirAll\<close>

datatype DirentType = DT_File | DT_Dir | DT_Link

record Dirent =
  de_Inode :: u64
  de_Name :: string
  de_Type :: DirentType

fun make_dirents :: "dirmap \<Rightarrow> Dirent list \<Rightarrow> ('s, Dirent list) prog" where
  "make_dirents [] dirents = ret dirents"
| "make_dirents ((basename, dirEntry) # rest) dirents =
     (if \<not> Valid dirEntry then make_dirents rest dirents
      else
        let add = (\<lambda>ty. make_dirents rest (dirents @ [\<lparr>de_Inode = Inode dirEntry, de_Name = basename, de_Type = ty\<rparr>]));
            m = ModeType dirEntry AND os_ModeType
        in if m = 0 then add DT_File
           else if m = ModeDir then add DT_Dir
           else if m = ModeSymlink then add DT_Link
           else panic ''unknown type'')"

definition set_dirEntries :: "dirmap \<Rightarrow> Dir \<Rightarrow> Dir" where
  "set_dirEntries entries dir = dir\<lparr>d_data := (d_data dir)\<lparr>ld_dirEntries := Some entries\<rparr>\<rparr>"

definition list_dirents :: "globalState \<Rightarrow> (world \<times> Dir, Dirent list result) prog" where
  "list_dirents g =
     bnd (gets (\<lambda>(w, dir). map_range (g_range g w) (case ld_dirEntries (d_data dir) of None \<Rightarrow> [] | Some m \<Rightarrow> m))) (\<lambda>entries.
     bnd (make_dirents entries []) (\<lambda>dirents. ret (Inr dirents)))"

text \<open>The entries are read back from the database to learn the inode numbers.\<close>

definition reload_dirEntries :: "globalState \<Rightarrow> Dir \<Rightarrow> (world \<times> Dir, Dirent list result) prog" where
  "reload_dirEntries g dir =
     bnd (outer (in_db (GetDirEntries (g_engine g) (d_inode dir) []))) (\<lambda>(r, entries). case r of
       Inl err \<Rightarrow> ret (Inl err)
     | Inr _ \<Rightarrow> bnd (modify (\<lambda>(w, d). (w, set_dirEntries entries d))) (\<lambda>_. list_dirents g))"

text \<open>The remote directory is read and closed when the handler returns.\<close>

definition fetch_dirEntries :: "globalState \<Rightarrow> Dir \<Rightarrow> tracedReader \<Rightarrow> (world \<times> Dir, Dirent list result) prog" where
  "fetch_dirEntries g dir f =
     defer_call (outer (in_sys (tracedReader_Close (g_env g) f)))
      (bnd (outer (in_sys (tracedReader_Readdir (g_env g) f))) (\<lambda>(belowEntries, err). case err of
         Some err \<Rightarrow> ret (Inl err)
       | None \<Rightarrow>
           try_bnd (outer (in_db (PutDirEntries (g_engine g) (d_inode dir) (d_path dir) belowEntries))) (\<lambda>_.
           reload_dirEntries g dir)))"

definition Dir_ReadDirAll :: "globalState \<Rightarrow> (world \<times> Dir, Dirent list result) prog" where
  "Dir_ReadDirAll g = bnd (gets snd) (\<lambda>dir.
     let cached = (ld_dirEntries (d_data dir) \<noteq> None)
     in if d_direct dir then
          bnd (outer (report (EvDirect ReaddirFuseOp))) (\<lambda>_.
          bnd (outer (in_sys (syscalls_Open (g_env g) RemoteDomain (d_belowPath dir)))) (\<lambda>r. case r of
            Inr f \<Rightarrow> fetch_dirEntries g dir f
          | Inl err \<Rightarrow> if cached then reload_dirEntries g dir else ret (Inl err)))
        else if \<not> cached then
          bnd (outer (report (EvCacheMiss ReaddirFuseOp))) (\<lambda>_.
          try_bnd (outer (in_sys (syscalls_Open (g_env g) RemoteDomain (d_belowPath dir)))) (fetch_dirEntries g dir))
        else
          bnd (outer (report (EvCacheHit ReaddirFuseOp))) (\<lambda>_. list_dirents g))"

end
