(* ===== verification/Fs_File.thy ===== *)
theory Fs_File
  imports Fs_Root
begin

text \<open>\<^verbatim>\<open>internal/fs/file.go\<close> and \<^verbatim>\<open>internal/fs/symlink.go\<close>: files, open files and symbolic links.\<close>

section \<open>Files\<close>

definition file_info :: "('w \<times> FileInfo option, 'a) prog \<Rightarrow> ('w \<times> File, 'a) prog" where
  "file_info = zoom (\<lambda>(w, f). (w, lf_fileInfo (f_data f)))
     (\<lambda>(w, fi) (_, f). (w, f\<lparr>f_data := (f_data f)\<lparr>lf_fileInfo := fi\<rparr>\<rparr>))"

definition File_Attr :: "globalState \<Rightarrow> (world \<times> File, Attr result) prog" where
  "File_Attr g = bnd (gets snd) (\<lambda>file.
     file_info (commonAttr g (f_inode file) (f_direct file) (f_belowPath file)))"

record openFile =
  of_path :: string
  of_reader :: "tracedReader option"

definition set_contentHash :: "Key \<Rightarrow> File \<Rightarrow> File" where
  "set_contentHash key file = file\<lparr>f_data := (f_data file)\<lparr>lf_contentHash := Some key\<rparr>\<rparr>"

text \<open>The end of \<^verbatim>\<open>Open\<close>: the cached copy is opened.\<close>

definition open_cached :: "globalState \<Rightarrow> (world \<times> File, openFile result) prog" where
  "open_cached g = bnd (gets snd) (\<lambda>file. case lf_contentHash (f_data file) of
       None \<Rightarrow> panic ''nil pointer dereference''
     | Some key \<Rightarrow>
         try_bnd (outer (in_sys (GetFileForContents (g_env g) (g_content g) key))) (\<lambda>path.
         try_bnd (outer (in_sys (syscalls_Open (g_env g) LocalDomain path))) (\<lambda>input.
         ret (Inr \<lparr>of_path = f_path file, of_reader = Some input\<rparr>))))"

definition store_fetched :: "globalState \<Rightarrow> File \<Rightarrow> Key \<Rightarrow> (world \<times> File, openFile result) prog" where
  "store_fetched g file key =
     try_bnd (outer (in_db (PutContentHash (g_engine g) (f_inode file) key))) (\<lambda>_.
     bnd (modify (\<lambda>(w, f). (w, set_contentHash key f))) (\<lambda>_. open_cached g))"

definition File_Open :: "globalState \<Rightarrow> (world \<times> File, openFile result) prog" where
  "File_Open g = bnd (gets snd) (\<lambda>file.
     let cached = (lf_contentHash (f_data file) \<noteq> None)
     in if f_direct file then
          bnd (outer (report (EvDirect OpenFuseOp))) (\<lambda>_.
          bnd (outer (in_sys (PutContents (g_env g) (g_content g) (f_belowPath file)))) (\<lambda>r. case r of
            Inr key \<Rightarrow> store_fetched g file key
          | Inl err \<Rightarrow> if cached then open_cached g else ret (Inl err)))
        else if \<not> cached then
          bnd (outer (report (EvCacheMiss OpenFuseOp))) (\<lambda>_.
          try_bnd (outer (in_sys (PutContents (g_env g) (g_content g) (f_belowPath file)))) (store_fetched g file))
        else
          bnd (outer (report (EvCacheHit OpenFuseOp))) (\<lambda>_. open_cached g))"

section \<open>Open files\<close>

text \<open>The response holds the bytes read, also when an error is returned; the end of file is no error.\<close>

definition openFile_Read ::
  "globalState \<Rightarrow> nat \<Rightarrow> int64 \<Rightarrow> (world \<times> openFile, byte list \<times> error option) prog" where
  "openFile_Read g req_Size req_Offset =
     bnd (outer (report (EvCacheHit ReadFuseOp))) (\<lambda>_.
     bnd (gets (\<lambda>(w, file). of_reader file)) (\<lambda>reader. case reader of
       None \<Rightarrow> panic ''nil pointer dereference''
     | Some tr \<Rightarrow>
         bnd (outer (in_sys (tracedReader_ReadAt (g_env g) tr req_Size req_Offset))) (\<lambda>(data, err).
         ret (data, if err = Some EOF then None else err))))"

definition openFile_Release :: "globalState \<Rightarrow> (world \<times> openFile, unit result) prog" where
  "openFile_Release g = bnd (gets (\<lambda>(w, file). of_reader file)) (\<lambda>reader. case reader of
       None \<Rightarrow> ret (Inr ())
     | Some tr \<Rightarrow>
         try_bnd (outer (in_sys (tracedReader_Close (g_env g) tr))) (\<lambda>_.
         bnd (modify (\<lambda>(w, file). (w, file\<lparr>of_reader := None\<rparr>))) (\<lambda>_. ret (Inr ()))))"

section \<open>Symbolic links\<close>

definition symlink_info :: "('w \<times> FileInfo option, 'a) prog \<Rightarrow> ('w \<times> Symlink, 'a) prog" where
  "symlink_info = zoom (\<lambda>(w, l). (w, ls_fileInfo (s_data l)))
     (\<lambda>(w, fi) (_, l). (w, l\<lparr>s_data := (s_data l)\<lparr>ls_fileInfo := fi\<rparr>\<rparr>))"

definition Symlink_Attr :: "globalState \<Rightarrow> (world \<times> Symlink, Attr result) prog" where
  "Symlink_Attr g = bnd (gets snd) (\<lambda>symlink.
     symlink_info (commonAttr g (s_inode symlink) (s_direct symlink) (s_belowPath symlink)))"

definition set_ls_target :: "string \<Rightarrow> Symlink \<Rightarrow> Symlink" where
  "set_ls_target target symlink = symlink\<lparr>s_data := (s_data symlink)\<lparr>ls_target := Some target\<rparr>\<rparr>"

definition return_target :: "(world \<times> Symlink, string result) prog" where
  "return_target = bnd (gets snd) (\<lambda>symlink. case ls_target (s_data symlink) of
       None \<Rightarrow> panic ''nil pointer dereference''
     | Some target \<Rightarrow> ret (Inr target))"

definition store_target :: "globalState \<Rightarrow> Symlink \<Rightarrow> string \<Rightarrow> (world \<times> Symlink, string result) prog" where
  "store_target g symlink target =
     try_bnd (outer (in_db (PutSymlinkTarget (g_engine g) (s_inode symlink) target))) (\<lambda>_.
     bnd (modify (\<lambda>(w, l). (w, set_ls_target target l))) (\<lambda>_. return_target))"

definition Symlink_Readlink :: "globalState \<Rightarrow> (world \<times> Symlink, string result) prog" where
  "Symlink_Readlink g = bnd (gets snd) (\<lambda>symlink.
     let cached = (ls_target (s_data symlink) \<noteq> None)
     in if s_direct symlink then
          bnd (outer (report (EvDirect ReadlinkFuseOp))) (\<lambda>_.
          bnd (outer (in_sys (syscalls_Readlink (g_env g) RemoteDomain (s_belowPath symlink)))) (\<lambda>r. case r of
            Inr target \<Rightarrow> store_target g symlink target
          | Inl err \<Rightarrow> if cached then return_target else ret (Inl err)))
        else if \<not> cached then
          bnd (outer (report (EvCacheMiss ReadlinkFuseOp))) (\<lambda>_.
          try_bnd (outer (in_sys (syscalls_Readlink (g_env g) RemoteDomain (s_belowPath symlink)))) (store_target g symlink))
        else
          bnd (outer (report (EvCacheHit ReadlinkFuseOp))) (\<lambda>_. return_target))"

end
