(* ===== verification/Content_Store.thy ===== *)
theory Content_Store
  imports Content_Laws
begin

text \<open>
  The content cache as a store of byte strings: the contract its clients use, what follows from the
  contract for any sequence of insertions, and the interpretation on the operations of
  \<^verbatim>\<open>content.go\<close>.
\<close>

section \<open>The invariant of the cache\<close>

definition cache_ok :: "string \<Rightarrow> sys \<Rightarrow> bool" where
  "cache_ok root s \<longleftrightarrow> stats_wf (sys_stats s) \<and> kernel_wf (sys_kernel s) \<and> content_ok root (sys_kernel s)"

definition cached_bytes :: "string \<Rightarrow> sys \<Rightarrow> Key \<Rightarrow> byte list option" where
  "cached_bytes root s key = (if valid_key key then file_at (sys_kernel s) (key_path root key) else None)"

lemma cached_bytes_digest:
  assumes "clean_abs root" "cache_ok root s" "cached_bytes root s key = Some bs"
  shows "md5_hex bs = key"
proof -
  have key: "valid_key key" "file_at (sys_kernel s) (key_path root key) = Some bs"
    using assms(3) by (simp_all add: cached_bytes_def split: if_splits)
  then have "node_at (sys_kernel s) (key_path root key) \<noteq> None" by (auto simp: file_at_def bind_eq_Some_conv)
  then show ?thesis
    using key assms(1,2) content_ok_iff [OF _ assms(1), of "sys_kernel s"] by (auto simp: cache_ok_def)
qed

lemma cached_iff_node:
  assumes "clean_abs root" "cache_ok root s" "valid_key key"
  shows "cached_bytes root s key \<noteq> None \<longleftrightarrow> node_at (sys_kernel s) (key_path root key) \<noteq> None"
  using assms content_ok_iff [OF _ assms(1), of "sys_kernel s"]
  by (auto simp: cached_bytes_def cache_ok_def file_at_def bind_eq_Some_conv)

lemma content_ok_nodes:
  assumes "clean_abs root" "kernel_wf k" "kernel_wf k'" "node_at k' = node_at k" "content_ok root k"
  shows "content_ok root k'"
  using assms content_ok_iff [OF assms(2,1)] content_ok_iff [OF assms(3,1)] by (simp add: file_at_def)

section \<open>PutContents on the invariant\<close>

lemma PutContents_run:
  assumes "clean_abs (cc_root cache)" "env_ok env" "cache_ok (cc_root cache) s"
  obtains r s' where "PutContents env cache path s = (Ret r, s')" "cache_ok (cc_root cache) s'"
    "put_post env (cc_root cache) (node_at (sys_kernel s)) (open_bytes (sys_kernel s) path) r (node_at (sys_kernel s'))"
proof -
  let ?N = "node_at (sys_kernel s)" and ?src = "open_bytes (sys_kernel s) path" and ?root = "cc_root cache"
  have pre: "sys_ok (\<lambda>k. kernel_wf k \<and> node_at k = ?N \<and> open_bytes k path = ?src) s"
    using assms(3) by (simp add: sys_ok_def cache_ok_def)
  obtain r s' where run: "PutContents env cache path s = (Ret r, s')"
    and post: "sys_ok (\<lambda>k. kernel_wf k \<and> put_post env ?root ?N ?src r (node_at k)) s'"
    by (rule returnsE [OF PutContents_spec [OF assms(1,2)] pre])
  have wf: "kernel_wf (sys_kernel s)" "kernel_wf (sys_kernel s')" "content_ok ?root (sys_kernel s)"
    and pp: "put_post env ?root ?N ?src r (node_at (sys_kernel s'))"
    using assms(3) post by (auto simp: sys_ok_def cache_ok_def)
  have "content_ok ?root (sys_kernel s')"
  proof (cases "node_at (sys_kernel s') = ?N")
    case True
    then show ?thesis using content_ok_nodes [OF assms(1)] wf by blast
  next
    case False
    then obtain tp h where "temp_path ?root tp" "cache_delta ?root ?N tp h (node_at (sys_kernel s'))"
      using pp by (auto simp: put_post_def put_result_def)
    then show ?thesis using cache_delta_content [OF assms(1)] wf by blast
  qed
  then show thesis using that run post pp wf by (simp add: sys_ok_def cache_ok_def)
qed

lemma put_post_success:
  assumes "put_post env root N src (Inr key) M"
  obtains h where "src = Inr h" "key = md5_hex h" "M (key_path root key) \<noteq> None"
  using assms by (auto simp: put_post_def put_result_def)

lemma put_post_cases:
  assumes "put_post env root N src r M"
  obtains (same) "M = N"
  | (changed) tp h where "temp_path root tp" "cache_delta root N tp h M" "env_quiet env \<Longrightarrow> M tp = None"
  using assms by (auto simp: put_post_def put_result_def)

text \<open>Files outside the cache and other keys are untouched, and no key is lost.\<close>

lemma put_post_frame:
  assumes "put_post env root N src r M" "N p \<noteq> None" "\<And>h. p \<noteq> key_path root (md5_hex h)"
  shows "M p = N p"
  using assms(1)
proof (cases rule: put_post_cases)
  case (changed tp h)
  then have "p \<noteq> tp" using assms(2) by (auto simp: cache_delta_def Let_def)
  then show ?thesis using changed(2) assms(2,3) by (cases "p = path_Join root (take 2 (md5_hex h))") (auto simp: cache_delta_def Let_def)
qed simp

lemma put_post_keys:
  assumes "clean_abs root" "put_post env root N src r M" "valid_key key" "N (key_path root key) \<noteq> None"
  shows "M (key_path root key) \<noteq> None"
proof (cases "M = N")
  case False
  then obtain tp h where tp: "temp_path root tp" "cache_delta root N tp h M"
    using assms(2) by (auto simp: put_post_def put_result_def)
  have ne: "key_path root key \<noteq> path_Join root (take 2 (md5_hex h))"
    by (rule key_path_ne_child [OF assms(1,3) valid_key_names(2) [OF valid_key_md5]])
  have "N tp = None" using tp(2) by (simp add: cache_delta_def Let_def)
  then have "key_path root key \<noteq> tp" using assms(4) by auto
  then show ?thesis using tp(2) ne assms(4) by (auto simp: cache_delta_def Let_def)
qed (use assms(4) in simp)

text \<open>Without faults nothing but the bucket and the file of the key appears.\<close>

lemma put_post_clean:
  assumes "put_post env root N src r M" "env_quiet env" "N p = None" "M p \<noteq> None"
  shows "\<exists>h. p = path_Join root (take 2 (md5_hex h)) \<or> p = key_path root (md5_hex h)"
  using assms(1)
proof (cases rule: put_post_cases)
  case (changed tp h)
  then have "p \<noteq> tp" using assms(2,4) by auto
  moreover have "M p \<noteq> N p" using assms(3,4) by simp
  ultimately show ?thesis using changed(2) unfolding cache_delta_def Let_def by blast
qed (use assms in simp)

section \<open>Insertion\<close>

lemma PutContents_New_run:
  assumes "clean_abs root" "env_ok env" "cache_ok root s"
  obtains r s' where "PutContents env (NewContentCache root) path s = (Ret r, s')" "cache_ok root s'"
    "put_post env root (node_at (sys_kernel s)) (open_bytes (sys_kernel s) path) r (node_at (sys_kernel s'))"
proof -
  have root: "cc_root (NewContentCache root) = root" by (simp add: NewContentCache_def)
  show thesis
    by (rule PutContents_run [of "NewContentCache root" env s path, unfolded root, OF assms]) (rule that)
qed

text \<open>What a successful insertion leaves behind.\<close>

lemma put_post_Inr:
  assumes root: "clean_abs root" and post: "put_post env root (node_at k) src (Inr key) (node_at k')"
    and wf: "kernel_wf k" "kernel_wf k'"
  obtains bs where "src = Inr bs" "key = md5_hex bs" "node_at k' (key_path root key) \<noteq> None"
    "file_at k' (key_path root key) = Some bs \<or> node_at k' (key_path root key) = node_at k (key_path root key)"
    "\<And>p. env_quiet env \<Longrightarrow> node_at k p = None \<Longrightarrow> node_at k' p \<noteq> None \<Longrightarrow>
      p \<in> {path_Join root (take 2 key), key_path root key}"
proof -
  obtain tp h where tp: "cache_delta root (node_at k) tp h (node_at k')" "src = Inr h" "key = md5_hex h"
    "node_at k' (key_path root key) \<noteq> None" "env_quiet env \<Longrightarrow> node_at k' tp = None"
    using post by (auto simp: put_post_def put_result_def)
  show thesis
  proof (rule that [OF tp(2-4)])
    show "file_at k' (key_path root key) = Some h \<or> node_at k' (key_path root key) = node_at k (key_path root key)"
      using tp(1,3) by (auto simp: cache_delta_def Let_def file_at_def node_bytes_def)
    show "p \<in> {path_Join root (take 2 key), key_path root key}"
      if "env_quiet env" "node_at k p = None" "node_at k' p \<noteq> None" for p
    proof -
      have "p \<noteq> tp" using tp(5) that by auto
      moreover have "node_at k' p \<noteq> node_at k p" using that by simp
      ultimately show ?thesis using tp(1,3) unfolding cache_delta_def Let_def by blast
    qed
  qed
qed

lemma PutContents_quiet:
  assumes "clean_abs root" "env_ok env" "cache_ok root s" "env_quiet env"
    and "open_bytes (sys_kernel s) path = Inr bs" "can_store root (node_at (sys_kernel s)) (md5_hex bs)"
    and "\<forall>t. node_at (sys_kernel s) (temp_name env root t) = None"
  obtains s' where "PutContents env (NewContentCache root) path s = (Ret (Inr (md5_hex bs)), s')"
    "cache_ok root s'" "cached_bytes root s' (md5_hex bs) \<noteq> None"
    "cached_bytes root s' (md5_hex bs) = Some bs \<or> cached_bytes root s' (md5_hex bs) = cached_bytes root s (md5_hex bs)"
    "\<And>p. node_at (sys_kernel s) p = None \<Longrightarrow> node_at (sys_kernel s') p \<noteq> None \<Longrightarrow>
       p \<in> {path_Join root (take 2 (md5_hex bs)), key_path root (md5_hex bs)}"
proof -
  obtain r s' where run: "PutContents env (NewContentCache root) path s = (Ret r, s')" "cache_ok root s'"
    and post: "put_post env root (node_at (sys_kernel s)) (open_bytes (sys_kernel s) path) r (node_at (sys_kernel s'))"
    by (rule PutContents_New_run [OF assms(1-3)])
  have r: "r = Inr (md5_hex bs)" using post assms(4-7) by (auto simp: put_post_def)
  have wf: "kernel_wf (sys_kernel s)" "kernel_wf (sys_kernel s')" using assms(3) run(2) by (auto simp: cache_ok_def)
  obtain bs' where bs': "open_bytes (sys_kernel s) path = Inr bs'"
    "node_at (sys_kernel s') (key_path root (md5_hex bs)) \<noteq> None"
    "file_at (sys_kernel s') (key_path root (md5_hex bs)) = Some bs' \<or>
      node_at (sys_kernel s') (key_path root (md5_hex bs)) = node_at (sys_kernel s) (key_path root (md5_hex bs))"
    and new: "\<And>p. node_at (sys_kernel s) p = None \<Longrightarrow> node_at (sys_kernel s') p \<noteq> None \<Longrightarrow>
       p \<in> {path_Join root (take 2 (md5_hex bs)), key_path root (md5_hex bs)}"
    using put_post_Inr [OF assms(1) post [unfolded r] wf] assms(4) by metis
  have "bs' = bs" using bs'(1) assms(5) by simp
  moreover have "cached_bytes root s' (md5_hex bs) \<noteq> None"
    using bs'(2) cached_iff_node [OF assms(1) run(2) valid_key_md5] by blast
  ultimately show thesis
    using that [of s'] run r bs'(3) new by (auto simp: cached_bytes_def valid_key_md5 file_at_def)
qed

section \<open>Retrieval without faults\<close>

lemma GetFileForContents_quiet:
  assumes "clean_abs root" "cache_ok root s" "valid_key key" "env_quiet env"
  shows "\<exists>s'. GetFileForContents env (NewContentCache root) key s =
      (Ret (case cached_bytes root s key of
         Some _ \<Rightarrow> Inr (key_path root key)
       | None \<Rightarrow> Inl (ErrorString (''attempted to get non-existent key '' @ key))), s') \<and>
    cached_bytes root s' = cached_bytes root s \<and> cache_ok root s'"
proof -
  let ?cache = "NewContentCache root"
  have root: "clean_abs (cc_root ?cache)" using assms(1) by (simp add: NewContentCache_def)
  have pre: "sys_ok (\<lambda>k. kernel_wf k \<and> node_at k = node_at (sys_kernel s)) s"
    using assms(2) by (simp add: sys_ok_def cache_ok_def)
  obtain r s' where has: "HasKey env ?cache key s = (Ret r, s')"
    and wf: "stats_wf (sys_stats s')" "kernel_wf (sys_kernel s')"
    and same: "node_at (sys_kernel s') = node_at (sys_kernel s)"
    and r: "r = Inr (node_at (sys_kernel s') (key_path root key) \<noteq> None)"
    by (rule returnsE [OF HasKey_spec [OF root assms(3), where R = "\<lambda>M. M = node_at (sys_kernel s)" and env = env] pre])
       (use assms(4) in \<open>auto simp: sys_ok_def NewContentCache_def\<close>)
  have "cache_ok root s'"
    using content_ok_nodes [OF assms(1) _ wf(2) same] assms(2) wf by (simp add: cache_ok_def)
  moreover have "cached_bytes root s' = cached_bytes root s" by (simp add: cached_bytes_def file_at_def same fun_eq_iff)
  moreover have "(node_at (sys_kernel s') (key_path root key) \<noteq> None) = (cached_bytes root s key \<noteq> None)"
    using cached_iff_node [OF assms(1-3)] same by simp
  ultimately show ?thesis
    using has r
    by (auto simp: GetFileForContents_def try_bnd_def bnd_def pathForKey_run [OF root assms(3), unfolded NewContentCache_def] NewContentCache_def
        split: option.split)
qed

section \<open>The contract\<close>

locale content_store =
  fixes invar :: "'s \<Rightarrow> bool"
    and held :: "'s \<Rightarrow> Key \<Rightarrow> byte list option"
    and digest :: "byte list \<Rightarrow> Key"
    and put :: "string \<Rightarrow> ('s, Key result) prog"
    and locate :: "Key \<Rightarrow> ('s, string result) prog"
  assumes held_digest: "invar s \<Longrightarrow> held s key = Some bs \<Longrightarrow> digest bs = key"
    and put_returns: "invar s \<Longrightarrow> \<exists>r s'. put p s = (Ret r, s') \<and> invar s' \<and>
      (\<forall>key. r = Inr key \<longrightarrow> held s' key \<noteq> None) \<and> (\<forall>key. held s key \<noteq> None \<longrightarrow> held s' key \<noteq> None)"
    and locate_returns: "invar s \<Longrightarrow> held s key \<noteq> None \<Longrightarrow>
      \<exists>r s'. locate key s = (Ret r, s') \<and> invar s' \<and> held s' = held s"
begin

text \<open>A run of insertions, each of which may fail, with the results in order.\<close>

fun puts :: "string list \<Rightarrow> ('s, Key result list) prog" where
  "puts [] = ret []"
| "puts (p # ps) = bnd (put p) (\<lambda>r. bnd (puts ps) (\<lambda>rs. ret (r # rs)))"

lemma puts_return:
  assumes "invar s"
  shows "\<exists>rs s'. puts ps s = (Ret rs, s') \<and> length rs = length ps \<and> invar s' \<and>
    (\<forall>key. held s key \<noteq> None \<or> Inr key \<in> set rs \<longrightarrow> held s' key \<noteq> None)"
  using assms
proof (induction ps arbitrary: s)
  case (Cons p ps)
  obtain r s1 where r: "put p s = (Ret r, s1)" "invar s1"
    "\<forall>key. r = Inr key \<longrightarrow> held s1 key \<noteq> None" "\<forall>key. held s key \<noteq> None \<longrightarrow> held s1 key \<noteq> None"
    using put_returns [OF Cons.prems] by blast
  obtain rs s2 where rs: "puts ps s1 = (Ret rs, s2)" "length rs = length ps" "invar s2"
    "\<forall>key. held s1 key \<noteq> None \<or> Inr key \<in> set rs \<longrightarrow> held s2 key \<noteq> None"
    using Cons.IH [OF r(2)] by blast
  have "puts (p # ps) s = (Ret (r # rs), s2)" using r(1) rs(1) by (simp add: bnd_def)
  moreover have "\<forall>key. held s key \<noteq> None \<or> Inr key \<in> set (r # rs) \<longrightarrow> held s2 key \<noteq> None"
    using r(3,4) rs(4) by auto
  ultimately show ?case using rs(2,3) by auto
qed simp

lemma puts_digest:
  assumes "invar s" "puts ps s = (Ret rs, s')" "Inr key \<in> set rs"
  shows "\<exists>bs. held s' key = Some bs \<and> digest bs = key"
proof -
  have "invar s'" "held s' key \<noteq> None" using puts_return [OF assms(1), of ps] assms(2,3) by auto
  then show ?thesis using held_digest by auto
qed

end

text \<open>The cache meets the contract whenever its directory is an absolute clean path.\<close>

interpretation cs: content_store "\<lambda>s. clean_abs root \<and> env_ok env \<and> cache_ok root s" "cached_bytes root" "\<lambda>bs. md5_hex bs"
  "PutContents env (NewContentCache root)" "GetFileForContents env (NewContentCache root)" for root env
proof unfold_locales
  fix s key bs
  assume "clean_abs root \<and> env_ok env \<and> cache_ok root s" "cached_bytes root s key = Some bs"
  then show "md5_hex bs = key" using cached_bytes_digest by blast
next
  fix s p
  assume inv: "clean_abs root \<and> env_ok env \<and> cache_ok root s"
  then obtain r s' where run: "PutContents env (NewContentCache root) p s = (Ret r, s')" "cache_ok root s'"
    "put_post env root (node_at (sys_kernel s)) (open_bytes (sys_kernel s) p) r (node_at (sys_kernel s'))"
    using PutContents_run [of "NewContentCache root" env s p] by (auto simp: NewContentCache_def)
  have "cached_bytes root s' key \<noteq> None" if "r = Inr key" for key
    using put_post_success [of env root _ _ key] run(3) that cached_iff_node [of root s'] inv run(2) valid_key_md5
    by (metis (no_types, lifting))
  moreover have "cached_bytes root s' key \<noteq> None" if "cached_bytes root s key \<noteq> None" for key
  proof -
    have key: "valid_key key" using that by (auto simp: cached_bytes_def split: if_splits)
    then show ?thesis
      using that put_post_keys [OF _ run(3) key] cached_iff_node [OF _ _ key] inv run(2) by blast
  qed
  ultimately show "\<exists>r s'. PutContents env (NewContentCache root) p s = (Ret r, s') \<and>
      (clean_abs root \<and> env_ok env \<and> cache_ok root s') \<and> (\<forall>key. r = Inr key \<longrightarrow> cached_bytes root s' key \<noteq> None) \<and>
      (\<forall>key. cached_bytes root s key \<noteq> None \<longrightarrow> cached_bytes root s' key \<noteq> None)"
    using run inv by blast
next
  fix s key
  assume inv: "clean_abs root \<and> env_ok env \<and> cache_ok root s" "cached_bytes root s key \<noteq> None"
  then have key: "valid_key key" by (auto simp: cached_bytes_def split: if_splits)
  have root: "clean_abs (cc_root (NewContentCache root))" using inv by (simp add: NewContentCache_def)
  have pre: "sys_ok (\<lambda>k. kernel_wf k \<and> node_at k = node_at (sys_kernel s)) s"
    using inv by (simp add: sys_ok_def cache_ok_def)
  obtain r s' where run: "GetFileForContents env (NewContentCache root) key s = (Ret r, s')"
    and wf: "stats_wf (sys_stats s')" "kernel_wf (sys_kernel s')"
    and same: "node_at (sys_kernel s') = node_at (sys_kernel s)"
    by (rule returnsE [OF GetFileForContents_spec [OF root key, where R = "\<lambda>M. M = node_at (sys_kernel s)"] pre])
       (auto simp: sys_ok_def)
  have "content_ok root (sys_kernel s')"
    by (rule content_ok_nodes [OF _ _ wf(2) same]) (use inv in \<open>simp_all add: cache_ok_def\<close>)
  then show "\<exists>r s'. GetFileForContents env (NewContentCache root) key s = (Ret r, s') \<and>
      (clean_abs root \<and> env_ok env \<and> cache_ok root s') \<and> cached_bytes root s' = cached_bytes root s"
    using run wf same inv by (auto simp: cache_ok_def cached_bytes_def file_at_def fun_eq_iff)
qed

end
