(* ===== verification/Fs_Laws.thy ===== *)
theory Fs_Laws
  imports Fs_Dir Fs_File Content_Store
begin

text \<open>
  Laws of the handlers. An invariant of the world that every operation of the layers below keeps is kept
  by every handler; the handlers' lazily loaded fields share one contract, from which it follows that an
  answer once given is given again without the remote file system.
\<close>

section \<open>Invariants of the world\<close>

text \<open>What every handler but a lookup in a direct directory issues.\<close>

locale fs_operations =
  fixes g :: globalState
    and W :: "world \<Rightarrow> bool"
  assumes reports: "keeps W (report ev)"
    and reads: "keeps W (in_db (GetFullEntry (g_engine g) p))" "keeps W (in_db (GetDirEntries (g_engine g) i m))"
    and inserts: "keeps W (in_db (PutNewWithType (g_engine g) p md))" "keeps W (in_db (PutNewNoEntry (g_engine g) p))"
    and puts: "keeps W (in_db (PutFileInfo (g_engine g) i fi))" "keeps W (in_db (PutSymlinkTarget (g_engine g) i tgt))"
    and listed: "W w \<Longrightarrow> in_sys (tracedReader_Readdir (g_env g) f) w = (Ret (fis, None), w') \<Longrightarrow>
      W (snd (in_db (PutDirEntries (g_engine g) i p fis) w'))"
    and kernel_ops: "keeps W (in_sys (syscalls_Lstat (g_env g) d p))" "keeps W (in_sys (syscalls_Readlink (g_env g) d p))"
      "keeps W (in_sys (syscalls_Open (g_env g) d p))" "keeps W (in_sys (tracedReader_Close (g_env g) f))"
      "keeps W (in_sys (tracedReader_Readdir (g_env g) f))" "keeps W (in_sys (tracedReader_ReadAt (g_env g) f n off))"
    and content_ops: "keeps W (in_sys (PutContents (g_env g) (g_content g) p))"
      "keeps W (in_sys (GetFileForContents (g_env g) (g_content g) key))"
    and fetched: "W w \<Longrightarrow> in_sys (PutContents (g_env g) (g_content g) p) w = (Ret (Inr key), w') \<Longrightarrow>
      W (snd (in_db (PutContentHash (g_engine g) i key) w'))"
begin

lemmas cache_ops = reports reads inserts puts kernel_ops content_ops

lemmas node_ops [keeps_rules] = cache_ops [THEN keeps_outer]

lemma keeps_newNodeForEntry: "keeps I (newNodeForEntry g p b row n)"
  unfolding newNodeForEntry_def by (intro keeps_rules)

lemma keeps_commonAttr: "keeps (\<lambda>(w, fi). W w) (commonAttr g i direct p)"
  unfolding commonAttr_def fill_attr_def Let_def by (intro keeps_rules)

lemma keeps_Attr:
  "keeps (\<lambda>(w, n). W w) (Dir_Attr g)" "keeps (\<lambda>(w, n). W w) (File_Attr g)" "keeps (\<lambda>(w, n). W w) (Symlink_Attr g)"
  unfolding Dir_Attr_def File_Attr_def Symlink_Attr_def dir_info_def file_info_def symlink_info_def
  by (intro keeps_rules keeps_zoom [OF _ keeps_commonAttr]; auto)+

text \<open>A lookup in a direct directory may change the type that the row of the name has.\<close>

lemma keeps_Lookup_at:
  assumes "W w"
    and "\<And>md. d_direct d \<Longrightarrow> keeps W (in_db (PutNewOrUpdateWithType (g_engine g) (path_Join (d_path d) name) md))"
    and "d_direct d \<Longrightarrow> keeps W (in_db (PutNewOrUpdateNoEntry (g_engine g) (path_Join (d_path d) name)))"
  shows "W (fst (snd (Dir_Lookup g name (w, d))))"
proof -
  let ?slow = "try_bnd (outer (in_db (GetFullEntry (g_engine g) (path_Join (d_path d) name)))) (\<lambda>cachedRow.
       if d_direct d then Lookup_direct g d name (cachedRow \<noteq> None)
       else if cachedRow = None then Lookup_miss g d name
       else bnd (outer (report (EvCacheHit LookupFuseOp))) (\<lambda>_. Lookup_finish g d name cachedRow))"
  have direct: "keeps (\<lambda>(w, n). W w) (Lookup_direct g d name c)" if "d_direct d" for c
    unfolding Lookup_direct_def Lookup_reload_def Lookup_finish_def Let_def
    using assms(2,3) [OF that, THEN keeps_outer] by (intro keeps_rules keeps_newNodeForEntry)
  have "keeps (\<lambda>(w, n). W w) ?slow"
    unfolding Lookup_miss_def Lookup_reload_def Lookup_finish_def Let_def
    by (intro keeps_try_bnd keeps_if direct; (intro keeps_rules keeps_newNodeForEntry)?)
  then have "W (fst (snd (?slow (w, d))))" using keepsD [of "\<lambda>(w, n). W w" ?slow "(w, d)"] assms(1) by (simp add: case_prod_beta)
  moreover have "W (fst (snd (newNodeForEntry g (d_path d) (d_belowPath d) row name (w, d))))" for row
    using keepsD [OF keeps_newNodeForEntry, of "\<lambda>(w, n). W w" "(w, d)"] assms(1) by (simp add: case_prod_beta)
  ultimately show ?thesis
    unfolding Dir_Lookup_def bnd_run_simps(2) snd_conv Let_def by (auto split: option.split)
qed

lemma keeps_make_dirents: "keeps I (make_dirents es acc)"
  by (induction es acc rule: make_dirents.induct) (auto simp: Let_def keeps_def)

lemma keeps_reload: "keeps (\<lambda>(w, n). W w) (reload_dirEntries g dir)"
  unfolding reload_dirEntries_def list_dirents_def by (intro keeps_rules keeps_make_dirents)

lemma keeps_fetch: "keeps (\<lambda>(w, n). W w) (fetch_dirEntries g dir f)"
proof -
  let ?rd = "outer (in_sys (tracedReader_Readdir (g_env g) f)) :: (world \<times> Dir, _) prog"
  have "keeps (\<lambda>(w, n). W w) (bnd ?rd (\<lambda>(fis, err). case err of
         Some err \<Rightarrow> ret (Inl err)
       | None \<Rightarrow> try_bnd (outer (in_db (PutDirEntries (g_engine g) (d_inode dir) (d_path dir) fis))) (\<lambda>_.
           reload_dirEntries g dir)))" (is "keeps ?I (bnd _ ?f)")
  proof (rule keepsI)
    fix s
    assume s: "?I s"
    obtain w n where wn: "s = (w, n)" by (cases s)
    obtain x w' where run: "in_sys (tracedReader_Readdir (g_env g) f) w = (x, w')"
      by (cases "in_sys (tracedReader_Readdir (g_env g) f) w")
    have w': "W w'" using keepsD_run [OF kernel_ops(5) _ run] s wn by simp
    have cont: "?I (snd (?f (fis, err) (w', n)))" if "x = Ret (fis, err)" for fis err
    proof (cases err)
      case None
      let ?put = "in_db (PutDirEntries (g_engine g) (d_inode dir) (d_path dir) fis)"
      have "W (snd (?put w'))" using listed [of w f fis w'] s wn run that None by simp
      then show ?thesis
        using keepsD [OF keeps_reload, of "(snd (?put w'), n)" dir] unfolding None prod.case option.case
        by (cases "?put w'") (auto simp: try_bnd_def bnd_def zoom_def split: outcome.splits sum.splits)
    qed (use w' in simp)
    show "?I (snd (bnd ?rd ?f s))"
      using cont w' by (auto simp: wn bnd_def zoom_def run split: outcome.splits)
  qed
  then show ?thesis unfolding fetch_dirEntries_def by (rule keeps_defer [rotated]) (rule node_ops)
qed

lemma keeps_ReadDirAll: "keeps (\<lambda>(w, n). W w) (Dir_ReadDirAll g)"
  unfolding Dir_ReadDirAll_def list_dirents_def Let_def
  by (intro keeps_rules keeps_fetch keeps_reload keeps_make_dirents)

lemma keeps_open_cached: "keeps (\<lambda>(w, n). W w) (open_cached g)"
  unfolding open_cached_def by (intro keeps_rules)

text \<open>The hash that is recorded is that of the content just stored.\<close>

lemma keeps_fetch_content:
  assumes "\<And>err. keeps (\<lambda>(w, n). W w) (k err)"
  shows "keeps (\<lambda>(w, n). W w) (bnd (outer (in_sys (PutContents (g_env g) (g_content g) p))) (\<lambda>r. case r of
    Inl err \<Rightarrow> k err | Inr key \<Rightarrow> store_fetched g file key))"
    (is "keeps ?I (bnd ?m ?f)")
proof (rule keepsI)
  fix s
  assume s: "?I s"
  obtain w n where wn: "s = (w, n)" by (cases s)
  obtain x w' where run: "in_sys (PutContents (g_env g) (g_content g) p) w = (x, w')"
    by (cases "in_sys (PutContents (g_env g) (g_content g) p) w")
  have w': "W w'" using keepsD_run [OF content_ops(1) _ run] s wn by simp
  have stored: "?I (snd (store_fetched g file key (w', n)))" if "x = Ret (Inr key)" for key
  proof -
    let ?put = "in_db (PutContentHash (g_engine g) (f_inode file) key)"
    have hash: "W (snd (?put w'))" using fetched [of w p key w' "f_inode file"] s wn run that by simp
    have rest: "keeps ?I (bnd (modify (\<lambda>(w, f). (w, set_contentHash key f))) (\<lambda>_. open_cached g))"
      by (intro keeps_rules keeps_open_cached)
    show ?thesis
      unfolding store_fetched_def
      using hash keepsD [OF rest, of "(snd (?put w'), n)"]
      by (cases "?put w'") (auto simp: try_bnd_def bnd_def zoom_def split: outcome.splits sum.splits)
  qed
  have "?I (snd (k err (w', n)))" for err using keepsD [OF assms, of "(w', n)"] w' by simp
  with stored show "?I (snd (bnd ?m ?f s))"
    using w' by (auto simp: wn bnd_def zoom_def run split: outcome.splits sum.splits)
qed

lemma keeps_Open: "keeps (\<lambda>(w, n). W w) (File_Open g)"
  unfolding File_Open_def Let_def try_bnd_def
  by (intro keeps_rules keeps_fetch_content keeps_open_cached)

lemma keeps_openFile:
  "keeps (\<lambda>(w, n). W w) (openFile_Read g n off)" "keeps (\<lambda>(w, n). W w) (openFile_Release g)"
  unfolding openFile_Read_def openFile_Release_def by (intro keeps_rules)+

lemma keeps_Readlink: "keeps (\<lambda>(w, n). W w) (Symlink_Readlink g)"
  unfolding Symlink_Readlink_def store_target_def return_target_def Let_def by (intro keeps_rules)

end

locale fs_invariant = fs_operations +
  assumes upserts: "keeps W (in_db (PutNewOrUpdateWithType (g_engine g) p md))"
      "keeps W (in_db (PutNewOrUpdateNoEntry (g_engine g) p))"
begin

lemmas world_ops = cache_ops upserts

lemma keeps_putAndGetRow: "keeps W (putAndGetRow g p m)"
  unfolding putAndGetRow_def Let_def by (intro keeps_rules world_ops)

lemma keeps_Lookup: "keeps (\<lambda>(w, n). W w) (Dir_Lookup g name)"
  by (rule keepsI) (use keeps_Lookup_at [OF _ upserts] in \<open>auto simp: case_prod_beta\<close>)

lemmas keeps_handlers = keeps_Attr keeps_Lookup keeps_ReadDirAll keeps_Open keeps_openFile keeps_Readlink

end

section \<open>The invariants of the mounted file system\<close>

definition names_ok :: "kernel \<Rightarrow> bool" where
  "names_ok k \<longleftrightarrow> list_all (\<lambda>(p, _). dirEntryFieldSeparator \<notin> set p) (k_files k)"

text \<open>
  The database holds well-formed rows and decodable listings, every cached content has the digest it is
  filed under, the counters exist, and no file name contains the byte that separates the fields of a
  stored listing.
\<close>

definition kernel_ok :: "string \<Rightarrow> kernel \<Rightarrow> bool" where
  "kernel_ok root k \<longleftrightarrow> kernel_wf k \<and> content_ok root k \<and> names_ok k"

definition globals_ok :: "globalState \<Rightarrow> bool" where
  "globals_ok g \<longleftrightarrow> engine_ok (g_engine g) \<and> env_ok (g_env g) \<and> clean_abs (cc_root (g_content g)) \<and>
     dirEntryFieldSeparator \<notin> set (cc_root (g_content g))"

definition world_ok :: "globalState \<Rightarrow> world \<Rightarrow> bool" where
  "world_ok g w \<longleftrightarrow> globals_ok g \<and>
     table_ok (db_rows (w_db w)) \<and> sys_ok (kernel_ok (cc_root (g_content g))) (w_sys w)"

lemma keeps_in_db: "keeps (\<lambda>d. I (db_rows d)) m \<Longrightarrow> keeps (\<lambda>w. I (db_rows (w_db w)) \<and> J (w_sys w)) (in_db m)"
  by (auto simp: in_db_def keeps_def zoom_def split: prod.split)

lemma keeps_in_sys: "keeps J m \<Longrightarrow> keeps (\<lambda>w. I (db_rows (w_db w)) \<and> J (w_sys w)) (in_sys m)"
  by (auto simp: in_sys_def keeps_def zoom_def split: prod.split)

lemma keeps_sys_ok_account: "keeps (sys_ok K) (in_stats (account ev))"
proof -
  have "keeps stats_wf (account ev)" by (rule keepsI) (rule account_wf)
  then show ?thesis unfolding sys_ok_def [abs_def] by (intro keeps_conj keeps_in_stats)
qed

lemma keeps_sys_ok_kernel: "keeps K m \<Longrightarrow> keeps (sys_ok K) (in_kernel m)"
  unfolding sys_ok_def [abs_def] by (intro keeps_conj keeps_in_kernel)

lemmas keeps_sys_ok_AccountOsOp = keeps_sys_ok_account [of _ "EvOsOp d op" for d op, simplified]
lemmas keeps_sys_ok_AccountReadBytes = keeps_sys_ok_account [of _ "EvReadBytes d n" for d n, simplified]

text \<open>The kernel operations the handlers issue themselves leave the tree alone.\<close>

lemma kernel_ok_tree: "tree k' = tree k \<Longrightarrow> kernel_wf k' \<Longrightarrow> kernel_ok root k \<Longrightarrow> kernel_ok root k'"
  by (simp add: kernel_ok_def tree_def content_ok_def names_ok_def)

lemma keeps_kernel_ok:
  assumes "\<And>c. keeps (\<lambda>k. tree k = c) m" "keeps kernel_wf m"
  shows "keeps (kernel_ok root) m"
proof (rule keepsI)
  fix k
  assume k: "kernel_ok root k"
  then have "kernel_wf (snd (m k))" using keepsD [OF assms(2)] by (simp add: kernel_ok_def)
  then show "kernel_ok root (snd (m k))" using k kernel_ok_tree [OF keeps_frame [OF assms(1)]] by blast
qed

lemma keeps_sys_ok_calls:
  "keeps (sys_ok (kernel_ok root)) (syscalls_Lstat env d p)" "keeps (sys_ok (kernel_ok root)) (syscalls_Readlink env d p)"
  "keeps (sys_ok (kernel_ok root)) (syscalls_Open env d p)" "keeps (sys_ok (kernel_ok root)) (tracedReader_Close env f)"
  "keeps (sys_ok (kernel_ok root)) (tracedReader_Readdir env f)"
  "keeps (sys_ok (kernel_ok root)) (tracedReader_ReadAt env f n off)"
  unfolding syscalls_Lstat_def syscalls_Readlink_def syscalls_Open_def tracedReader_Close_def
    tracedReader_Readdir_def tracedReader_ReadAt_def Let_def
  by (intro keeps_rules keeps_sys_ok_AccountOsOp keeps_sys_ok_AccountReadBytes keeps_sys_ok_kernel keeps_kernel_ok
      keeps_tree keeps_wf)+

lemma names_ok_iff:
  assumes "kernel_wf k"
  shows "names_ok k \<longleftrightarrow> (\<forall>p. node_at k p \<noteq> None \<longrightarrow> dirEntryFieldSeparator \<notin> set p)"
proof -
  have eq: "node_at k p \<noteq> None \<longleftrightarrow> p \<in> fst ` set (k_files k)" for p
    by (subst node_at_Some [OF assms]) simp
  show ?thesis unfolding names_ok_def list_all_iff eq by auto
qed

lemma cache_names:
  assumes root: "clean_abs root" "dirEntryFieldSeparator \<notin> set root" and key: "valid_key key"
  shows "dirEntryFieldSeparator \<notin> set (path_Join root (take 2 key))" "dirEntryFieldSeparator \<notin> set (key_path root key)"
    "temp_path root tp \<Longrightarrow> dirEntryFieldSeparator \<notin> set tp"
proof -
  have "dirEntryFieldSeparator \<notin> set hex_digits" by (simp add: hex_digits_def dirEntryFieldSeparator_def)
  then have k: "dirEntryFieldSeparator \<notin> set key" using key by (auto simp: valid_key_def list_all_iff)
  note names = valid_key_names [OF key]
  show b: "dirEntryFieldSeparator \<notin> set (path_Join root (take 2 key))"
    using set_path_Join [OF root(1) names(2)] root(2) k set_take_subset [of 2 key]
    by (auto simp: dirEntryFieldSeparator_def)
  show "dirEntryFieldSeparator \<notin> set (key_path root key)"
    using set_path_Join [OF path_Join_clean_abs [OF root(1) names(2)] names(1)] b k
    by (auto simp: key_path_def dirEntryFieldSeparator_def)
  assume "temp_path root tp"
  then obtain x where x: "CHR ''/'' \<notin> set x" "CHR 0x01 \<notin> set x" "tp = path_Join root (''partial'' @ x)"
    by (auto simp: temp_path_def)
  have "valid_name (''partial'' @ x)" using x(1) by (simp add: valid_name_def)
  from set_path_Join [OF root(1) this] show "dirEntryFieldSeparator \<notin> set tp"
    using root(2) x by (auto simp: dirEntryFieldSeparator_def)
qed

lemma keeps_PutContents:
  assumes "clean_abs (cc_root cache)" "env_ok env" "dirEntryFieldSeparator \<notin> set (cc_root cache)"
  shows "keeps (sys_ok (kernel_ok (cc_root cache))) (PutContents env cache path)"
proof (rule keepsI)
  fix s
  let ?root = "cc_root cache"
  assume s: "sys_ok (kernel_ok ?root) s"
  then have "cache_ok ?root s" by (simp add: sys_ok_def kernel_ok_def cache_ok_def)
  then obtain r s' where run: "PutContents env cache path s = (Ret r, s')" "cache_ok ?root s'"
    and post: "put_post env ?root (node_at (sys_kernel s)) (open_bytes (sys_kernel s) path) r (node_at (sys_kernel s'))"
    by (rule PutContents_run [OF assms(1,2)])
  have old: "\<forall>p. node_at (sys_kernel s) p \<noteq> None \<longrightarrow> dirEntryFieldSeparator \<notin> set p"
    using s by (intro names_ok_iff [THEN iffD1]) (simp_all add: sys_ok_def kernel_ok_def)
  from post have "dirEntryFieldSeparator \<notin> set p" if "node_at (sys_kernel s') p \<noteq> None" for p
  proof (cases rule: put_post_cases)
    case (changed tp h)
    then show ?thesis
      using cache_names [OF assms(1,3) valid_key_md5 [of h]] old that
      by (cases "p \<in> {tp, path_Join ?root (take 2 (md5_hex h)), key_path ?root (md5_hex h)}")
         (auto simp: cache_delta_def Let_def)
  qed (use old that in simp)
  then have "names_ok (sys_kernel s')"
    using run(2) by (intro names_ok_iff [THEN iffD2]) (simp_all add: cache_ok_def)
  with run show "sys_ok (kernel_ok ?root) (snd (PutContents env cache path s))"
    by (simp add: sys_ok_def kernel_ok_def cache_ok_def)
qed

lemma keeps_GetFileForContents:
  "keeps (sys_ok (kernel_ok root)) (GetFileForContents env cache key)"
  unfolding GetFileForContents_def HasKey_def pathForKey_def bucketForKey_def
  by (intro keeps_rules keeps_sys_ok_calls)

lemma kernel_Readdir_names:
  assumes "names_ok k" "file_Readdir env f k = (Ret (fis, None), k')"
  shows "\<forall>fi\<in>set fis. valid_name (Name fi) \<and> sep_free (Name fi)"
proof
  fix fi
  assume "fi \<in> set fis"
  then obtain d where "fi \<in> set (children (k\<lparr>k_tick := Suc (k_tick k)\<rparr>) d)"
    using assms(2) by (auto simp: file_Readdir_def syscall_run Let_def split: option.splits if_splits)
  then obtain q i b nd where q: "(q, i) \<in> set (k_files k)" "child_name d q = Some b" "fi = node_info b nd"
    by (auto simp: children_def set_map_filter split: option.splits)
  have b: "valid_name b" "b = path_Base q" using q(2) by (auto simp: child_name_def Let_def split: if_splits)
  have "dirEntryFieldSeparator \<notin> set q" using assms(1) q(1) by (auto simp: names_ok_def list_all_iff)
  then have "dirEntryFieldSeparator \<notin> set b"
    using set_path_Base [of q] b(2) by (auto simp: dirEntryFieldSeparator_def)
  then show "valid_name (Name fi) \<and> sep_free (Name fi)"
    using b(1) q(3) by (simp add: node_info_def sep_free_def dirEntrySeparator_def valid_name_def)
qed

lemma Readdir_names:
  assumes "names_ok (sys_kernel (w_sys w))" "in_sys (tracedReader_Readdir env f) w = (Ret (fis, None), w')"
  shows "\<forall>fi\<in>set fis. valid_name (Name fi) \<and> sep_free (Name fi)"
proof -
  obtain k' where "file_Readdir env (tr_file f) (sys_kernel (w_sys w)) = (Ret (fis, None), k')"
    using assms(2)
    by (auto simp: in_sys_def in_kernel_def in_stats_def tracedReader_Readdir_def zoom_def bnd_def
        split: prod.splits outcome.splits)
  with assms(1) show ?thesis by (rule kernel_Readdir_names)
qed

section \<open>Interpretations\<close>

lemma keeps_fixed: "keeps I m \<Longrightarrow> keeps (\<lambda>s. c \<and> I s) m"
  by (simp add: keeps_def)

lemma keeps_world_db:
  "keeps (\<lambda>d. engine_ok (g_engine g) \<and> table_ok (db_rows d)) m \<Longrightarrow> keeps (world_ok g) (in_db m)"
  by (auto simp: world_ok_def globals_ok_def in_db_def keeps_def zoom_def split: prod.split)

lemma keeps_world_sys:
  "(globals_ok g \<Longrightarrow> keeps (sys_ok (kernel_ok (cc_root (g_content g)))) m) \<Longrightarrow> keeps (world_ok g) (in_sys m)"
  unfolding world_ok_def in_sys_def keeps_def zoom_def by (auto split: prod.split) (metis snd_conv)

lemma keeps_world_listing:
  "\<forall>fi\<in>set fis. valid_name (Name fi) \<and> sep_free (Name fi) \<Longrightarrow> keeps (world_ok g) (in_db (PutDirEntries (g_engine g) i p fis))"
  by (intro keeps_world_db ok.keeps_PutDirEntries) simp

lemma world_listed:
  "world_ok g w \<Longrightarrow> in_sys (tracedReader_Readdir (g_env g) f) w = (Ret (fis, None), w') \<Longrightarrow>
    \<forall>fi\<in>set fis. valid_name (Name fi) \<and> sep_free (Name fi)"
  by (intro Readdir_names) (simp_all add: world_ok_def sys_ok_def kernel_ok_def)

interpretation fsw: fs_invariant g "world_ok g" for g
proof unfold_locales
  show "keeps (world_ok g) (report ev)" for ev
    unfolding report_def by (intro keeps_world_sys keeps_sys_ok_account)
  show rd: "keeps (world_ok g) (in_sys (tracedReader_Readdir (g_env g) f))" for f
    by (intro keeps_world_sys keeps_sys_ok_calls)
  show "world_ok g (snd (in_db (PutDirEntries (g_engine g) i p fis) w'))"
    if "world_ok g w" "in_sys (tracedReader_Readdir (g_env g) f) w = (Ret (fis, None), w')" for w f fis w' i p
    using keepsD [OF keeps_world_listing] keepsD_run [OF rd that] world_listed [OF that] by blast
  show "keeps (world_ok g) (in_sys (PutContents (g_env g) (g_content g) p))" for p
    by (intro keeps_world_sys keeps_PutContents) (simp_all add: globals_ok_def)
  then show "world_ok g (snd (in_db (PutContentHash (g_engine g) i key) w'))"
    if "world_ok g w" "in_sys (PutContents (g_env g) (g_content g) p) w = (Ret (Inr key), w')" for w p key w' i
    using keepsD [OF keeps_world_db [OF ok.keeps_PutContentHash]] keepsD_run that by metis
qed (intro keeps_world_db keeps_world_sys keeps_sys_ok_calls keeps_GetFileForContents ok.keeps_GetFullEntry
  ok.keeps_GetDirEntries ok.keeps_PutNewWithType ok.keeps_PutNewNoEntry ok.keeps_PutNewOrUpdateWithType
  ok.keeps_PutNewOrUpdateNoEntry ok.keeps_PutFileInfo ok.keeps_PutSymlinkTarget)+

text \<open>Rows are never deleted and keep their path and number.\<close>

lemma keeps_rows_db: "keeps (\<lambda>d. I (db_rows d)) m \<Longrightarrow> keeps (\<lambda>w. I (db_rows (w_db w))) (in_db m)"
  by (auto simp: in_db_def keeps_def zoom_def split: prod.split)

lemma keeps_rows_sys: "keeps (\<lambda>w. I (db_rows (w_db w))) (in_sys m)"
  by (auto simp: in_sys_def keeps_def zoom_def split: prod.split)

interpretation fsk: fs_invariant g "\<lambda>w. rows_kept old (db_rows (w_db w))" for g old
proof unfold_locales
  show "rows_kept old (db_rows (w_db (snd (in_db (PutDirEntries (g_engine g) i p fis) w'))))"
    if "rows_kept old (db_rows (w_db w))" "in_sys (tracedReader_Readdir (g_env g) f) w = (Ret (fis, None), w')" for w f fis w' i p
    using keepsD [OF keeps_rows_db [OF kept.keeps_PutDirEntries]] keepsD_run [OF keeps_rows_sys] that by blast
  show "rows_kept old (db_rows (w_db (snd (in_db (PutContentHash (g_engine g) i key) w'))))"
    if "rows_kept old (db_rows (w_db w))" "in_sys (PutContents (g_env g) (g_content g) p) w = (Ret (Inr key), w')" for w p key w' i
    using keepsD [OF keeps_rows_db [OF kept.keeps_PutContentHash]] keepsD_run [OF keeps_rows_sys] that by metis
qed (intro keeps_rows_sys [folded report_def] keeps_rows_sys keeps_rows_db kept.keeps_GetFullEntry kept.keeps_GetDirEntries
    kept.keeps_PutNewWithType kept.keeps_PutNewNoEntry kept.keeps_PutNewOrUpdateWithType kept.keeps_PutNewOrUpdateNoEntry
    kept.keeps_PutFileInfo kept.keeps_PutSymlinkTarget | simp add: report_def keeps_rows_sys)+

text \<open>All but lookups in direct directories keep the types of rows.\<close>

interpretation fsty: fs_operations g "\<lambda>w. types_kept old (db_rows (w_db w))" for g old
proof unfold_locales
  show "types_kept old (db_rows (w_db (snd (in_db (PutDirEntries (g_engine g) i p fis) w'))))"
    if "types_kept old (db_rows (w_db w))" "in_sys (tracedReader_Readdir (g_env g) f) w = (Ret (fis, None), w')" for w f fis w' i p
    using keepsD [OF keeps_rows_db [OF typed.keeps_PutDirEntries]] keepsD_run [OF keeps_rows_sys] that by blast
  show "types_kept old (db_rows (w_db (snd (in_db (PutContentHash (g_engine g) i key) w'))))"
    if "types_kept old (db_rows (w_db w))" "in_sys (PutContents (g_env g) (g_content g) p) w = (Ret (Inr key), w')" for w p key w' i
    using keepsD [OF keeps_rows_db [OF typed.keeps_PutContentHash]] keepsD_run [OF keeps_rows_sys] that by metis
qed (intro keeps_rows_sys [folded report_def] keeps_rows_sys keeps_rows_db typed.keeps_GetFullEntry typed.keeps_GetDirEntries
    typed.keeps_PutNewWithType typed.keeps_PutNewNoEntry typed.keeps_PutFileInfo typed.keeps_PutSymlinkTarget
    | simp add: report_def keeps_rows_sys)+

end
