(* ===== verification/Fs_Lazy.thy ===== *)
theory Fs_Lazy
  imports Fs_Laws
begin

text \<open>
  The contract shared by the handlers that fill a field of their node on demand, and what follows from
  it: an answer once given is given again, by a hit that touches neither the kernel nor the database.
\<close>

section \<open>The contract\<close>

text \<open>
  \<open>slot\<close> is the field, \<open>displays\<close> relates what it holds to the answers computed from it, any two of which are the
  \<open>same\<close>; \<open>hit\<close> is the accounting of a hit, and \<open>live\<close> says that the counters exist.
\<close>

locale lazy_slot =
  fixes handler :: "('w \<times> 'n, 'e + 'a) prog"
    and slot :: "'n \<Rightarrow> 'v option"
    and direct :: "'n \<Rightarrow> bool"
    and displays :: "'n \<Rightarrow> 'v \<Rightarrow> 'a \<Rightarrow> bool"
    and same :: "'a \<Rightarrow> 'a \<Rightarrow> bool"
    and hit :: "'w \<Rightarrow> 'w"
    and live :: "'w \<Rightarrow> bool"
  assumes filled: "handler (w, n) = (Ret (Inr a), (w', n')) \<Longrightarrow>
      (\<exists>v. slot n' = Some v \<and> displays n' v a) \<and> direct n' = direct n"
    and answer: "\<not> direct n \<Longrightarrow> live w \<Longrightarrow> slot n = Some v \<Longrightarrow> displays n v a \<Longrightarrow>
      \<exists>a'. handler (w, n) = (Ret (Inr a'), (hit w, n)) \<and> same a a'"
begin

lemma answer_again:
  assumes "\<not> direct n" "handler (w, n) = (Ret (Inr a), (w', n'))" "live u"
  shows "\<exists>a'. handler (u, n') = (Ret (Inr a'), (hit u, n')) \<and> same a a'"
  using filled [OF assms(2)] answer assms(1,3) by auto

end

section \<open>Hits\<close>

definition world_hit :: "FuseOp \<Rightarrow> world \<Rightarrow> world" where
  "world_hit op w = snd (report (EvCacheHit op) w)"

definition counted :: "world \<Rightarrow> bool" where
  "counted w \<longleftrightarrow> stats_wf (sys_stats (w_sys w))"

lemma world_report_run:
  assumes "counted w"
  shows "report ev w = (Ret (), w\<lparr>w_sys := (w_sys w)\<lparr>sys_stats := snd (account ev (sys_stats (w_sys w)))\<rparr>\<rparr>)"
  using sts.report_run [of "sys_stats (w_sys w)" ev] assms
  by (cases "account ev (sys_stats (w_sys w))")
     (simp add: counted_def report_def in_sys_def in_stats_def zoom_def)

lemma world_hit_frame:
  assumes "counted w"
  shows "sys_kernel (w_sys (world_hit op w)) = sys_kernel (w_sys w)" "w_db (world_hit op w) = w_db w"
    "counted (world_hit op w)"
  using assms account_wf [of "sys_stats (w_sys w)" "EvCacheHit op"]
  by (simp_all add: world_hit_def world_report_run) (simp add: counted_def)

lemma report_hit: "counted w \<Longrightarrow> report (EvCacheHit op) w = (Ret (), world_hit op w)"
  by (simp add: world_hit_def world_report_run)

section \<open>Attributes\<close>

definition attr_of :: "u64 \<Rightarrow> FileInfo \<Rightarrow> Attr" where
  "attr_of inode fi = \<lparr>a_Inode = inode, a_Mode = Mode fi, a_Size = Size fi, a_Mtime = ModTime fi\<rparr>"

lemma commonAttr_filled:
  assumes "commonAttr g i direct p (w, fi) = (Ret (Inr a), (w', fi'))"
  shows "\<exists>v. fi' = Some v \<and> attr_of i v = a"
  using assms
  by (auto simp: commonAttr_def Let_def bnd_def try_bnd_def zoom_def fill_attr_def attr_of_def
      split: prod.splits outcome.splits sum.splits option.splits if_splits)

lemma commonAttr_hit:
  assumes "counted w"
  shows "commonAttr g i False p (w, Some v) = (Ret (Inr (attr_of i v)), (world_hit AttrFuseOp w, Some v))"
  using report_hit [OF assms]
  by (simp add: commonAttr_def Let_def bnd_def zoom_def fill_attr_def attr_of_def)

interpretation da: lazy_slot "Dir_Attr g" "\<lambda>d. ld_fileInfo (d_data d)" d_direct "\<lambda>d v a. attr_of (d_inode d) v = a" "(=)"
  "world_hit AttrFuseOp" counted for g
proof unfold_locales
  fix w n a w' n'
  assume "Dir_Attr g (w, n) = (Ret (Inr a), w', n')"
  then obtain fi' where "commonAttr g (d_inode n) (d_direct n) (d_belowPath n) (w, ld_fileInfo (d_data n)) = (Ret (Inr a), (w', fi'))"
    "n' = n\<lparr>d_data := (d_data n)\<lparr>ld_fileInfo := fi'\<rparr>\<rparr>"
    by (auto simp: Dir_Attr_def dir_info_def zoom_def split: prod.splits)
  with commonAttr_filled [OF this(1)]
  show "(\<exists>v. ld_fileInfo (d_data n') = Some v \<and> attr_of (d_inode n') v = a) \<and> d_direct n' = d_direct n" by auto
qed (simp add: Dir_Attr_def dir_info_def zoom_def commonAttr_hit)

interpretation fa: lazy_slot "File_Attr g" "\<lambda>f. lf_fileInfo (f_data f)" f_direct "\<lambda>f v a. attr_of (f_inode f) v = a" "(=)"
  "world_hit AttrFuseOp" counted for g
proof unfold_locales
  fix w n a w' n'
  assume "File_Attr g (w, n) = (Ret (Inr a), w', n')"
  then obtain fi' where "commonAttr g (f_inode n) (f_direct n) (f_belowPath n) (w, lf_fileInfo (f_data n)) = (Ret (Inr a), (w', fi'))"
    "n' = n\<lparr>f_data := (f_data n)\<lparr>lf_fileInfo := fi'\<rparr>\<rparr>"
    by (auto simp: File_Attr_def file_info_def zoom_def split: prod.splits)
  with commonAttr_filled [OF this(1)]
  show "(\<exists>v. lf_fileInfo (f_data n') = Some v \<and> attr_of (f_inode n') v = a) \<and> f_direct n' = f_direct n" by auto
qed (simp add: File_Attr_def file_info_def zoom_def commonAttr_hit)

interpretation sa: lazy_slot "Symlink_Attr g" "\<lambda>l. ls_fileInfo (s_data l)" s_direct "\<lambda>l v a. attr_of (s_inode l) v = a" "(=)"
  "world_hit AttrFuseOp" counted for g
proof unfold_locales
  fix w n a w' n'
  assume "Symlink_Attr g (w, n) = (Ret (Inr a), w', n')"
  then obtain fi' where "commonAttr g (s_inode n) (s_direct n) (s_belowPath n) (w, ls_fileInfo (s_data n)) = (Ret (Inr a), (w', fi'))"
    "n' = n\<lparr>s_data := (s_data n)\<lparr>ls_fileInfo := fi'\<rparr>\<rparr>"
    by (auto simp: Symlink_Attr_def symlink_info_def zoom_def split: prod.splits)
  with commonAttr_filled [OF this(1)]
  show "(\<exists>v. ls_fileInfo (s_data n') = Some v \<and> attr_of (s_inode n') v = a) \<and> s_direct n' = s_direct n" by auto
qed (simp add: Symlink_Attr_def symlink_info_def zoom_def commonAttr_hit)

section \<open>Symbolic links\<close>

interpretation rl: lazy_slot "Symlink_Readlink g" "\<lambda>l. ls_target (s_data l)" s_direct "\<lambda>l v a. v = a" "(=)"
  "world_hit ReadlinkFuseOp" counted for g
proof unfold_locales
  fix w n a w' n'
  assume "Symlink_Readlink g (w, n) = (Ret (Inr a), w', n')"
  then show "(\<exists>v. ls_target (s_data n') = Some v \<and> v = a) \<and> s_direct n' = s_direct n"
    by (auto simp: Symlink_Readlink_def store_target_def return_target_def set_ls_target_def Let_def bnd_def try_bnd_def zoom_def
        split: prod.splits outcome.splits sum.splits option.splits if_splits)
qed (simp add: Symlink_Readlink_def return_target_def Let_def bnd_def zoom_def report_hit)

section \<open>Listings\<close>

definition dirent_type :: "FileMode \<Rightarrow> DirentType" where
  "dirent_type m = (if m = ModeDir then DT_Dir else if m = ModeSymlink then DT_Link else DT_File)"

definition dirent_of :: "string \<times> OneDirEntry \<Rightarrow> Dirent" where
  "dirent_of x = \<lparr>de_Inode = Inode (snd x), de_Name = fst x, de_Type = dirent_type (ModeType (snd x) AND os_ModeType)\<rparr>"

definition known_type :: "string \<times> OneDirEntry \<Rightarrow> bool" where
  "known_type x \<longleftrightarrow> (Valid (snd x) \<longrightarrow> ModeType (snd x) AND os_ModeType \<in> {0, ModeDir, ModeSymlink})"

text \<open>The valid entries are listed one by one, unless one has an unknown type.\<close>

lemma make_dirents_run:
  "make_dirents es acc s =
     (if list_all known_type es then Ret (acc @ map dirent_of (filter (Valid \<circ> snd) es)) else Panic ''unknown type'', s)"
proof (induction es acc rule: make_dirents.induct)
  case (2 n e es acc)
  then show ?case by (auto simp: Let_def known_type_def dirent_of_def dirent_type_def mode_defs)
qed simp

definition displays_entries :: "Dir \<Rightarrow> dirmap \<Rightarrow> Dirent list \<Rightarrow> bool" where
  "displays_entries d m ds \<longleftrightarrow> list_all known_type m \<and> mset ds = mset (map dirent_of (filter (Valid \<circ> snd) m))"

lemma list_all_mset: "mset xs = mset ys \<Longrightarrow> list_all P xs \<longleftrightarrow> list_all P ys"
  by (metis list_all_iff set_mset_mset)

lemma known_map_range [simp]: "list_all P (map_range rank m) \<longleftrightarrow> list_all P m"
  by (rule list_all_mset) simp

definition dir_entries :: "Dir \<Rightarrow> dirmap" where
  "dir_entries d = (case ld_dirEntries (d_data d) of None \<Rightarrow> [] | Some m \<Rightarrow> m)"

lemma list_dirents_run:
  "list_dirents g (w, d) = (if list_all known_type (dir_entries d)
     then Ret (Inr (map dirent_of (filter (Valid \<circ> snd) (map_range (g_range g w) (dir_entries d))))) else Panic ''unknown type'', (w, d))"
  by (simp add: list_dirents_def bnd_def make_dirents_run dir_entries_def)

lemma range_displays:
  "list_all known_type m \<Longrightarrow> displays_entries d m (map dirent_of (filter (Valid \<circ> snd) (map_range rank m)))"
  by (simp add: displays_entries_def)

lemma list_dirents_Inr:
  assumes "list_dirents g (w, d) = (Ret (Inr a), (w', d'))"
  shows "d' = d \<and> displays_entries d (dir_entries d) a"
  using assms by (auto simp: list_dirents_run range_displays split: if_splits)

lemma dir_entries_set [simp]: "dir_entries (set_dirEntries m d) = m"
  by (simp add: dir_entries_def set_dirEntries_def)

lemma displays_any: "displays_entries d m a \<longleftrightarrow> displays_entries d' m a"
  by (simp add: displays_entries_def)

lemma reload_filled:
  assumes "reload_dirEntries g dir (w, d) = (Ret (Inr a), (w', d'))"
  shows "\<exists>m. d' = set_dirEntries m d \<and> displays_entries d' m a"
  using assms
  by (auto simp: reload_dirEntries_def bnd_def zoom_def dest!: list_dirents_Inr split: prod.splits outcome.splits sum.splits)

lemma fetch_filled:
  assumes "fetch_dirEntries g dir f (w, d) = (Ret (Inr a), (w', d'))"
  shows "\<exists>m. d' = set_dirEntries m d \<and> displays_entries d' m a"
  using assms
  by (auto simp: fetch_dirEntries_def defer_call_def bnd_def try_bnd_def zoom_def dest!: reload_filled
      split: prod.splits outcome.splits sum.splits option.splits)

interpretation rd: lazy_slot "Dir_ReadDirAll g" "\<lambda>d. ld_dirEntries (d_data d)" d_direct displays_entries "\<lambda>a b. mset a = mset b"
  "world_hit ReaddirFuseOp" counted for g
proof unfold_locales
  fix w n a w' n'
  assume "Dir_ReadDirAll g (w, n) = (Ret (Inr a), w', n')"
  then show "(\<exists>m. ld_dirEntries (d_data n') = Some m \<and> displays_entries n' m a) \<and> d_direct n' = d_direct n"
    by (auto simp: Dir_ReadDirAll_def Let_def bnd_def try_bnd_def zoom_def set_dirEntries_def dir_entries_def
        dest!: list_dirents_Inr reload_filled fetch_filled
        split: prod.splits outcome.splits sum.splits option.splits if_splits)
next
  fix n w m a
  assume n: "\<not> d_direct n" "counted w" "ld_dirEntries (d_data n) = Some m" "displays_entries n m a"
  let ?u = "world_hit ReaddirFuseOp w"
  have "Dir_ReadDirAll g (w, n) = list_dirents g (?u, n)"
    using n(1-3) by (simp add: Dir_ReadDirAll_def Let_def bnd_def zoom_def report_hit)
  also have "\<dots> = (Ret (Inr (map dirent_of (filter (Valid \<circ> snd) (map_range (g_range g ?u) m)))), (?u, n))"
    using n(3,4) by (simp add: list_dirents_run dir_entries_def displays_entries_def)
  finally show "\<exists>a'. Dir_ReadDirAll g (w, n) = (Ret (Inr a'), (?u, n)) \<and> mset a = mset a'"
    using n(4) range_displays [of m n "g_range g ?u"] by (auto simp: displays_entries_def)
qed

end
