(* ===== verification/Metadata_Runs.thy ===== *)
theory Metadata_Runs
  imports Metadata_Store
begin

unbundle bit_operations_syntax

text \<open>
  Histories of the metadata cache: what any sequence of calls keeps, however they end, and how the calls
  that fill in listings behave when the database answers.
\<close>

section \<open>Sequences of calls\<close>

datatype meta_op =
    OpPutNewWithType string FileMode
  | OpPutNewNoEntry string
  | OpPutNewOrUpdateWithType string FileMode
  | OpPutNewOrUpdateNoEntry string
  | OpPutFileInfo u64 FileInfo
  | OpPutContentHash u64 Key
  | OpPutSymlinkTarget u64 string
  | OpPutDirEntries u64 string "FileInfo list"
  | OpGetFullEntry string
  | OpGetDirEntries u64

fun meta_step :: "engine \<Rightarrow> meta_op \<Rightarrow> metadb \<Rightarrow> metadb" where
  "meta_step e (OpPutNewWithType p m) d = snd (PutNewWithType e p m d)"
| "meta_step e (OpPutNewNoEntry p) d = snd (PutNewNoEntry e p d)"
| "meta_step e (OpPutNewOrUpdateWithType p m) d = snd (PutNewOrUpdateWithType e p m d)"
| "meta_step e (OpPutNewOrUpdateNoEntry p) d = snd (PutNewOrUpdateNoEntry e p d)"
| "meta_step e (OpPutFileInfo i fi) d = snd (PutFileInfo e i fi d)"
| "meta_step e (OpPutContentHash i k) d = snd (PutContentHash e i k d)"
| "meta_step e (OpPutSymlinkTarget i t) d = snd (PutSymlinkTarget e i t d)"
| "meta_step e (OpPutDirEntries i p fis) d = snd (PutDirEntries e i p fis d)"
| "meta_step e (OpGetFullEntry p) d = snd (GetFullEntry e p d)"
| "meta_step e (OpGetDirEntries i) d = snd (GetDirEntries e i [] d)"

text \<open>The names of a listing are of a given kind; usually that they hold neither of the separators.\<close>

fun op_names :: "(string \<Rightarrow> bool) \<Rightarrow> meta_op \<Rightarrow> bool" where
  "op_names P (OpPutDirEntries i p fis) = list_all (\<lambda>fi. P (Name fi)) fis"
| "op_names P _ = True"

abbreviation listing_ok :: "meta_op \<Rightarrow> bool" where
  "listing_ok \<equiv> op_names sep_free"

context table_invariant_update
begin

lemma keeps_meta_step:
  assumes inv: "I e (db_rows d)" and "op_names ok_name op"
  shows "I e (db_rows (meta_step e op d))"
  using keeps_PutNewWithType [THEN keepsD, OF inv] keeps_PutNewNoEntry [THEN keepsD, OF inv]
    keeps_PutNewOrUpdateWithType [THEN keepsD, OF inv] keeps_PutNewOrUpdateNoEntry [THEN keepsD, OF inv]
    keeps_PutFileInfo [THEN keepsD, OF inv] keeps_PutContentHash [THEN keepsD, OF inv]
    keeps_PutSymlinkTarget [THEN keepsD, OF inv] keeps_PutDirEntries [THEN keepsD, OF _ inv]
    keeps_GetFullEntry [THEN keepsD, OF inv] keeps_GetDirEntries [THEN keepsD, OF inv] assms(2)
  by (cases op) (simp_all add: list_all_iff)

lemma keeps_meta_run:
  "I e (db_rows d) \<Longrightarrow> list_all (op_names ok_name) ops \<Longrightarrow> I e (db_rows (fold (meta_step e) ops d))"
  by (induction ops arbitrary: d) (simp_all add: keeps_meta_step)

end

lemma names_any: "list_all (op_names (\<lambda>_. True)) ops"
proof -
  have "op_names (\<lambda>_. True) op" for op by (cases op) (simp_all add: list_all_iff)
  then show ?thesis by (simp add: list_all_iff)
qed

lemma meta_run_ok:
  "engine_ok e \<Longrightarrow> table_ok (db_rows d) \<Longrightarrow> list_all listing_ok ops \<Longrightarrow> table_ok (db_rows (fold (meta_step e) ops d))"
  using ok.keeps_meta_run [of e d ops] by simp

lemma meta_run_wf: "engine_ok e \<Longrightarrow> table_wf (db_rows d) \<Longrightarrow> table_wf (db_rows (fold (meta_step e) ops d))"
  using wf.keeps_meta_run [OF _ names_any, of e d ops] by simp

lemma meta_run_rows: "rows_kept old (db_rows d) \<Longrightarrow> rows_kept old (db_rows (fold (meta_step e) ops d))"
  using kept.keeps_meta_run [OF _ names_any] .

lemma rows_kept_view:
  assumes "table_wf old" "table_wf tbl" "rows_kept old tbl" "meta_view e old p = Some row"
  obtains row' where "meta_view e tbl p = Some row'" "RowInode row' = RowInode row"
proof -
  obtain r prow where pr: "row_by_path e p old = Some (r, prow)" "RowInode row = r"
    using assms(4) by (auto simp: meta_view_def)
  have "map_of old r = Some prow" "c_path prow = eng_text e p" using row_by_path_Some [OF assms(1) pr(1)] by auto
  then obtain prow' where "map_of tbl r = Some prow'" "c_path prow' = eng_text e p"
    using assms(3) unfolding rows_kept_iff by metis
  then have "row_by_path e p tbl = Some (r, prow')" using row_by_path_iff [OF assms(2)] by blast
  then show thesis using that pr(2) by (simp add: meta_view_def)
qed

section \<open>Updates and the other rows\<close>

lemma store_update_other:
  assumes "engine_ok e" "table_wf tbl" "clean_abs p" "clean_abs q" "q \<noteq> p" "meta_view e tbl p = Some row"
  shows "store_update (RowInode row) f (meta_view e tbl) q = meta_view e tbl q"
proof (cases "meta_view e tbl q")
  case (Some row')
  then have "RowInode row' \<noteq> RowInode row"
    using meta_view_inode_inj [OF assms(1,2,4,3) Some assms(6)] assms(5) by blast
  with Some show ?thesis by (simp add: store_update_def)
qed (simp add: store_update_def)

section \<open>Listings without faults\<close>

text \<open>SQLite has a number for a new row as long as fewer than \<open>n\<close> rows exist.\<close>

definition rowids_left :: "engine \<Rightarrow> nat \<Rightarrow> bool" where
  "rowids_left e n \<longleftrightarrow> (\<forall>used. length used < n \<longrightarrow> eng_rowid e used \<noteq> None)"

definition listable :: "FileInfo \<Rightarrow> bool" where
  "listable fi \<longleftrightarrow> Mode fi AND os_ModeType \<in> {0, ModeDir, ModeSymlink}"

lemma listable_type: "listable fi \<Longrightarrow> \<exists>t. type_name (Mode fi AND os_ModeType) = Ret t"
  by (auto simp: listable_def type_name_def sqlTypeName_def mode_defs)

lemma quiet_putOneDirEntry:
  assumes "quiet e" "listable fi" "rowids_left e n" "length (db_rows d) < n"
  obtains x d' where "putOneDirEntry e path fi acc d = (Ret (Inr (acc @ [x])), d')"
    "length (db_rows d') \<le> Suc (length (db_rows d))"
proof -
  let ?p = "path_Join path (Name fi)"
  obtain t where t: "type_name (Mode fi AND os_ModeType) = Ret t" using listable_type [OF assms(2)] by blast
  show thesis
  proof (cases "row_by_path e ?p (db_rows d)")
    case (Some rr)
    then have "QueryRowScan e (query_stmt (getInodeStmt e ?p)) d = (Ret (Inr (fst rr)), tick d)"
      using quiet_QueryRowScan [OF assms(1), of "getInodeStmt e ?p" d "Some (fst rr)"] by (simp add: getInodeStmt_def)
    then show thesis
      using that [of "formatDirEntry (Name fi) (fst rr) t" "tick d"] t
      by (simp add: putOneDirEntry_def Let_def bnd_def try_bnd_def sqlTypeName_run)
  next
    case None
    then have q: "QueryRowScan e (query_stmt (getInodeStmt e ?p)) d = (Ret (Inl ErrNoRows), tick d)"
      using quiet_QueryRowScan [OF assms(1), of "getInodeStmt e ?p" d None] by (simp add: getInodeStmt_def)
    obtain r where r: "eng_rowid e (map fst (db_rows d)) = Some r"
      using assms(3,4) unfolding rowids_left_def by (metis length_map not_None_eq)
    let ?d' = "(tick (tick d))\<lparr>db_rows := db_rows d @ [(r, new_row e ?p t)]\<rparr>"
    have "RetryExec e (putNewEntryStmt e ?p t) (tick d) = (Ret (Inr (Inr r)), ?d')"
      by (rule quiet_RetryExec [OF assms(1)]) (use None r in \<open>simp_all add: putNewEntryStmt_def\<close>)
    then show thesis
      using that [of "formatDirEntry (Name fi) r t" ?d'] t q
      by (simp add: putOneDirEntry_def Let_def bnd_def try_bnd_def sqlTypeName_run)
  qed
qed

lemma quiet_for_each_putOneDirEntry:
  assumes "quiet e" "list_all listable fis" "rowids_left e n" "length (db_rows d) + length fis \<le> n"
  shows "\<exists>fs d'. for_each (putOneDirEntry e path) fis acc d = (Ret (Inr fs), d')"
  using assms(2,4)
proof (induction fis arbitrary: acc d)
  case (Cons fi fis)
  from Cons.prems have fi: "listable fi" "length (db_rows d) < n" by simp_all
  obtain x d1 where one: "putOneDirEntry e path fi acc d = (Ret (Inr (acc @ [x])), d1)"
    "length (db_rows d1) \<le> Suc (length (db_rows d))"
    by (rule quiet_putOneDirEntry [OF assms(1) fi(1) assms(3) fi(2)])
  from Cons.IH [of d1] Cons.prems one(2) show ?case
    by (simp add: try_bnd_Inr [where m = "putOneDirEntry e path fi acc", OF one(1)])
qed simp

lemma quiet_PutDirEntries:
  assumes "quiet e" "list_all listable fis" "rowids_left e (length (db_rows d) + length fis)" "0 < sint i"
  shows "\<exists>d'. PutDirEntries e i path fis d = (Ret (Inr ()), d')"
proof -
  obtain fs d1 where loop: "for_each (putOneDirEntry e path) fis [] d = (Ret (Inr fs), d1)"
    using quiet_for_each_putOneDirEntry [OF assms(1,2,3)] by blast
  show ?thesis
    using quiet_inode_update [OF assms(1,4), of "\<lambda>row. row\<lparr>c_dirEntries := Some (eng_text e (join_with dirEntrySeparator fs))\<rparr>" d1]
    unfolding PutDirEntries_def try_bnd_Inr [where m = "for_each (putOneDirEntry e path) fis []", OF loop] putDirEntriesStmt_def .
qed

lemma quiet_GetDirEntries:
  assumes "quiet e" "table_ok (db_rows d)" "meta_view e (db_rows d) p = Some row" "DirEntries row = Some m"
  shows "GetDirEntries e (RowInode row) [] d = (Ret (Inr (), m), tick d)"
proof -
  let ?i = "RowInode row"
  have wf: "table_wf (db_rows d)" using assms(2) by (simp add: table_ok_def)
  obtain prow where prow: "0 < sint ?i" "map_of (db_rows d) ?i = Some prow" "view_row p (the (row_by_path e p (db_rows d))) = row"
    "prow = snd (the (row_by_path e p (db_rows d)))"
    by (rule meta_view_inode [OF wf assms(3)]) auto
  obtain s where s: "c_dirEntries prow = Some s" "m = decode_entries s"
    using prow(3,4) assms(4) by (metis (no_types, lifting) map_option_eq_Some view_row_fields(5))
  have "(?i, prow) \<in> set (db_rows d)" using prow(2) by (rule map_of_SomeD)
  then have "decodes s" using assms(2) s(1) by (auto simp: table_ok_def list_all_iff entries_ok_def)
  moreover have "QueryRowScan e (query_stmt (getDirEntriesStmt ?i)) d = (Ret (Inr (Some s)), tick d)"
    using quiet_QueryRowScan [OF assms(1), of "getDirEntriesStmt ?i" d "Some (Some s)"] prow(1,2) s(1)
    by (simp add: getDirEntriesStmt_def sql_uint64_positive)
  ultimately show ?thesis using s(2) by (simp add: GetDirEntries_def bnd_def run_on_def decodes_parse)
qed

section \<open>Storing a listing and reading it back\<close>

text \<open>An entry of a listing as it is read back: name, type, and the inode number of the row of its path.\<close>

definition lists_as :: "store \<Rightarrow> string \<Rightarrow> FileInfo \<Rightarrow> string \<times> OneDirEntry \<Rightarrow> bool" where
  "lists_as v path fi x \<longleftrightarrow> fst x = Name fi \<and> Valid (snd x) \<and> ModeType (snd x) = Mode fi AND os_ModeType \<and>
     map_option RowInode (v (path_Join path (fst x))) = Some (Inode (snd x))"

lemma entry_of_type:
  "type_name m = Ret t \<Longrightarrow> Valid (entry_of i t) \<and> ModeType (entry_of i t) = m \<and> Inode (entry_of i t) = i"
  by (auto simp: entry_of_def type_name_def sqlTypeName_def mode_defs split: if_splits)

lemma store_update_inode:
  assumes "\<And>p row. RowInode (f p row) = RowInode row"
  shows "map_option RowInode (store_update i f v p) = map_option RowInode (v p)"
  using assms by (cases "v p") (simp_all add: store_update_def)

lemma recorded_lists_as:
  assumes "recorded path v fi x"
  shows "lists_as (store_update i (set_entries m) v) path fi ((\<lambda>(n, j, t). (n, entry_of j t)) x)"
proof -
  obtain n j t where x: "x = (n, j, t)" by (cases x)
  have "map_option RowInode (store_update i (set_entries m) v (path_Join path n)) = Some j"
    using assms by (subst store_update_inode) (auto simp: x recorded_def set_entries_def)
  moreover have "n = Name fi" "type_name (Mode fi AND os_ModeType) = Ret t" using assms by (auto simp: x recorded_def)
  ultimately show ?thesis using entry_of_type [of _ t j] by (simp add: x lists_as_def)
qed

lemma quiet_listing:
  assumes "quiet e" "engine_ok e" "table_ok (db_rows d)" "clean_abs path" "meta_view e (db_rows d) path = Some row"
    and "list_all (\<lambda>fi. listable fi \<and> valid_name (Name fi) \<and> sep_free (Name fi)) fis" "distinct (map Name fis)"
    and "rowids_left e (length (db_rows d) + length fis)"
  obtains d1 m where "PutDirEntries e (RowInode row) path fis d = (Ret (Inr ()), d1)"
    "GetDirEntries e (RowInode row) [] d1 = (Ret (Inr (), m), tick d1)"
    "list_all2 (lists_as (meta_view e (db_rows d1)) path) fis m"
proof -
  have wf: "table_wf (db_rows d)" using assms(3) by (simp add: table_ok_def)
  have i: "0 < sint (RowInode row)" using meta_view_inode [OF wf assms(5)] by blast
  have fis: "list_all listable fis" "\<forall>fi\<in>set fis. valid_name (Name fi) \<and> sep_free (Name fi)"
    using assms(6) by (auto simp: list_all_iff)
  obtain d1 where put: "PutDirEntries e (RowInode row) path fis d = (Ret (Inr ()), d1)"
    using quiet_PutDirEntries [OF assms(1) fis(1) assms(8) i] by blast
  obtain v xs where xs: "list_all2 (recorded path v) fis xs" "view_le (meta_view e (db_rows d)) v"
    "meta_view e (db_rows d1) = store_update (RowInode row) (set_entries (map (\<lambda>(n, j, t). (n, entry_of j t)) xs)) v"
    by (rule PutDirEntries_ok [OF assms(2,4) fis(2) assms(7) put])
  let ?m = "map (\<lambda>(n, j, t). (n, entry_of j t)) xs"
  have ok1: "table_ok (db_rows d1)"
    using keepsD_run [OF ok.keeps_PutDirEntries _ put] assms(2,3) fis(2) by blast
  have "v path = Some row" using xs(2) assms(4,5) by (auto simp: view_le_def)
  then have "meta_view e (db_rows d1) path = Some (set_entries ?m path row)"
    by (simp add: xs(3) store_update_def)
  then have "GetDirEntries e (RowInode row) [] d1 = (Ret (Inr (), ?m), tick d1)"
    using quiet_GetDirEntries [OF assms(1) ok1] by (fastforce simp: set_entries_def)
  moreover have "list_all2 (lists_as (meta_view e (db_rows d1)) path) fis ?m"
    unfolding list.rel_map xs(3) by (rule list_all2_mono [OF xs(1)]) (rule recorded_lists_as)
  ultimately show thesis using that put by blast
qed

end
