(* ===== verification/Fs_Spec.thy ===== *)
theory Fs_Spec
  imports Fs_Lazy Metadata_Runs
begin

unbundle bit_operations_syntax

text \<open>
  What the handlers answer when the kernel and the database report no faults: lookups of names that do
  and do not exist, first and repeated attribute requests, and the read path from a remote file to the
  bytes of a read request.
\<close>

section \<open>Kernel calls without faults\<close>

text \<open>Two worlds that agree except for counters, descriptors and the clock.\<close>

definition same_tree :: "world \<Rightarrow> world \<Rightarrow> bool" where
  "same_tree w w' \<longleftrightarrow> tree (sys_kernel (w_sys w')) = tree (sys_kernel (w_sys w)) \<and> (counted w \<longrightarrow> counted w')"

lemma same_tree_refl [simp]: "same_tree w w"
  by (simp add: same_tree_def)

lemma same_tree_trans: "same_tree u v \<Longrightarrow> same_tree v w \<Longrightarrow> same_tree u w"
  by (auto simp: same_tree_def)

lemma same_tree_nodes: "same_tree w w' \<Longrightarrow> node_at (sys_kernel (w_sys w')) = node_at (sys_kernel (w_sys w))"
  unfolding same_tree_def by (rule node_at_tree) simp

lemma same_tree_db [simp]: "same_tree w (w\<lparr>w_db := d\<rparr>)"
  by (simp add: same_tree_def counted_def)

lemma report_same: "counted w \<Longrightarrow> \<exists>w'. report ev w = (Ret (), w') \<and> same_tree w w' \<and> w_db w' = w_db w"
  using account_wf by (auto simp: world_report_run same_tree_def counted_def)

lemma in_stats_run:
  "stats_wf (sys_stats s) \<Longrightarrow> in_stats (account ev) s = (Ret (), s\<lparr>sys_stats := snd (account ev (sys_stats s))\<rparr>)"
  using sts.report_run [of "sys_stats s" ev]
  by (cases "account ev (sys_stats s)") (simp add: in_stats_def zoom_def)

lemmas AccountOsOp_run = in_stats_run [of _ "EvOsOp d op" for d op, simplified]

lemma Lstat_same:
  assumes "counted w" "env_quiet env"
  shows "\<exists>w'. in_sys (syscalls_Lstat env dm p) w = (Ret (case node_at (sys_kernel (w_sys w)) p of
      None \<Rightarrow> Inl (OsError ENOENT) | Some nd \<Rightarrow> Inr (node_info (path_Base p) nd)), w') \<and>
    same_tree w w' \<and> w_db w' = w_db w"
proof -
  let ?s = "w_sys w"
  have "stats_wf (sys_stats ?s)" using assms(1) by (simp add: counted_def)
  from AccountOsOp_run [OF this] account_wf [OF this, of "EvOsOp dm LstatOsOp"] assms(2) show ?thesis
    by (auto simp: in_sys_def zoom_def syscalls_Lstat_def bnd_def in_kernel_def os_Lstat_def syscall_run
        env_quiet_def same_tree_def counted_def split: option.splits)
qed

section \<open>The database without faults\<close>

abbreviation wview :: "globalState \<Rightarrow> world \<Rightarrow> store" where
  "wview g w \<equiv> meta_view (g_engine g) (db_rows (w_db w))"

abbreviation wnode :: "world \<Rightarrow> string \<Rightarrow> knode option" where
  "wnode w \<equiv> node_at (sys_kernel (w_sys w))"

lemma world_ok_db: "world_ok g w \<Longrightarrow> engine_ok (g_engine g) \<and> table_ok (db_rows (w_db w)) \<and> counted w"
  by (simp add: world_ok_def globals_ok_def sys_ok_def counted_def)

lemma world_ok_frame:
  assumes "world_ok g w" "w_sys w' = w_sys w" "db_rows (w_db w') = db_rows (w_db w)"
  shows "world_ok g w'"
  using assms by (simp add: world_ok_def)

lemma GetFullEntry_db:
  assumes "quiet (g_engine g)" "world_ok g w"
  shows "\<exists>w'. in_db (GetFullEntry (g_engine g) p) w = (Ret (Inr (wview g w p)), w') \<and>
    w_sys w' = w_sys w \<and> db_rows (w_db w') = db_rows (w_db w)"
  using quiet_GetFullEntry [OF assms(1)] world_ok_db [OF assms(2)] by (simp add: in_db_def zoom_def tick_def)

lemma putNew_db:
  assumes "quiet (g_engine g)" "world_ok g w" "clean_abs p" "wview g w p = None" "t \<in> set typeNames"
    and "rowids_left (g_engine g) (Suc (length (db_rows (w_db w))))"
  obtains r w' where "in_db (putNew (g_engine g) p t) w = (Ret (Inr r), w')" "0 < sint r" "w_sys w' = w_sys w"
    "\<And>q. clean_abs q \<Longrightarrow> wview g w' q = ((wview g w)(p \<mapsto> fresh_row r t)) q"
proof -
  note ok = world_ok_db [OF assms(2)]
  obtain r where r: "eng_rowid (g_engine g) (map fst (db_rows (w_db w))) = Some r"
    using assms(6) unfolding rowids_left_def by (metis length_map lessI not_None_eq)
  obtain d' where d': "putNew (g_engine g) p t (w_db w) = (Ret (Inr r), d')"
    "\<And>q. clean_abs q \<Longrightarrow> meta_view (g_engine g) (db_rows d') q = ((wview g w)(p \<mapsto> fresh_row r t)) q"
    using quiet_putNew [OF assms(1) conjunct1 [OF ok] assms(5,3,4) r] by blast
  then show thesis
    using that [of r "w\<lparr>w_db := d'\<rparr>"] engine_ok_rowid [OF conjunct1 [OF ok] r] by (simp add: in_db_def zoom_def)
qed

section \<open>Lookups\<close>

lemma kind_mode_type: "kind_mode kd AND os_ModeType = kind_mode kd"
  by (cases kd) (simp_all add: mode_defs and.assoc)

lemma node_info_mode: "Mode (node_info b nd) AND os_ModeType = kind_mode (n_kind nd)"
proof -
  have "(n_perm nd AND NOT os_ModeType) AND os_ModeType = 0" by (simp add: and.assoc)
  then show ?thesis by (simp add: node_info_def bit.conj_disj_distrib2 kind_mode_type)
qed

lemma newNode_run: "newNodeForEntry g a b c n s = (fst (newNodeForEntry g a b c n ()), s)"
  by (simp add: newNodeForEntry_def Let_def split: option.split)

lemma Lookup_known:
  assumes "quiet (g_engine g)" "world_ok g w" "\<not> d_direct dir" "ld_rows (d_data dir) name = None"
    and "wview g w (path_Join (d_path dir) name) = Some row"
  shows "\<exists>w'. Dir_Lookup g name (w, dir) =
      (fst (newNodeForEntry g (d_path dir) (d_belowPath dir) (Some row) name ()), (w', remember_row name (Some row) dir)) \<and>
    same_tree w w' \<and> db_rows (w_db w') = db_rows (w_db w)"
proof -
  obtain w1 where w1: "in_db (GetFullEntry (g_engine g) (path_Join (d_path dir) name)) w = (Ret (Inr (Some row)), w1)"
    "w_sys w1 = w_sys w" "db_rows (w_db w1) = db_rows (w_db w)"
    using GetFullEntry_db [OF assms(1,2), of "path_Join (d_path dir) name"] assms(5) by auto
  have ok1: "counted w1" using world_ok_db [OF world_ok_frame [OF assms(2) w1(2,3)]] by simp
  obtain w2 where w2: "report (EvCacheHit LookupFuseOp) w1 = (Ret (), w2)" "same_tree w1 w2" "w_db w2 = w_db w1"
    using report_same [OF ok1] by blast
  have "same_tree w w2" using w1(2) w2(2) by (simp add: same_tree_def counted_def)
  then show ?thesis
    using assms(3,4) w1 w2
    by (auto simp: Dir_Lookup_def Lookup_finish_def Let_def bnd_def try_bnd_def zoom_def newNode_run [of _ _ _ _ _ "(_, _)"])
qed

lemma Lookup_absent:
  assumes "quiet (g_engine g)" "env_quiet (g_env g)" "world_ok g w" "\<not> d_direct dir" "ld_rows (d_data dir) name = None"
    and "clean_abs (path_Join (d_path dir) name)" "wview g w (path_Join (d_path dir) name) = None"
    and "wnode w (path_Join (d_belowPath dir) name) = None"
    and "rowids_left (g_engine g) (Suc (length (db_rows (w_db w))))"
  shows "\<exists>w' r. Dir_Lookup g name (w, dir) = (Ret (Inl FuseENOENT), (w', dir)) \<and> same_tree w w' \<and>
    wview g w' (path_Join (d_path dir) name) = Some (fresh_row r ''noentry'')"
proof -
  let ?p = "path_Join (d_path dir) name" and ?b = "path_Join (d_belowPath dir) name"
  obtain w1 where w1: "in_db (GetFullEntry (g_engine g) ?p) w = (Ret (Inr None), w1)"
    "w_sys w1 = w_sys w" "db_rows (w_db w1) = db_rows (w_db w)"
    using GetFullEntry_db [OF assms(1,3), of ?p] assms(7) by auto
  note ok1 = world_ok_frame [OF assms(3) w1(2,3)]
  obtain w2 where w2: "report (EvCacheMiss LookupFuseOp) w1 = (Ret (), w2)" "same_tree w1 w2" "w_db w2 = w_db w1"
    using report_same world_ok_db [OF ok1] by blast
  have c2: "counted w2" "wnode w2 ?b = None"
    using w2(2) world_ok_db [OF ok1] same_tree_nodes [OF w2(2)] w1(2) assms(8) by (simp_all add: same_tree_def)
  obtain w3 where w3: "in_sys (syscalls_Lstat (g_env g) RemoteDomain ?b) w2 = (Ret (Inl (OsError ENOENT)), w3)"
    "same_tree w2 w3" "w_db w3 = w_db w2"
    using Lstat_same [OF c2(1) assms(2), of RemoteDomain ?b] c2(2) by auto
  have ok3: "world_ok g w3"
    using fsw.reports [THEN keepsD_run, OF ok1 w2(1)] fsw.kernel_ops(1) [THEN keepsD_run] w3(1) by blast
  obtain r w4 where w4: "in_db (putNew (g_engine g) ?p ''noentry'') w3 = (Ret (Inr r), w4)" "w_sys w4 = w_sys w3"
    "\<And>q. clean_abs q \<Longrightarrow> wview g w4 q = ((wview g w3)(?p \<mapsto> fresh_row r ''noentry'')) q"
    by (rule putNew_db [OF assms(1) ok3 assms(6), of "''noentry''"])
       (use assms(7,9) w1(3) w2(3) w3(3) in \<open>auto simp: typeNames_def\<close>)
  have "same_tree w w4" using w1(2) w2(2) w3(2) w4(2) by (simp add: same_tree_def counted_def)
  moreover have "Dir_Lookup g name (w, dir) = (Ret (Inl FuseENOENT), (w4, dir))"
    using assms(4,5) w1(1) w2(1) w3(1) w4(1)
    by (simp add: Dir_Lookup_def Lookup_miss_def PutNewNoEntry_def IsNotExist_def Let_def bnd_def try_bnd_def zoom_def)
  ultimately show ?thesis using w4(3) [OF assms(6)] by auto
qed

lemma Lookup_found:
  assumes "quiet (g_engine g)" "env_quiet (g_env g)" "world_ok g w" "\<not> d_direct dir" "ld_rows (d_data dir) name = None"
    and "clean_abs (path_Join (d_path dir) name)" "wview g w (path_Join (d_path dir) name) = None"
    and "wnode w (path_Join (d_belowPath dir) name) = Some nd" "type_name (kind_mode (n_kind nd)) = Ret t"
    and "rowids_left (g_engine g) (Suc (length (db_rows (w_db w))))"
  shows "\<exists>w' r. Dir_Lookup g name (w, dir) =
      (fst (newNodeForEntry g (d_path dir) (d_belowPath dir) (Some (fresh_row r t)) name ()),
       (w', remember_row name (Some (fresh_row r t)) dir)) \<and> 0 < sint r \<and>
    same_tree w w' \<and> wview g w' (path_Join (d_path dir) name) = Some (fresh_row r t)"
proof -
  let ?p = "path_Join (d_path dir) name" and ?b = "path_Join (d_belowPath dir) name"
  obtain w1 where w1: "in_db (GetFullEntry (g_engine g) ?p) w = (Ret (Inr None), w1)"
    "w_sys w1 = w_sys w" "db_rows (w_db w1) = db_rows (w_db w)"
    using GetFullEntry_db [OF assms(1,3), of ?p] assms(7) by auto
  note ok1 = world_ok_frame [OF assms(3) w1(2,3)]
  obtain w2 where w2: "report (EvCacheMiss LookupFuseOp) w1 = (Ret (), w2)" "same_tree w1 w2" "w_db w2 = w_db w1"
    using report_same world_ok_db [OF ok1] by blast
  have c2: "counted w2" "wnode w2 ?b = Some nd"
    using w2(2) world_ok_db [OF ok1] same_tree_nodes [OF w2(2)] w1(2) assms(8) by (simp_all add: same_tree_def)
  obtain w3 where w3: "in_sys (syscalls_Lstat (g_env g) RemoteDomain ?b) w2 = (Ret (Inr (node_info (path_Base ?b) nd)), w3)"
    "same_tree w2 w3" "w_db w3 = w_db w2"
    using Lstat_same [OF c2(1) assms(2), of RemoteDomain ?b] c2(2) by auto
  have ok3: "world_ok g w3"
    using fsw.reports [THEN keepsD_run, OF ok1 w2(1)] fsw.kernel_ops(1) [THEN keepsD_run] w3(1) by blast
  have t: "t \<in> set typeNames" using assms(9) type_name_Ret entry_types_typeNames by blast
  obtain r w4 where w4: "in_db (putNew (g_engine g) ?p t) w3 = (Ret (Inr r), w4)" "0 < sint r" "w_sys w4 = w_sys w3"
    "\<And>q. clean_abs q \<Longrightarrow> wview g w4 q = ((wview g w3)(?p \<mapsto> fresh_row r t)) q"
    by (rule putNew_db [OF assms(1) ok3 assms(6) _ t]) (use assms(7,10) w1(3) w2(3) w3(3) in auto)
  let ?m = "Mode (node_info (path_Base ?b) nd) AND os_ModeType"
  have "PutNewWithType (g_engine g) ?p ?m = putNew (g_engine g) ?p t"
    by (rule PutNewWithType_run, rule type_bits_only) (use assms(9) node_info_mode in simp)
  then have ins: "in_db (PutNewWithType (g_engine g) ?p ?m) w3 = (Ret (Inr r), w4)" using w4(1) by simp
  have ok4: "world_ok g w4" using fsw.inserts(1) [THEN keepsD_run, OF ok3 ins] .
  obtain w5 where w5: "in_db (GetFullEntry (g_engine g) ?p) w4 = (Ret (Inr (Some (fresh_row r t))), w5)"
    "w_sys w5 = w_sys w4" "db_rows (w_db w5) = db_rows (w_db w4)"
    using GetFullEntry_db [OF assms(1) ok4, of ?p] w4(4) [OF assms(6)] by auto
  have "same_tree w w5" using w1(2) w2(2) w3(2) w4(3) w5(2) by (simp add: same_tree_def counted_def)
  moreover have "Dir_Lookup g name (w, dir) =
      (fst (newNodeForEntry g (d_path dir) (d_belowPath dir) (Some (fresh_row r t)) name ()),
       (w5, remember_row name (Some (fresh_row r t)) dir))"
    using assms(4,5) w1(1) w2(1) w3(1) ins w5(1)
    by (simp add: Dir_Lookup_def Lookup_miss_def Lookup_reload_def Lookup_finish_def Let_def bnd_def try_bnd_def zoom_def
        newNode_run [of _ _ _ _ _ "(_, _)"] del: fileinfo_defs)
  ultimately show ?thesis using w4(2) w4(4) [OF assms(6)] w5(3) by auto
qed

section \<open>The row of the root\<close>

lemma putAndGetRow_quiet:
  assumes "quiet (g_engine g)" "world_ok g w" "g_match g p" "clean_abs p"
    and "rowids_left (g_engine g) (Suc (length (db_rows (w_db w))))" "m AND NOT os_ModeType = 0" "type_name m = Ret t"
  shows "\<exists>w2 row. putAndGetRow g p m w = (Ret (Inr (Some row)), w2) \<and> wview g w2 p = Some row \<and>
    (wview g w p = Some row \<or> wview g w p = None \<and> row = fresh_row (RowInode row) t)"
proof -
  obtain w1 where w1: "in_db (GetFullEntry (g_engine g) p) w = (Ret (Inr (wview g w p)), w1)"
    "w_sys w1 = w_sys w" "db_rows (w_db w1) = db_rows (w_db w)"
    using GetFullEntry_db [OF assms(1,2)] by blast
  note ok1 = world_ok_frame [OF assms(2) w1(2,3)]
  have t: "t \<in> set typeNames" using assms(7) type_name_Ret entry_types_typeNames by blast
  show ?thesis
  proof (cases "wview g w p")
    case None
    obtain r w2 where w2: "in_db (putNew (g_engine g) p t) w1 = (Ret (Inr r), w2)" "wview g w2 p = Some (fresh_row r t)"
      by (rule putNew_db [OF assms(1) ok1 assms(4) _ t]) (use None w1(3) assms(4,5) in auto)
    note ins = PutNewWithType_run [OF assms(6,7), of "g_engine g" p]
    have ok2: "world_ok g w2" using fsw.inserts(1) [THEN keepsD_run, OF ok1, of p m] w2(1) ins by simp
    obtain w3 where w3: "in_db (GetFullEntry (g_engine g) p) w2 = (Ret (Inr (Some (fresh_row r t))), w3)"
      "db_rows (w_db w3) = db_rows (w_db w2)"
      using GetFullEntry_db [OF assms(1) ok2, of p] w2(2) by auto
    have "putAndGetRow g p m w = (Ret (Inr (Some (fresh_row r t))), w3)"
      using w1(1) w2(1) w3(1) assms(3) None by (simp add: putAndGetRow_def Let_def bnd_def try_bnd_def ins)
    then show ?thesis
      using w3(2) w2(2) None by (intro exI [of _ w3] exI [of _ "fresh_row r t"]) (simp add: fresh_row_def)
  next
    case (Some row)
    obtain w2 where w2: "in_db (GetFullEntry (g_engine g) p) w1 = (Ret (Inr (Some row)), w2)"
      "db_rows (w_db w2) = db_rows (w_db w1)"
      using GetFullEntry_db [OF assms(1) ok1, of p] Some w1(3) by auto
    have "putAndGetRow g p m w = (Ret (Inr (Some row)), w2)"
      using w1(1) w2(1) assms(3) Some by (simp add: putAndGetRow_def Let_def bnd_def try_bnd_def)
    then show ?thesis using w1(3) w2(2) Some by (intro exI [of _ w2] exI [of _ row]) simp
  qed
qed

lemma Loop_root:
  assumes "quiet (g_engine g)" "world_ok g w" "g_match g ''/''" "rowids_left (g_engine g) (Suc (length (db_rows (w_db w))))"
    and "\<forall>row. wview g w ''/'' = Some row \<longrightarrow> TypeName row = ''directory''" "fl_mount_error fl = None" "\<not> fl_caught_signal fl"
    and "fl_mount fl = Inr u"
  shows "\<exists>w1 row. wview g w1 ''/'' = Some row \<and>
    (wview g w ''/'' = Some row \<or> wview g w ''/'' = None \<and> row = fresh_row (RowInode row) ''directory'') \<and>
    Loop fl remotedir g w = fl_serve fl \<lparr>rootNode = DirNode \<lparr>d_path = ''/'', d_belowPath = path_Join remotedir ''/'',
      d_inode = RowInode row, d_direct = False, d_data = \<lparr>ld_fileInfo = RowFileInfo row, ld_didReadDir = False,
        ld_dirEntries = DirEntries row, ld_rows = Map.empty\<rparr>\<rparr>\<rparr> w1"
proof -
  have root: "clean_abs ''/''" "path_Join ''/'' ''/'' = ''/''" by code_simp+
  have "ModeDir AND NOT os_ModeType = 0" "type_name ModeDir = Ret ''directory''"
    by (simp_all add: type_name_def sqlTypeName_def mode_defs)
  then obtain w2 row where w2: "putAndGetRow g ''/'' ModeDir w = (Ret (Inr (Some row)), w2)" "wview g w2 ''/'' = Some row"
    "wview g w ''/'' = Some row \<or> wview g w ''/'' = None \<and> row = fresh_row (RowInode row) ''directory''"
    using putAndGetRow_quiet [OF assms(1,2,3) root(1) assms(4)] by blast
  have "TypeName row = ''directory''" using w2(3) assms(5) by (metis CachedRow.select_convs(2) fresh_row_def)
  moreover have "try_bnd m (\<lambda>_. ret (Inr ())) = m" for m :: "(world, unit result) prog"
    by (auto simp: try_bnd_def bnd_def fun_eq_iff split: prod.split outcome.split sum.split)
  ultimately have "Loop fl remotedir g w = fl_serve fl \<lparr>rootNode = DirNode \<lparr>d_path = ''/'', d_belowPath = path_Join remotedir ''/'',
          d_inode = RowInode row, d_direct = False, d_data = \<lparr>ld_fileInfo = RowFileInfo row, ld_didReadDir = False,
            ld_dirEntries = DirEntries row, ld_rows = Map.empty\<rparr>\<rparr>\<rparr> w2"
    using w2(1) assms(3,6-8) root(2)
    by (simp add: Loop_def newNodeForEntry_def Let_def try_bnd_Inr [where m = "putAndGetRow g ''/'' ModeDir", OF w2(1)] try_bnd_Inr [where m = "ret _"])
  with w2(2,3) show ?thesis by blast
qed

end
