(* ===== verification/Fs_Reads.thy ===== *)
theory Fs_Reads
  imports Fs_Spec
begin

unbundle bit_operations_syntax

text \<open>
  The handlers that fetch from the remote file system, when neither the kernel nor the database reports a
  fault: attributes, link targets, listings, and the path from opening a file to the bytes of a read.
\<close>

section \<open>Updates of one row\<close>

lemma put_db:
  assumes "\<exists>d'. m (w_db w) = (Ret (Inr ()), d')" "view_update (g_engine g) i f m"
  shows "\<exists>w'. in_db m w = (Ret (Inr ()), w') \<and> w_sys w' = w_sys w \<and> wview g w' = store_update i f (wview g w)"
proof -
  obtain d' where d': "m (w_db w) = (Ret (Inr ()), d')" using assms(1) by blast
  from view_updateD [OF assms(2) this] d' show ?thesis by (simp add: in_db_def zoom_def)
qed

lemma puts_db:
  assumes "quiet (g_engine g)" "world_ok g w" "wview g w p = Some row"
  shows "\<exists>w'. in_db (PutFileInfo (g_engine g) (RowInode row) fi) w = (Ret (Inr ()), w') \<and> w_sys w' = w_sys w \<and>
      wview g w' = store_update (RowInode row) (set_info fi) (wview g w)"
    "\<exists>w'. in_db (PutContentHash (g_engine g) (RowInode row) key) w = (Ret (Inr ()), w') \<and> w_sys w' = w_sys w \<and>
      wview g w' = store_update (RowInode row) (set_hash (eng_text (g_engine g) key)) (wview g w)"
    "\<exists>w'. in_db (PutSymlinkTarget (g_engine g) (RowInode row) tgt) w = (Ret (Inr ()), w') \<and> w_sys w' = w_sys w \<and>
      wview g w' = store_update (RowInode row) (set_target (eng_text (g_engine g) tgt)) (wview g w)"
proof -
  have "table_wf (db_rows (w_db w))" using world_ok_db [OF assms(2)] by (simp add: table_ok_def)
  note live = quiet_puts [OF assms(1) this assms(3)]
  show "\<exists>w'. in_db (PutFileInfo (g_engine g) (RowInode row) fi) w = (Ret (Inr ()), w') \<and> w_sys w' = w_sys w \<and>
      wview g w' = store_update (RowInode row) (set_info fi) (wview g w)"
    by (rule put_db [OF live(1) view_update_puts(1)])
  show "\<exists>w'. in_db (PutContentHash (g_engine g) (RowInode row) key) w = (Ret (Inr ()), w') \<and> w_sys w' = w_sys w \<and>
      wview g w' = store_update (RowInode row) (set_hash (eng_text (g_engine g) key)) (wview g w)"
    by (rule put_db [OF live(2) view_update_puts(2)])
  show "\<exists>w'. in_db (PutSymlinkTarget (g_engine g) (RowInode row) tgt) w = (Ret (Inr ()), w') \<and> w_sys w' = w_sys w \<and>
      wview g w' = store_update (RowInode row) (set_target (eng_text (g_engine g) tgt)) (wview g w)"
    by (rule put_db [OF live(3) view_update_puts(3)])
qed

section \<open>Attributes and link targets\<close>

lemma commonAttr_miss:
  assumes "quiet (g_engine g)" "env_quiet (g_env g)" "world_ok g w" "wview g w p = Some row" "wnode w bp = Some nd"
  defines "fi \<equiv> node_info (path_Base bp) nd"
  shows "\<exists>w'. commonAttr g (RowInode row) False bp (w, None) = (Ret (Inr (attr_of (RowInode row) fi)), (w', Some fi)) \<and>
    same_tree w w' \<and> wview g w' p = Some (set_info fi p row)"
proof -
  obtain w1 where w1: "report (EvCacheMiss AttrFuseOp) w = (Ret (), w1)" "same_tree w w1" "w_db w1 = w_db w"
    using report_same world_ok_db [OF assms(3)] by blast
  have c1: "counted w1" "wnode w1 bp = Some nd"
    using w1(2) world_ok_db [OF assms(3)] same_tree_nodes [OF w1(2)] assms(5) by (simp_all add: same_tree_def)
  obtain w2 where w2: "in_sys (syscalls_Lstat (g_env g) RemoteDomain bp) w1 = (Ret (Inr fi), w2)"
    "same_tree w1 w2" "w_db w2 = w_db w1"
    using Lstat_same [OF c1(1) assms(2), of RemoteDomain bp] c1(2) by (auto simp: fi_def)
  have ok2: "world_ok g w2"
    using fsw.reports [THEN keepsD_run, OF assms(3) w1(1)] fsw.kernel_ops(1) [THEN keepsD_run] w2(1) by blast
  have row: "wview g w2 p = Some row" using assms(4) w1(3) w2(3) by simp
  obtain w3 where w3: "in_db (PutFileInfo (g_engine g) (RowInode row) fi) w2 = (Ret (Inr ()), w3)" "w_sys w3 = w_sys w2"
    "wview g w3 = store_update (RowInode row) (set_info fi) (wview g w2)"
    using puts_db(1) [OF assms(1) ok2 row] by blast
  have "same_tree w w3" using w1(2) w2(2) w3(2) by (simp add: same_tree_def counted_def)
  moreover have "wview g w3 p = Some (set_info fi p row)" using w3(3) row by (simp add: store_update_def)
  moreover have "commonAttr g (RowInode row) False bp (w, None) = (Ret (Inr (attr_of (RowInode row) fi)), (w3, Some fi))"
    using w1(1) w2(1) w3(1)
    by (simp add: commonAttr_def Let_def bnd_def try_bnd_def zoom_def fill_attr_def attr_of_def)
  ultimately show ?thesis by blast
qed

lemma Readlink_same:
  assumes "counted w" "env_quiet env" "wnode w p = Some nd" "n_kind nd = KLink t"
  shows "\<exists>w'. in_sys (syscalls_Readlink env dm p) w = (Ret (Inr t), w') \<and> same_tree w w' \<and> w_db w' = w_db w"
proof -
  have "stats_wf (sys_stats (w_sys w))" using assms(1) by (simp add: counted_def)
  from AccountOsOp_run [OF this] account_wf [OF this, of "EvOsOp dm ReadlinkOsOp"] assms(2-4) show ?thesis
    by (auto simp: in_sys_def zoom_def syscalls_Readlink_def bnd_def in_kernel_def os_Readlink_def syscall_run
        env_quiet_def same_tree_def counted_def)
qed

lemma Readlink_miss:
  assumes "quiet (g_engine g)" "env_quiet (g_env g)" "world_ok g w" "wview g w p = Some row" "RowInode row = s_inode l"
    and "wnode w (s_belowPath l) = Some nd" "n_kind nd = KLink t" "\<not> s_direct l" "ls_target (s_data l) = None"
  shows "\<exists>w'. Symlink_Readlink g (w, l) = (Ret (Inr t), (w', set_ls_target t l)) \<and> same_tree w w' \<and>
    wview g w' p = Some (row\<lparr>Target := Some (eng_text (g_engine g) t)\<rparr>)"
proof -
  obtain w1 where w1: "report (EvCacheMiss ReadlinkFuseOp) w = (Ret (), w1)" "same_tree w w1" "w_db w1 = w_db w"
    using report_same world_ok_db [OF assms(3)] by blast
  have c1: "counted w1" "wnode w1 (s_belowPath l) = Some nd"
    using w1(2) world_ok_db [OF assms(3)] same_tree_nodes [OF w1(2)] assms(6) by (simp_all add: same_tree_def)
  obtain w2 where w2: "in_sys (syscalls_Readlink (g_env g) RemoteDomain (s_belowPath l)) w1 = (Ret (Inr t), w2)"
    "same_tree w1 w2" "w_db w2 = w_db w1"
    using Readlink_same [OF c1(1) assms(2) c1(2) assms(7)] by blast
  have ok2: "world_ok g w2"
    using fsw.reports [THEN keepsD_run, OF assms(3) w1(1)] fsw.kernel_ops(2) [THEN keepsD_run] w2(1) by blast
  have row: "wview g w2 p = Some row" using assms(4) w1(3) w2(3) by simp
  obtain w3 where w3: "in_db (PutSymlinkTarget (g_engine g) (RowInode row) t) w2 = (Ret (Inr ()), w3)" "w_sys w3 = w_sys w2"
    "wview g w3 = store_update (RowInode row) (set_target (eng_text (g_engine g) t)) (wview g w2)"
    using puts_db(3) [OF assms(1) ok2 row] by blast
  have "same_tree w w3" using w1(2) w2(2) w3(2) by (simp add: same_tree_def counted_def)
  moreover have "wview g w3 p = Some (row\<lparr>Target := Some (eng_text (g_engine g) t)\<rparr>)"
    using w3(3) row by (simp add: store_update_def set_target_def)
  moreover have "Symlink_Readlink g (w, l) = (Ret (Inr t), (w3, set_ls_target t l))"
    using w1(1) w2(1) w3(1) assms(5,8,9)
    by (simp add: Symlink_Readlink_def store_target_def return_target_def set_ls_target_def Let_def bnd_def try_bnd_def zoom_def)
  ultimately show ?thesis by blast
qed

section \<open>Open files\<close>

text \<open>The handle is open on a file with these bytes.\<close>

definition serves :: "world \<Rightarrow> openFile \<Rightarrow> byte list \<Rightarrow> bool" where
  "serves w h bs \<longleftrightarrow> counted w \<and> (case of_reader h of None \<Rightarrow> False | Some tr \<Rightarrow>
     (case k_open (sys_kernel (w_sys w)) (f_id (tr_file tr)) of None \<Rightarrow> False
      | Some o' \<Rightarrow> file_bytes (sys_kernel (w_sys w)) (o_ino o') = Inr bs))"

lemma ReadAt_quiet:
  assumes "env_quiet env" "k_open k (f_id f) = Some o'" "file_bytes k (o_ino o') = Inr bs" "0 \<le> sint off"
  shows "file_ReadAt env f n off k =
    (Ret (take n (drop (unat off) bs), if length (take n (drop (unat off) bs)) < n then Some EOF else None),
     k\<lparr>k_tick := Suc (k_tick k)\<rparr>)"
  using assms by (simp add: file_ReadAt_def syscall_run env_quiet_def file_bytes_def Let_def)

lemma traced_ReadAt_quiet:
  assumes "env_quiet env" "stats_wf (sys_stats s)" "k_open (sys_kernel s) (f_id (tr_file tr)) = Some o'"
    and "file_bytes (sys_kernel s) (o_ino o') = Inr bs" "0 \<le> sint off"
  shows "\<exists>s' err. tracedReader_ReadAt env tr n off s = (Ret (take n (drop (unat off) bs), err), s') \<and>
    (err = None \<or> err = Some EOF) \<and> stats_wf (sys_stats s') \<and>
    sys_kernel s' = (sys_kernel s)\<lparr>k_tick := Suc (k_tick (sys_kernel s))\<rparr>"
proof -
  let ?Q = "\<lambda>got err k. got = take n (drop (unat off) bs) \<and> (err = None \<or> err = Some EOF) \<and>
    k = (sys_kernel s)\<lparr>k_tick := Suc (k_tick (sys_kernel s))\<rparr>"
  have "returns (\<lambda>k. k = sys_kernel s) (file_ReadAt env (tr_file tr) n off) (\<lambda>(got, err). ?Q got err)"
    using ReadAt_quiet [OF assms(1,3,4,5), of n] by (intro returnsI) auto
  from tracedReader_returns(2) [OF this] show ?thesis
    by (rule returnsE [where s = s]) (use assms(2) in \<open>auto simp: sys_ok_def\<close>)
qed

lemma Read_serves:
  assumes "serves w h bs" "env_quiet (g_env g)" "0 \<le> sint off"
  shows "\<exists>w'. openFile_Read g n off (w, h) = (Ret (take n (drop (unat off) bs), None), (w', h)) \<and>
    serves w' h bs \<and> same_tree w w' \<and> w_db w' = w_db w"
proof -
  obtain tr o' where h: "of_reader h = Some tr" "k_open (sys_kernel (w_sys w)) (f_id (tr_file tr)) = Some o'"
    "file_bytes (sys_kernel (w_sys w)) (o_ino o') = Inr bs" "counted w"
    using assms(1) by (auto simp: serves_def split: option.splits)
  let ?w1 = "world_hit ReadFuseOp w"
  note fr = world_hit_frame [OF h(4), of ReadFuseOp]
  have wf: "stats_wf (sys_stats (w_sys ?w1))" using fr(3) by (simp add: counted_def)
  obtain s' err where s': "tracedReader_ReadAt (g_env g) tr n off (w_sys ?w1) = (Ret (take n (drop (unat off) bs), err), s')"
    "err = None \<or> err = Some EOF" "stats_wf (sys_stats s')"
    "sys_kernel s' = (sys_kernel (w_sys ?w1))\<lparr>k_tick := Suc (k_tick (sys_kernel (w_sys ?w1)))\<rparr>"
    using traced_ReadAt_quiet [OF assms(2) wf, of tr o' bs off n] h fr(1) assms(3) by auto
  let ?w2 = "?w1\<lparr>w_sys := s'\<rparr>"
  have "openFile_Read g n off (w, h) = (Ret (take n (drop (unat off) bs), None), (?w2, h))"
    using report_hit [OF h(4)] s'(1,2) h(1)
    by (auto simp: openFile_Read_def bnd_def zoom_def in_sys_def)
  moreover have "serves ?w2 h bs" using h s' fr by (simp add: serves_def counted_def file_bytes_def)
  moreover have "same_tree w ?w2" using s'(3,4) fr(1) by (simp add: same_tree_def counted_def)
  ultimately show ?thesis using fr(2) by (intro exI [of _ ?w2]) simp
qed

lemma node_bytes_Some: "node_bytes nd = Some bs \<longleftrightarrow> n_kind nd = KFile bs"
  by (auto simp: node_bytes_def split: kind.split)

text \<open>Opening something that is not a symbolic link.\<close>

definition opened :: "world \<Rightarrow> tracedReader \<Rightarrow> string \<Rightarrow> knode \<Rightarrow> bool" where
  "opened w tr p nd \<longleftrightarrow> (case k_open (sys_kernel (w_sys w)) (f_id (tr_file tr)) of None \<Rightarrow> False
     | Some o' \<Rightarrow> o_name o' = p \<and> o_pos o' = 0 \<and> k_nodes (sys_kernel (w_sys w)) (o_ino o') = Some nd)"

lemma Open_quiet:
  assumes "env_quiet env" "node_at k p = Some nd" "\<forall>t. n_kind nd \<noteq> KLink t"
  obtains f k' o' where "os_Open env p k = (Ret (Inr f), k')" "k_open k' (f_id f) = Some o'" "o_name o' = p" "o_pos o' = 0"
    "k_nodes k' (o_ino o') = Some nd"
proof -
  obtain i where i: "map_of (k_files k) p = Some i" "k_nodes k i = Some nd"
    using assms(2) by (auto simp: node_at_def bind_eq_Some_conv)
  have "follow 40 (k\<lparr>k_tick := t\<rparr>) p = Inr p" for t
    using assms(2,3) by (subst follow.simps) (simp split: kind.split)
  then show thesis
    using assms(1) i that by (simp add: os_Open_def syscall_run env_quiet_def open_fd_def)
qed

lemma traced_Open_quiet:
  assumes "env_quiet env" "counted w" "wnode w p = Some nd" "\<forall>t. n_kind nd \<noteq> KLink t"
  shows "\<exists>tr w'. in_sys (syscalls_Open env dm p) w = (Ret (Inr tr), w') \<and> opened w' tr p nd \<and> same_tree w w' \<and> w_db w' = w_db w"
proof -
  let ?k = "sys_kernel (w_sys w)"
  have wf: "stats_wf (sys_stats (w_sys w))" using assms(2) by (simp add: counted_def)
  obtain f k' o' where f: "os_Open env p ?k = (Ret (Inr f), k')" "k_open k' (f_id f) = Some o'" "o_name o' = p" "o_pos o' = 0"
    "k_nodes k' (o_ino o') = Some nd"
    by (rule Open_quiet [OF assms(1,3,4)])
  let ?w' = "w\<lparr>w_sys := (w_sys w)\<lparr>sys_stats := snd (account (EvOsOp dm OpenOsOp) (sys_stats (w_sys w))), sys_kernel := k'\<rparr>\<rparr>"
  have run: "in_sys (syscalls_Open env dm p) w = (Ret (Inr \<lparr>tr_domain = dm, tr_file = f\<rparr>), ?w')"
    using AccountOsOp_run [OF wf, of dm OpenOsOp] f(1)
    by (simp add: in_sys_def zoom_def syscalls_Open_def bnd_def try_bnd_def in_kernel_def)
  have c: "counted ?w'" using account_wf [OF wf, of "EvOsOp dm OpenOsOp"] by (simp add: counted_def)
  have "tree k' = tree ?k" using keeps_frame [OF keeps_tree_open, of env p ?k] f(1) by simp
  then have "same_tree w ?w'" using c by (simp add: same_tree_def)
  with run f show ?thesis by (intro exI) (auto simp: opened_def)
qed

lemma opened_serves:
  assumes "opened w tr p nd" "n_kind nd = KFile bs" "counted w"
  shows "serves w \<lparr>of_path = q, of_reader = Some tr\<rparr> bs"
  using assms by (auto simp: serves_def opened_def file_bytes_def split: option.splits)

section \<open>Opening\<close>

lemma kernel_ok_cache: "sys_ok (kernel_ok root) s \<Longrightarrow> cache_ok root s"
  by (simp add: sys_ok_def kernel_ok_def cache_ok_def)

lemma world_ok_cache:
  "world_ok g w \<Longrightarrow> cache_ok (cc_root (g_content g)) (w_sys w) \<and> clean_abs (cc_root (g_content g)) \<and> env_ok (g_env g)"
  by (simp add: world_ok_def globals_ok_def kernel_ok_cache)

lemma cc_root_New: "NewContentCache (cc_root c) = c"
  by (simp add: NewContentCache_def)

text \<open>An open of a file whose content is cached: the handle serves the cached bytes.\<close>

lemma open_cached_serves:
  assumes "world_ok g w" "env_quiet (g_env g)" "lf_contentHash (f_data f) = Some key"
    and "cached_bytes (cc_root (g_content g)) (w_sys w) key = Some bs"
  shows "\<exists>h w'. open_cached g (w, f) = (Ret (Inr h), (w', f)) \<and> serves w' h bs \<and> w_db w' = w_db w"
proof -
  let ?root = "cc_root (g_content g)"
  note ok = world_ok_cache [OF assms(1)]
  have key: "valid_key key" using assms(4) by (auto simp: cached_bytes_def split: if_splits)
  obtain s1 where s1: "GetFileForContents (g_env g) (g_content g) key (w_sys w) = (Ret (Inr (key_path ?root key)), s1)"
    "cached_bytes ?root s1 = cached_bytes ?root (w_sys w)" "cache_ok ?root s1"
    using GetFileForContents_quiet [of ?root "w_sys w" key "g_env g"] ok key assms(2,4) by (auto simp: cc_root_New)
  let ?w1 = "w\<lparr>w_sys := s1\<rparr>"
  have "counted ?w1" using s1(3) by (simp add: counted_def cache_ok_def)
  moreover have "file_at (sys_kernel (w_sys ?w1)) (key_path ?root key) = Some bs"
    using fun_cong [OF s1(2), of key] assms(4) key by (simp add: cached_bytes_def)
  then obtain nd where nd: "wnode ?w1 (key_path ?root key) = Some nd" "n_kind nd = KFile bs"
    by (auto simp: file_at_def bind_eq_Some_conv node_bytes_Some)
  ultimately obtain tr w2 where w2: "in_sys (syscalls_Open (g_env g) LocalDomain (key_path ?root key)) ?w1 = (Ret (Inr tr), w2)"
    "opened w2 tr (key_path ?root key) nd" "same_tree ?w1 w2" "w_db w2 = w_db ?w1"
    using traced_Open_quiet [OF assms(2), of ?w1] by fastforce
  have c2: "counted w2" using w2(3) \<open>counted ?w1\<close> by (simp add: same_tree_def)
  note serving = opened_serves [OF w2(2) nd(2) c2, of "f_path f"]
  have "open_cached g (w, f) = (Ret (Inr \<lparr>of_path = f_path f, of_reader = Some tr\<rparr>), (w2, f))"
    using s1(1) w2(1) assms(3) by (simp add: open_cached_def bnd_def try_bnd_def zoom_def in_sys_def)
  with serving w2(4) show ?thesis by auto
qed

lemma Open_hit:
  assumes "world_ok g w" "env_quiet (g_env g)" "\<not> f_direct f" "lf_contentHash (f_data f) = Some key"
    and "cached_bytes (cc_root (g_content g)) (w_sys w) key = Some bs"
  shows "\<exists>h w'. File_Open g (w, f) = (Ret (Inr h), (w', f)) \<and> serves w' h bs \<and> w_db w' = w_db w"
proof -
  have c: "counted w" using world_ok_db [OF assms(1)] by simp
  note fr = world_hit_frame [OF c, of OpenFuseOp]
  have ok: "world_ok g (world_hit OpenFuseOp w)"
    using fsw.reports [THEN keepsD_run, OF assms(1) report_hit [OF c]] .
  have "cached_bytes (cc_root (g_content g)) (w_sys (world_hit OpenFuseOp w)) key = Some bs"
    using assms(5) fr(1) by (simp add: cached_bytes_def split: if_splits)
  from open_cached_serves [OF ok assms(2,4) this] fr(2) show ?thesis
    using assms(3,4) report_hit [OF c] by (auto simp: File_Open_def Let_def bnd_def zoom_def)
qed

text \<open>The first open of a file: its content is fetched, recorded and served.\<close>

lemma Open_miss:
  assumes "quiet (g_engine g)" "env_quiet (g_env g)" "world_ok g w" "\<not> f_direct f" "lf_contentHash (f_data f) = None"
    and "wview g w p = Some row" "RowInode row = f_inode f" "open_bytes (sys_kernel (w_sys w)) (f_belowPath f) = Inr bs"
    and "can_store (cc_root (g_content g)) (wnode w) (md5_hex bs)" "\<forall>t. wnode w (temp_name (g_env g) (cc_root (g_content g)) t) = None"
  shows "\<exists>h w' bs'. File_Open g (w, f) = (Ret (Inr h), (w', set_contentHash (md5_hex bs) f)) \<and> serves w' h bs' \<and>
    (bs' = bs \<or> cached_bytes (cc_root (g_content g)) (w_sys w) (md5_hex bs) = Some bs') \<and>
    wview g w' p = Some (row\<lparr>ContentHash := Some (eng_text (g_engine g) (md5_hex bs))\<rparr>)"
proof -
  let ?root = "cc_root (g_content g)" and ?key = "md5_hex bs"
  obtain w1 where w1: "report (EvCacheMiss OpenFuseOp) w = (Ret (), w1)" "same_tree w w1" "w_db w1 = w_db w"
    using report_same world_ok_db [OF assms(3)] by blast
  have ok1: "world_ok g w1" using fsw.reports [THEN keepsD_run, OF assms(3) w1(1)] .
  have n1: "wnode w1 = wnode w" using same_tree_nodes [OF w1(2)] .
  have src: "open_bytes (sys_kernel (w_sys w1)) (f_belowPath f) = Inr bs"
    using assms(8) unfolding open_bytes_def follow_nodes [OF n1] n1 .
  obtain s2 where s2: "PutContents (g_env g) (g_content g) (f_belowPath f) (w_sys w1) = (Ret (Inr ?key), s2)"
    "cached_bytes ?root s2 ?key \<noteq> None"
    "cached_bytes ?root s2 ?key = Some bs \<or> cached_bytes ?root s2 ?key = cached_bytes ?root (w_sys w1) ?key"
    using PutContents_quiet [of ?root "g_env g" "w_sys w1" "f_belowPath f" bs] world_ok_cache [OF ok1] assms(2,9,10) src
    by (metis cc_root_New n1)
  let ?w2 = "w1\<lparr>w_sys := s2\<rparr>"
  have put: "in_sys (PutContents (g_env g) (g_content g) (f_belowPath f)) w1 = (Ret (Inr ?key), ?w2)"
    using s2(1) by (simp add: in_sys_def zoom_def)
  have ok2: "world_ok g ?w2" using fsw.content_ops(1) [THEN keepsD_run, OF ok1 put] .
  have row: "wview g ?w2 p = Some row" using assms(6) w1(3) by simp
  obtain w3 where w3: "in_db (PutContentHash (g_engine g) (RowInode row) ?key) ?w2 = (Ret (Inr ()), w3)" "w_sys w3 = w_sys ?w2"
    "wview g w3 = store_update (RowInode row) (set_hash (eng_text (g_engine g) ?key)) (wview g ?w2)"
    using puts_db(2) [OF assms(1) ok2 row] by blast
  have ok3: "world_ok g w3" using keepsD_run [OF keeps_world_db [OF ok.keeps_PutContentHash] ok2 w3(1)] .
  obtain bs' where bs': "cached_bytes ?root (w_sys w3) ?key = Some bs'" using s2(2) w3(2) by auto
  let ?f = "set_contentHash ?key f"
  have "lf_contentHash (f_data ?f) = Some ?key" by (simp add: set_contentHash_def)
  from open_cached_serves [OF ok3 assms(2) this bs'] obtain h w4 where
    w4: "open_cached g (w3, ?f) = (Ret (Inr h), (w4, ?f))" "serves w4 h bs'" "w_db w4 = w_db w3" by blast
  have "File_Open g (w, f) = (Ret (Inr h), (w4, ?f))"
    using assms(4,5,7) w1(1) put w3(1) w4(1)
    by (simp add: File_Open_def store_fetched_def Let_def bnd_def try_bnd_def zoom_def)
  moreover have "bs' = bs \<or> cached_bytes ?root (w_sys w) ?key = Some bs'"
    using s2(3) bs' w3(2) n1 by (auto simp: cached_bytes_def file_at_def)
  moreover have "wview g w4 p = Some (row\<lparr>ContentHash := Some (eng_text (g_engine g) ?key)\<rparr>)"
    using w4(3) w3(3) row by (simp add: store_update_def set_hash_def)
  ultimately show ?thesis using w4(2) by blast
qed

section \<open>Listings\<close>

lemma known_valid:
  assumes "list_all (\<lambda>x. Valid (snd x) \<and> ModeType (snd x) \<in> {0, ModeDir, ModeSymlink}) es"
  shows "list_all known_type es" "filter (Valid \<circ> snd) es = es"
  using assms by (auto simp: list_all_iff known_type_def mode_defs filter_id_conv)

text \<open>The names of a directory's children are valid and distinct.\<close>

lemma Name_fun: "Name = fi_basename"
  by (simp add: fun_eq_iff)

lemma map_filter_names_distinct:
  assumes "distinct (map fst xs)"
  shows "distinct (map fi_basename (List.map_filter (\<lambda>(q, i). case child_name d q of
       None \<Rightarrow> None | Some b \<Rightarrow> map_option (node_info b) (N i)) xs))"
  using assms
proof (induction xs)
  case (Cons x xs)
  obtain q i where x: "x = (q, i)" by (cases x)
  let ?f = "\<lambda>(q, i). case child_name d q of None \<Rightarrow> None | Some b \<Rightarrow> map_option (node_info b) (N i)"
  have IH: "distinct (map fi_basename (List.map_filter ?f xs))" using Cons.IH Cons.prems by (simp only: list.map distinct.simps)
  show ?case
  proof (cases "?f x")
    case None
    then show ?thesis using IH by (simp add: List.map_filter_simps)
  next
    case (Some fi)
    then obtain b nd where b: "child_name d q = Some b" "fi = node_info b nd" by (auto simp: x split: option.splits)
    then have q: "q = path_Join d b" by (auto simp: child_name_def Let_def split: if_splits)
    have "Name fi' \<noteq> b" if fi': "fi' \<in> set (List.map_filter ?f xs)" for fi'
    proof
      assume "Name fi' = b"
      obtain q' i' b' nd' where q': "(q', i') \<in> set xs" "child_name d q' = Some b'" "fi' = node_info b' nd'"
        using fi' by (auto simp: set_map_filter split: option.splits)
      then have "q' = path_Join d b'" by (auto simp: child_name_def Let_def split: if_splits)
      with q q'(3) \<open>Name fi' = b\<close> have "q' = q" by (simp add: node_info_def)
      with q'(1) Cons.prems show False by (force simp: x)
    qed
    then show ?thesis using Some IH b(2) by (auto simp: List.map_filter_simps node_info_def)
  qed
qed (simp add: List.map_filter_simps)

lemma children_distinct: "kernel_wf k \<Longrightarrow> distinct (map Name (children k d))"
  unfolding children_def Name_fun by (rule map_filter_names_distinct) (simp add: kernel_wf_def)

lemma children_tree: "tree k' = tree k \<Longrightarrow> children k' d = children k d"
proof -
  assume "tree k' = tree k"
  then have "k_files k' = k_files k" "k_nodes k' = k_nodes k" by (simp_all add: tree_def)
  then show ?thesis by (simp only: children_def)
qed

lemma traced_Readdir_quiet:
  assumes "env_quiet env" "counted w" "opened w tr p nd" "n_kind nd = KDir"
  shows "\<exists>w'. in_sys (tracedReader_Readdir env tr) w = (Ret (children (sys_kernel (w_sys w)) p, None), w') \<and>
    same_tree w w' \<and> w_db w' = w_db w"
proof -
  let ?k = "sys_kernel (w_sys w)"
  have wf: "stats_wf (sys_stats (w_sys w))" using assms(2) by (simp add: counted_def)
  obtain o' where o': "k_open ?k (f_id (tr_file tr)) = Some o'" "o_name o' = p" "o_pos o' = 0" "k_nodes ?k (o_ino o') = Some nd"
    using assms(3) by (auto simp: opened_def split: option.splits)
  have "children (?k\<lparr>k_tick := t\<rparr>) p = children ?k p" for t by (rule children_tree) simp
  then have "\<exists>k'. file_Readdir env (tr_file tr) ?k = (Ret (children ?k p, None), k') \<and> tree k' = tree ?k"
    using o' assms(1,4) by (simp add: file_Readdir_def syscall_run env_quiet_def Let_def) (simp add: tree_def)
  then show ?thesis
    using AccountOsOp_run [OF wf, of "tr_domain tr" ReaddirOsOp] account_wf [OF wf, of "EvOsOp (tr_domain tr) ReaddirOsOp"]
    by (auto simp: in_sys_def zoom_def tracedReader_Readdir_def bnd_def in_kernel_def same_tree_def counted_def)
qed

lemma traced_Close_returns:
  assumes "counted w"
  shows "\<exists>r w'. in_sys (tracedReader_Close env tr) w = (Ret r, w') \<and> same_tree w w' \<and> w_db w' = w_db w"
proof -
  have wf: "stats_wf (sys_stats (w_sys w))" using assms by (simp add: counted_def)
  obtain r k' where "file_Close env (tr_file tr) (sys_kernel (w_sys w)) = (Ret r, k')"
    using total_os(7) [of env "tr_file tr"] unfolding total_prog_def by blast
  moreover have "tree k' = tree (sys_kernel (w_sys w))"
    using keeps_frame [OF keeps_tree_fd(3), of env "tr_file tr" "sys_kernel (w_sys w)"] calculation by simp
  ultimately show ?thesis
    using AccountOsOp_run [OF wf, of "tr_domain tr" CloseOsOp] account_wf [OF wf, of "EvOsOp (tr_domain tr) CloseOsOp"]
    by (auto simp: in_sys_def zoom_def tracedReader_Close_def bnd_def in_kernel_def same_tree_def counted_def)
qed

lemma listing_entries_valid:
  assumes "list_all2 (lists_as v path) fis m" "list_all listable fis"
  shows "list_all (\<lambda>x. Valid (snd x) \<and> ModeType (snd x) \<in> {0, ModeDir, ModeSymlink}) m"
  using assms by (induction rule: list_all2_induct) (auto simp: lists_as_def listable_def)

lemma listing_pairs:
  assumes "list_all2 (lists_as v path) fis m"
  shows "map (\<lambda>x. (fst x, ModeType (snd x))) m = map (\<lambda>fi. (Name fi, Mode fi AND os_ModeType)) fis"
  using assms by (induction rule: list_all2_induct) (auto simp: lists_as_def)

text \<open>The calls by which \<^verbatim>\<open>ReadDirAll\<close> gets the entries of a remote directory.\<close>

lemma list_remote:
  assumes "env_quiet (g_env g)" "world_ok g w" "wnode w bp = Some nd" "n_kind nd = KDir"
  obtains w1 tr w2 w3 where "report ev w = (Ret (), w1)"
    "in_sys (syscalls_Open (g_env g) RemoteDomain bp) w1 = (Ret (Inr tr), w2)"
    "in_sys (tracedReader_Readdir (g_env g) tr) w2 = (Ret (children (sys_kernel (w_sys w)) bp, None), w3)"
    "world_ok g w3" "db_rows (w_db w3) = db_rows (w_db w)"
    "\<forall>fi\<in>set (children (sys_kernel (w_sys w)) bp). valid_name (Name fi) \<and> sep_free (Name fi)"
proof -
  let ?fis = "children (sys_kernel (w_sys w)) bp"
  obtain w1 where w1: "report ev w = (Ret (), w1)" "same_tree w w1" "w_db w1 = w_db w"
    using report_same world_ok_db [OF assms(2)] by blast
  have ok1: "world_ok g w1" using fsw.reports [THEN keepsD_run, OF assms(2) w1(1)] .
  have nd1: "counted w1" "wnode w1 bp = Some nd" "\<forall>t. n_kind nd \<noteq> KLink t"
    using world_ok_db [OF ok1] same_tree_nodes [OF w1(2)] assms(3,4) by simp_all
  obtain tr w2 where w2: "in_sys (syscalls_Open (g_env g) RemoteDomain bp) w1 = (Ret (Inr tr), w2)"
    "opened w2 tr bp nd" "same_tree w1 w2" "w_db w2 = w_db w1"
    using traced_Open_quiet [OF assms(1) nd1] by blast
  have ok2: "world_ok g w2" using fsw.kernel_ops(3) [THEN keepsD_run, OF ok1 w2(1)] .
  have c2: "counted w2" using world_ok_db [OF ok2] by simp
  have kids: "children (sys_kernel (w_sys w2)) bp = ?fis"
    by (rule children_tree) (use same_tree_trans [OF w1(2) w2(3)] in \<open>simp add: same_tree_def\<close>)
  obtain w3 where w3: "in_sys (tracedReader_Readdir (g_env g) tr) w2 = (Ret (?fis, None), w3)" "same_tree w2 w3" "w_db w3 = w_db w2"
    using traced_Readdir_quiet [OF assms(1) c2 w2(2) assms(4)] kids by auto
  have "world_ok g w3" using fsw.kernel_ops(5) [THEN keepsD_run, OF ok2 w3(1)] .
  then show thesis
    using that [OF w1(1) w2(1) w3(1)] world_listed [OF ok2 w3(1)] w1(3) w2(4) w3(3) by simp
qed

lemma ReadDirAll_miss:
  assumes "quiet (g_engine g)" "env_quiet (g_env g)" "world_ok g w" "\<not> d_direct d" "ld_dirEntries (d_data d) = None"
    and "clean_abs (d_path d)" "wview g w (d_path d) = Some row" "RowInode row = d_inode d"
    and "wnode w (d_belowPath d) = Some nd" "n_kind nd = KDir"
    and listable: "list_all listable (children (sys_kernel (w_sys w)) (d_belowPath d))"
    and left: "rowids_left (g_engine g) (length (db_rows (w_db w)) + length (children (sys_kernel (w_sys w)) (d_belowPath d)))"
  shows "\<exists>w' m rank. Dir_ReadDirAll g (w, d) = (Ret (Inr (map dirent_of (map_range rank m))), (w', set_dirEntries m d)) \<and>
    list_all2 (lists_as (wview g w') (d_path d)) (children (sys_kernel (w_sys w)) (d_belowPath d)) m"
proof -
  let ?fis = "children (sys_kernel (w_sys w)) (d_belowPath d)"
  obtain w1 tr w2 w3 where w1: "report (EvCacheMiss ReaddirFuseOp) w = (Ret (), w1)"
    and w2: "in_sys (syscalls_Open (g_env g) RemoteDomain (d_belowPath d)) w1 = (Ret (Inr tr), w2)"
    and w3: "in_sys (tracedReader_Readdir (g_env g) tr) w2 = (Ret (?fis, None), w3)"
    and ok3: "world_ok g w3" and rows3: "db_rows (w_db w3) = db_rows (w_db w)"
    and names: "\<forall>fi\<in>set ?fis. valid_name (Name fi) \<and> sep_free (Name fi)"
    by (rule list_remote [OF assms(2,3,9,10)])
  have good: "list_all (\<lambda>fi. listable fi \<and> valid_name (Name fi) \<and> sep_free (Name fi)) ?fis"
    using listable names by (auto simp: list_all_iff)
  have dist: "distinct (map Name ?fis)"
    using children_distinct assms(3) by (simp add: world_ok_def sys_ok_def kernel_ok_def)
  have row3: "wview g w3 (d_path d) = Some row" using assms(7) rows3 by simp
  have left3: "rowids_left (g_engine g) (length (db_rows (w_db w3)) + length ?fis)" using left rows3 by simp
  obtain d4 m where put: "PutDirEntries (g_engine g) (RowInode row) (d_path d) ?fis (w_db w3) = (Ret (Inr ()), d4)"
    and get: "GetDirEntries (g_engine g) (RowInode row) [] d4 = (Ret (Inr (), m), tick d4)"
    and m: "list_all2 (lists_as (meta_view (g_engine g) (db_rows d4)) (d_path d)) ?fis m"
    by (rule quiet_listing [OF assms(1) _ _ assms(6) row3 good dist left3])
       (use world_ok_db [OF ok3] in auto)
  let ?w4 = "w3\<lparr>w_db := d4\<rparr>" and ?w5 = "w3\<lparr>w_db := tick d4\<rparr>"
  have put': "in_db (PutDirEntries (g_engine g) (d_inode d) (d_path d) ?fis) w3 = (Ret (Inr ()), ?w4)"
    using put assms(8) by (simp add: in_db_def zoom_def)
  have get': "in_db (GetDirEntries (g_engine g) (d_inode d) []) ?w4 = (Ret (Inr (), m), ?w5)"
    using get assms(8) by (simp add: in_db_def zoom_def)
  let ?ds = "map dirent_of (map_range (g_range g ?w5) m)"
  note valid = listing_entries_valid [OF m listable]
  have "filter (Valid \<circ> snd) (map_range (g_range g ?w5) m) = map_range (g_range g ?w5) m"
    by (rule known_valid) (use valid in simp)
  then have ls: "list_dirents g (?w5, set_dirEntries m d) = (Ret (Inr ?ds), (?w5, set_dirEntries m d))"
    using known_valid(1) [OF valid] by (simp add: list_dirents_run)
  have "counted ?w5" using world_ok_db [OF ok3] by (simp add: counted_def)
  from traced_Close_returns [OF this] obtain r w6 where
    w6: "in_sys (tracedReader_Close (g_env g) tr) ?w5 = (Ret r, w6)" "w_db w6 = w_db ?w5" by blast
  have "Dir_ReadDirAll g (w, d) = (Ret (Inr ?ds), (w6, set_dirEntries m d))"
    using assms(4,5) w1 w2 w3 put' get' ls w6(1)
    by (simp add: Dir_ReadDirAll_def fetch_dirEntries_def reload_dirEntries_def defer_call_def Let_def bnd_def try_bnd_def zoom_def)
  then show ?thesis using m w6(2) by auto
qed

section \<open>Operations on the local file system\<close>

text \<open>The number of remote operations so far, by kind.\<close>

abbreviation remote_ops :: "OsOp \<Rightarrow> sys \<Rightarrow> u64" where
  "remote_ops op s \<equiv> counter_value (COsOp RemoteDomain op) (sys_stats s)"

abbreviation no_remote :: "OsOp \<Rightarrow> u64 \<Rightarrow> sys \<Rightarrow> bool" where
  "no_remote op c \<equiv> \<lambda>s. stats_wf (sys_stats s) \<and> remote_ops op s = c"

lemma keeps_no_remote_account:
  assumes "event_amount ev (COsOp RemoteDomain op) = 0"
  shows "keeps (no_remote op c) (in_stats (account ev))"
  by (rule keepsI) (use assms in \<open>simp add: in_stats_run account_wf account_counter del: counter_value.simps\<close>)

lemma keeps_no_remote_kernel: "keeps (no_remote op c) (in_kernel m)"
  by (rule keeps_in_kernel(2))

lemma keeps_no_remote_local:
  "keeps (no_remote op c) (in_stats (AccountOsOp LocalDomain op'))"
  using keeps_no_remote_account [of "EvOsOp LocalDomain op'" op c] by simp

lemma keeps_no_remote_ops:
  "keeps (no_remote op c) (syscalls_Lstat env LocalDomain p)" "keeps (no_remote op c) (syscalls_Open env LocalDomain p)"
  "keeps (no_remote op c) (GetFileForContents env cache key)"
proof -
  show l: "keeps (no_remote op c) (syscalls_Lstat env LocalDomain p)" for p
    unfolding syscalls_Lstat_def by (intro keeps_bnd keeps_no_remote_local keeps_no_remote_kernel)
  show "keeps (no_remote op c) (syscalls_Open env LocalDomain p)"
    unfolding syscalls_Open_def by (intro keeps_rules keeps_no_remote_local keeps_no_remote_kernel)
  show "keeps (no_remote op c) (GetFileForContents env cache key)"
    unfolding GetFileForContents_def HasKey_def pathForKey_def bucketForKey_def by (intro keeps_rules l)
qed

lemma keeps_no_remote_world: "keeps J m \<Longrightarrow> keeps (\<lambda>(w, n). J (w_sys w)) (outer (in_sys m))"
  by (auto simp: keeps_def zoom_def in_sys_def split: prod.splits)

lemma Open_hit_local:
  assumes "counted w" "\<not> f_direct f" "lf_contentHash (f_data f) \<noteq> None"
  shows "remote_ops op (w_sys (fst (snd (File_Open g (w, f))))) = remote_ops op (w_sys w)"
proof -
  let ?J = "no_remote op (remote_ops op (w_sys w))"
  have hit: "keeps (\<lambda>(w, n). ?J (w_sys w)) (outer (report (EvCacheHit OpenFuseOp)) :: (world \<times> File, unit) prog)"
    unfolding report_def by (rule keeps_no_remote_world [OF keeps_no_remote_account]) simp
  have "keeps (\<lambda>(w, n). ?J (w_sys w)) (open_cached g)"
    unfolding open_cached_def by (intro keeps_rules keeps_no_remote_world keeps_no_remote_ops)
  with hit have "keeps (\<lambda>(w, n). ?J (w_sys w)) (bnd (outer (report (EvCacheHit OpenFuseOp))) (\<lambda>_. open_cached g))"
    by (intro keeps_bnd)
  from keepsD [OF this, of "(w, f)"] show ?thesis
    using assms by (simp add: File_Open_def Let_def counted_def split_beta del: counter_value.simps)
qed

end
