(* ===== verification/Examples.thy ===== *)
theory Examples
  imports Fs_Reads
begin

text \<open>
  A small concrete system: an engine and a kernel that report no faults, a cache directory, and a remote
  directory with a file, a subdirectory and a symbolic link. The theorems of the development are applied
  to it to show that their hypotheses can hold.
\<close>

definition ex_engine :: engine where
  "ex_engine = \<lparr>eng_fault = (\<lambda>_. None), eng_torn = (\<lambda>_. False), eng_rowid = (\<lambda>used. find (\<lambda>r. r \<notin> set used) [1, 2, 3, 4, 5, 6, 7, 8]),
     eng_text = (\<lambda>s. s), eng_rand = (\<lambda>_. 0)\<rparr>"

text \<open>The same with two busy attempts at the beginning.\<close>

definition ex_busy :: engine where
  "ex_busy = ex_engine\<lparr>eng_fault := (\<lambda>t. if t < 2 then Some ErrBusy else None)\<rparr>"

definition ex_torn :: engine where
  "ex_torn = ex_engine\<lparr>eng_fault := (\<lambda>t. if t < 2 then Some (ErrCode 10) else None), eng_torn := (\<lambda>t. t = 1)\<rparr>"

definition ex_env :: os_env where
  "ex_env = \<lparr>env_fault = (\<lambda>_. None), env_short = (\<lambda>_. 0), env_suffix = (\<lambda>_. ''1''), env_umask = 0x12,
     env_clock = (\<lambda>_. 0)\<rparr>"

definition ex_node :: "kind \<Rightarrow> knode" where
  "ex_node kd = \<lparr>n_kind = kd, n_perm = 0x1A4, n_size = 0, n_mtime = 1500000000000000000\<rparr>"

definition ex_kernel :: kernel where
  "ex_kernel = \<lparr>
     k_files = [(''/'', 0), (''/cache'', 1), (''/remote'', 2), (''/remote/f'', 3), (''/remote/d'', 4), (''/remote/l'', 5)],
     k_nodes = [0 \<mapsto> ex_node KDir, 1 \<mapsto> ex_node KDir, 2 \<mapsto> ex_node KDir, 3 \<mapsto> ex_node (KFile [104, 105]),
       4 \<mapsto> ex_node KDir, 5 \<mapsto> ex_node (KLink ''target'')],
     k_nextino = 6, k_open = Map.empty, k_nextfd = 0, k_tick = 0\<rparr>"

definition ex_sys :: sys where
  "ex_sys = \<lparr>sys_kernel = ex_kernel, sys_stats = NewStats\<rparr>"

definition ex_rows :: table where
  "ex_rows = [(1, new_row ex_engine ''/'' ''directory''), (2, new_row ex_engine ''/f'' ''file''),
     (3, new_row ex_engine ''/l'' ''symlink'')]"

definition ex_db :: metadb where
  "ex_db = \<lparr>db_rows = ex_rows, db_tick = 0, db_sleeps = []\<rparr>"

definition ex_world :: world where
  "ex_world = \<lparr>w_sys = ex_sys, w_db = ex_db\<rparr>"

text \<open>Everything is cached.\<close>

definition ex_globals :: globalState where
  "ex_globals = \<lparr>g_env = ex_env, g_engine = ex_engine, g_content = NewContentCache ''/cache'',
     g_match = (\<lambda>_. True), g_range = (\<lambda>_ _. 0)\<rparr>"

section \<open>The example is well-formed\<close>

lemma ex_engine_ok: "engine_ok ex_engine" "quiet ex_engine"
proof -
  have "r \<notin> set used \<and> 0 < sint r" if "find (\<lambda>r. r \<notin> set used) [1, 2, 3, 4, 5, 6, 7, 8 :: int64] = Some r" for used r
  proof -
    have "r \<in> {1, 2, 3, 4, 5, 6, 7, 8}" "r \<notin> set used" using find_SomeD [OF that] by (simp_all only: list.set) auto
    then show ?thesis by (elim insertE) simp_all
  qed
  then show "engine_ok ex_engine" unfolding engine_ok_def ex_engine_def by (simp del: find.simps)
  show "quiet ex_engine" by (simp add: quiet_def ex_engine_def)
qed

lemma ex_rowids_left: "rowids_left ex_engine 8"
proof -
  have "eng_rowid ex_engine used \<noteq> None" if "length used < 8" for used
  proof
    assume "eng_rowid ex_engine used = None"
    then have "{1, 2, 3, 4, 5, 6, 7, 8} \<subseteq> set used"
      unfolding ex_engine_def engine.select_convs find_None_iff by auto
    then have "card {1, 2, 3, 4, 5, 6, 7, 8 :: int64} \<le> length used"
      by (meson List.finite_set card_length card_mono le_trans)
    with that show False by simp
  qed
  then show ?thesis by (simp add: rowids_left_def)
qed

lemma ex_env_ok: "env_ok ex_env" "env_quiet ex_env"
  by (simp_all add: env_ok_def env_quiet_def ex_env_def is_digit_def)

lemma ex_root: "clean_abs ''/cache''"
  by code_simp

lemma ex_kernel_wf: "kernel_wf ex_kernel"
  by (simp add: kernel_wf_def ex_kernel_def)

lemma ex_content_ok: "content_ok ''/cache'' ex_kernel"
  by (simp add: content_ok_def ex_kernel_def valid_key_def path_Base_def Let_def)

lemma ex_table_ok: "table_ok ex_rows"
  by (simp add: table_ok_def table_wf_def ex_rows_def new_row_def row_wf_def typeNames_def entries_ok_def ex_engine_def)

lemma ex_stats_wf: "stats_wf NewStats"
  by (rule stats_wf_New)

lemma ex_sys_wf: "stats_wf (sys_stats ex_sys)"
  by (simp add: ex_sys_def stats_wf_New)

lemma ex_globals_ok: "globals_ok ex_globals"
  by (simp add: globals_ok_def ex_globals_def ex_engine_ok ex_env_ok NewContentCache_def ex_root
      dirEntryFieldSeparator_def)

lemma ex_world_ok: "world_ok ex_globals ex_world"
  using ex_globals_ok ex_table_ok ex_kernel_wf ex_content_ok ex_stats_wf
  by (simp add: world_ok_def sys_ok_def kernel_ok_def ex_world_def ex_sys_def ex_db_def ex_globals_def
      NewContentCache_def names_ok_def dirEntryFieldSeparator_def)
     (simp add: ex_kernel_def)

section \<open>What the example holds\<close>

lemma ex_view:
  "meta_view ex_engine ex_rows ''/'' = Some (fresh_row 1 ''directory'')"
  "meta_view ex_engine ex_rows ''/f'' = Some (fresh_row 2 ''file'')"
  "meta_view ex_engine ex_rows ''/l'' = Some (fresh_row 3 ''symlink'')"
  "meta_view ex_engine ex_rows ''/x'' = None"
  by (simp_all add: meta_view_def ex_rows_def row_by_path_def new_row_def ex_engine_def view_row_def fresh_row_def row_info_def)

lemma ex_db_ok: "engine_ok ex_engine \<and> table_ok (db_rows ex_db)"
  using ex_engine_ok ex_table_ok by (simp add: ex_db_def)

lemma ex_paths: "clean_abs ''/''" "clean_abs ''/f''" "clean_abs ''/l''" "clean_abs ''/x''"
  by code_simp+

lemma ex_cache_ok: "cache_ok ''/cache'' ex_sys"
  using ex_kernel_wf ex_content_ok by (simp add: cache_ok_def ex_sys_def stats_wf_New)

lemma ex_not_key: "valid_key key \<Longrightarrow> ''/remote/f'' \<noteq> key_path ''/cache'' key"
proof
  assume key: "valid_key key" and eq: "''/remote/f'' = key_path ''/cache'' key"
  have "path_elems (key_path ''/cache'' key) = path_elems ''/cache'' @ [take 2 key, key]"
    using key ex_root by (simp add: key_path_def path_elems_Join path_Join_clean_abs valid_key_names)
  moreover have "path_elems ''/remote/f'' = [''remote'', ''f'']" "path_elems ''/cache'' = [''cache'']" by code_simp+
  ultimately show False using eq by simp
qed

lemma ex_no_child: "valid_name n \<Longrightarrow> node_at ex_kernel (path_Join ''/cache'' n) = None"
proof -
  assume "valid_name n"
  then have "path_elems (path_Join ''/cache'' n) = path_elems ''/cache'' @ [n]" by (simp add: path_elems_Join ex_root)
  moreover have "path_elems ''/cache'' = [''cache'']" "path_elems ''/'' = []" "path_elems ''/remote'' = [''remote'']"
    "path_elems ''/remote/f'' = [''remote'', ''f'']" "path_elems ''/remote/d'' = [''remote'', ''d'']"
    "path_elems ''/remote/l'' = [''remote'', ''l'']"
    by code_simp+
  ultimately have "path_Join ''/cache'' n \<notin> {''/'', ''/cache'', ''/remote'', ''/remote/f'', ''/remote/d'', ''/remote/l''}" by auto
  then show ?thesis by (simp add: node_at_def ex_kernel_def)
qed

lemma ex_no_key: "valid_key key \<Longrightarrow> node_at ex_kernel (key_path ''/cache'' key) = None"
proof -
  assume key: "valid_key key"
  then have "path_elems (key_path ''/cache'' key) = path_elems ''/cache'' @ [take 2 key, key]"
    using ex_root by (simp add: key_path_def path_elems_Join path_Join_clean_abs valid_key_names)
  moreover have "path_elems ''/cache'' = [''cache'']" "path_elems ''/'' = []" "path_elems ''/remote'' = [''remote'']"
    "path_elems ''/remote/f'' = [''remote'', ''f'']" "path_elems ''/remote/d'' = [''remote'', ''d'']"
    "path_elems ''/remote/l'' = [''remote'', ''l'']"
    by code_simp+
  ultimately have "key_path ''/cache'' key \<notin> {''/'', ''/cache'', ''/remote'', ''/remote/f'', ''/remote/d'', ''/remote/l''}" by auto
  then show ?thesis by (simp add: node_at_def ex_kernel_def)
qed

lemma ex_storable:
  "can_store ''/cache'' (node_at ex_kernel) (md5_hex bs)" "node_at ex_kernel (temp_name ex_env ''/cache'' t) = None"
  "open_bytes ex_kernel ''/remote/f'' = Inr [104, 105]"
proof -
  have "dir_in (node_at ex_kernel) ''/cache''" by (simp add: dir_in_def node_at_def ex_kernel_def ex_node_def)
  then show "can_store ''/cache'' (node_at ex_kernel) (md5_hex bs)"
    using ex_no_child valid_key_names(2) [OF valid_key_md5] ex_no_key [OF valid_key_md5]
    by (simp add: can_store_def dir_in_def)
  show "node_at ex_kernel (temp_name ex_env ''/cache'' t) = None"
    unfolding temp_name_def by (rule ex_no_child) (simp add: valid_name_def ex_env_def)
  show "open_bytes ex_kernel ''/remote/f'' = Inr [104, 105]"
    by (simp add: open_bytes_def follow.simps [of _ _ "''/remote/f''"] node_at_def ex_kernel_def ex_node_def)
qed

text \<open>Nodes of the mounted example, as a first lookup creates them.\<close>

definition ex_dir :: Dir where
  "ex_dir = \<lparr>d_path = ''/'', d_belowPath = ''/remote'', d_inode = 1, d_direct = False,
     d_data = \<lparr>ld_fileInfo = None, ld_didReadDir = False, ld_dirEntries = None, ld_rows = Map.empty\<rparr>\<rparr>"

definition ex_file :: File where
  "ex_file = \<lparr>f_path = ''/f'', f_belowPath = ''/remote/f'', f_inode = 2, f_direct = False,
     f_data = \<lparr>lf_fileInfo = None, lf_contentHash = None\<rparr>\<rparr>"

definition ex_link :: Symlink where
  "ex_link = \<lparr>s_path = ''/l'', s_belowPath = ''/remote/l'', s_inode = 3, s_direct = False,
     s_data = \<lparr>ls_fileInfo = None, ls_target = None\<rparr>\<rparr>"

lemma ex_globals_sel:
  "g_engine ex_globals = ex_engine" "g_env ex_globals = ex_env" "cc_root (g_content ex_globals) = ''/cache''"
  "g_match ex_globals p"
  by (simp_all add: ex_globals_def NewContentCache_def)

lemma ex_quiet: "quiet (g_engine ex_globals)" "env_quiet (g_env ex_globals)"
  using ex_engine_ok ex_env_ok by (simp_all add: ex_globals_sel)

lemma ex_world_sel: "db_rows (w_db ex_world) = ex_rows" "sys_kernel (w_sys ex_world) = ex_kernel" "length ex_rows = 3"
  by (simp_all add: ex_world_def ex_db_def ex_sys_def ex_rows_def)

lemma ex_left: "n \<le> 8 \<Longrightarrow> rowids_left ex_engine n"
  using ex_rowids_left by (auto simp: rowids_left_def)

lemma ex_nodes:
  "node_at ex_kernel ''/remote'' = Some (ex_node KDir)" "node_at ex_kernel ''/remote/f'' = Some (ex_node (KFile [104, 105]))"
  "node_at ex_kernel ''/remote/d'' = Some (ex_node KDir)" "node_at ex_kernel ''/remote/l'' = Some (ex_node (KLink ''target''))"
  "node_at ex_kernel ''/remote/x'' = None"
  by (simp_all add: node_at_def ex_kernel_def)

lemma ex_joins:
  "path_Join ''/'' ''x'' = ''/x''" "path_Join ''/remote'' ''x'' = ''/remote/x''" "path_Join ''/'' ''d'' = ''/d''"
  "path_Join ''/remote'' ''d'' = ''/remote/d''"
  by code_simp+

lemma ex_children: "children ex_kernel ''/remote'' =
    [node_info ''f'' (ex_node (KFile [104, 105])), node_info ''d'' (ex_node KDir), node_info ''l'' (ex_node (KLink ''target''))]"
proof -
  have c: "child_name ''/remote'' ''/'' = None" "child_name ''/remote'' ''/cache'' = None" "child_name ''/remote'' ''/remote'' = None"
    "child_name ''/remote'' ''/remote/f'' = Some ''f''" "child_name ''/remote'' ''/remote/d'' = Some ''d''"
    "child_name ''/remote'' ''/remote/l'' = Some ''l''"
    by code_simp+
  show ?thesis by (simp add: children_def ex_kernel_def List.map_filter_simps c)
qed

lemma ex_listable: "list_all listable (children ex_kernel ''/remote'')"
  by (simp add: ex_children listable_def node_info_def ex_node_def mode_defs)

end
