(* ===== verification/Props_Stats.thy ===== *)
theory Props_Stats
  imports Examples
begin

text \<open>Properties of the statistics, of the counted kernel operations and of the retry layer.\<close>

section \<open>Statistics\<close>

text \<open>
  C37. Starting from \<^verbatim>\<open>NewStats\<close>, any sequence of reports returns, and afterwards every counter that the
  retriever methods deliver is the sum of the amounts reported to it, modulo \<open>2 ^ 64\<close>.
\<close>

theorem stats_totals:
  "\<exists>s. for_do account es NewStats = (Ret (), s) \<and> (\<forall>k. counter_value k s = (\<Sum>e\<leftarrow>es. event_amount e k))"
  using sts.reports_run [OF stats_wf_New, of es] sts.reports_counter [OF stats_wf_New, of _ es]
  by (simp add: NewStats_counters)

text \<open>
  \<^verbatim>\<open>Clear\<close> after any history of reports returns and leaves exactly the object that \<^verbatim>\<open>NewStats\<close> creates.
\<close>

lemma stats_clear: "bnd (for_do account es) (\<lambda>_. Clear) NewStats = (Ret (), NewStats)"
  using sts.reports_run [OF stats_wf_New, of es] sts.reports_invar [OF stats_wf_New, of es]
  by (simp add: bnd_def Clear_run)

section \<open>Counted kernel operations\<close>

lemma in_stats_returns:
  assumes "stats_wf (sys_stats s)"
  obtains t where "in_stats (account ev) s = (Ret (), t)" "sys_kernel t = sys_kernel s" "stats_wf (sys_stats t)"
    "\<And>k. counter_value k (sys_stats t) = counter_value k (sys_stats s) + event_amount ev k"
  using in_stats_run [OF assms, of ev] that assms by (simp add: account_wf account_counter)

text \<open>
  C39. \<^verbatim>\<open>tracedReader.ReadAt\<close> returns, counts one read operation of its domain, adds the bytes it delivered
  to the bytes of that domain when the underlying call reports no error and nothing otherwise, and changes
  no other counter. The bytes of a short read, which come with the error \<^verbatim>\<open>io.EOF\<close>, are therefore not counted.
\<close>

theorem ReadAt_accounting:
  assumes "stats_wf (sys_stats s)"
  shows "\<exists>got err t. tracedReader_ReadAt env tr n off s = (Ret (got, err), t) \<and>
    (\<forall>k. counter_value k (sys_stats t) = counter_value k (sys_stats s) +
       (if k = COsOp (tr_domain tr) ReadOsOp then 1
        else if k = CReadBytes (tr_domain tr) \<and> err = None then of_nat (length got) else 0))"
proof -
  obtain s1 where s1: "in_stats (AccountOsOp (tr_domain tr) ReadOsOp) s = (Ret (), s1)" "stats_wf (sys_stats s1)"
    "\<And>k. counter_value k (sys_stats s1) = counter_value k (sys_stats s) + event_amount (EvOsOp (tr_domain tr) ReadOsOp) k"
    by (rule in_stats_returns [OF assms, of "EvOsOp (tr_domain tr) ReadOsOp"]) simp_all
  obtain got err k1 where read: "file_ReadAt env (tr_file tr) n off (sys_kernel s1) = (Ret (got, err), k1)"
    using total_os(9) [of env "tr_file tr" n off] unfolding total_prog_def by fastforce
  let ?s2 = "s1\<lparr>sys_kernel := k1\<rparr>"
  have read': "in_kernel (file_ReadAt env (tr_file tr) n off) s1 = (Ret (got, err), ?s2)"
    by (simp add: in_kernel_def zoom_def read)
  have wf2: "stats_wf (sys_stats ?s2)" using s1(2) by simp
  obtain s3 where s3: "in_stats (AccountReadBytes (tr_domain tr) (of_nat (length got))) ?s2 = (Ret (), s3)"
    "\<And>k. counter_value k (sys_stats s3) = counter_value k (sys_stats ?s2) + event_amount (EvReadBytes (tr_domain tr) (of_nat (length got))) k"
    by (rule in_stats_returns [OF wf2, of "EvReadBytes (tr_domain tr) (of_nat (length got))"]) simp_all
  show ?thesis
  proof (cases "err = None \<and> 0 < length got")
    case True
    then have "tracedReader_ReadAt env tr n off s = (Ret (got, err), s3)"
      by (simp add: tracedReader_ReadAt_def bnd_def s1(1) read' s3(1) Let_def)
    then show ?thesis using True s1(3) s3(2) by auto
  next
    case False
    then have "tracedReader_ReadAt env tr n off s = (Ret (got, err), ?s2)"
      by (auto simp: tracedReader_ReadAt_def bnd_def s1(1) read' Let_def)
    then show ?thesis using False s1(3) by auto
  qed
qed

theorem ReadAt_accounting_witness:
  "\<exists>got err t. tracedReader_ReadAt ex_env \<lparr>tr_domain = RemoteDomain, tr_file = \<lparr>f_id = 7, f_name = ''/src/f''\<rparr>\<rparr> 4 0 ex_sys = (Ret (got, err), t) \<and>
     counter_value (COsOp RemoteDomain ReadOsOp) (sys_stats t) = 1"
proof -
  let ?tr = "\<lparr>tr_domain = RemoteDomain, tr_file = \<lparr>f_id = 7, f_name = ''/src/f''\<rparr>\<rparr>"
  obtain got err t where t: "tracedReader_ReadAt ex_env ?tr 4 0 ex_sys = (Ret (got, err), t)"
    and counts: "\<forall>k. counter_value k (sys_stats t) = counter_value k (sys_stats ex_sys) +
       (if k = COsOp (tr_domain ?tr) ReadOsOp then 1
        else if k = CReadBytes (tr_domain ?tr) \<and> err = None then of_nat (length got) else 0)"
    using ReadAt_accounting [OF ex_sys_wf] by blast
  have "counter_value (COsOp RemoteDomain ReadOsOp) (sys_stats ex_sys) = 0" by (simp only: ex_sys_def sys.select_convs NewStats_counters)
  then have "counter_value (COsOp RemoteDomain ReadOsOp) (sys_stats t) = 1"
    using spec [OF counts, of "COsOp RemoteDomain ReadOsOp"] by (simp only: tracedReader.select_convs if_True refl add_0_left)
  with t show ?thesis by blast
qed

section \<open>Retries\<close>

text \<open>A statement that itself never reports contention.\<close>

definition never_busy :: "('r, 'a) stmt \<Rightarrow> bool" where
  "never_busy st \<longleftrightarrow> (\<forall>rows. fst (st rows) \<noteq> Inl (SqliteError ErrBusy))"

lemma retryExec_fault:
  assumes "\<And>i. i < k \<Longrightarrow> eng_fault e (db_tick d + i) = Some ErrBusy"
    and "eng_fault e (db_tick d + k) = Some c" "c \<noteq> ErrBusy"
  shows "\<exists>d'. retryExec e st delay d = Some (Inl (SqliteError c), d')"
  using assms
proof (induction k arbitrary: delay d)
  case 0
  then show ?case by (subst retryExec.simps) (simp add: Stmt_Exec_def waitOrErr_other)
next
  case (Suc k)
  let ?delay = "delay + rand_Int63n e (Suc (db_tick d)) backoffMaxDelay"
  let ?d = "(tick d)\<lparr>db_sleeps := db_sleeps d @ [?delay]\<rparr>"
  have "eng_fault e (db_tick d) = Some ErrBusy" using Suc.prems(1) [of 0] by simp
  then have "retryExec e st delay d = retryExec e st ?delay ?d"
    by (simp add: retryExec_busy_step Let_def)
  moreover have "\<exists>d'. retryExec e st ?delay ?d = Some (Inl (SqliteError c), d')"
  proof (rule Suc.IH)
    show "eng_fault e (db_tick ?d + i) = Some ErrBusy" if "i < k" for i
      using Suc.prems(1) [of "Suc i"] that by simp
  qed (use Suc.prems in simp_all)
  ultimately show ?case by simp
qed

lemma retryExec_busy_forever:
  assumes "\<And>i. eng_fault e (db_tick d + i) = Some ErrBusy"
  shows "retryExec e st delay d = None"
proof (rule ccontr)
  assume "retryExec e st delay d \<noteq> None"
  then obtain p where ret: "retryExec e st delay d = Some p" by blast
  have "\<exists>i. eng_fault e (db_tick d + i) \<noteq> Some ErrBusy"
  proof (rule retryExec.raw_induct
      [where P = "\<lambda>e st delay d p. \<exists>i. eng_fault e (db_tick d + i) \<noteq> Some ErrBusy", OF _ ret])
    fix f and e :: engine and st :: "('a, 'b) stmt" and delay d p
    assume IH: "\<And>e st delay d p. f e st delay d = Some p \<Longrightarrow> \<exists>i. eng_fault e (db_tick d + i) \<noteq> Some ErrBusy"
      and eq: "(case Stmt_Exec e st d of
        (Inl err, d1) \<Rightarrow> (case waitOrErr e err delay d1 of
             (None, delay', d2) \<Rightarrow> f e st delay' d2 | (Some err', _, d2) \<Rightarrow> Some (Inl err', d2))
      | (Inr result, d1) \<Rightarrow> Some (Inr result, d1)) = Some p"
    show "\<exists>i. eng_fault e (db_tick d + i) \<noteq> Some ErrBusy"
    proof (cases "eng_fault e (db_tick d) = Some ErrBusy")
      case True
      then obtain delay' d2 where "f e st delay' d2 = Some p" "db_tick d2 = Suc (db_tick d)"
        using eq by (auto simp: Stmt_Exec_def waitOrErr_busy Let_def)
      with IH obtain i where "eng_fault e (Suc (db_tick d) + i) \<noteq> Some ErrBusy" by metis
      then show ?thesis by (intro exI [of _ "Suc i"]) simp
    next
      case False
      then show ?thesis by (intro exI [of _ 0]) simp
    qed
  qed
  with assms show False by blast
qed

text \<open>
  C34. \<^verbatim>\<open>RetryExec\<close> ends exactly when contention does: it returns if and only if some later attempt finds the
  database not busy.
\<close>

theorem RetryExec_termination:
  assumes "never_busy st"
  shows "(\<exists>r d'. RetryExec e st d = (Ret r, d')) \<longleftrightarrow> (\<exists>k. eng_fault e (db_tick d + k) \<noteq> Some ErrBusy)"
proof
  assume "\<exists>r d'. RetryExec e st d = (Ret r, d')"
  then have "retryExec e st baseDelay d \<noteq> None" by (auto simp: RetryExec_def ret_loop_run split: option.splits)
  then show "\<exists>k. eng_fault e (db_tick d + k) \<noteq> Some ErrBusy" by (metis retryExec_busy_forever)
next
  assume ex: "\<exists>k. eng_fault e (db_tick d + k) \<noteq> Some ErrBusy"
  define k where "k = (LEAST k. eng_fault e (db_tick d + k) \<noteq> Some ErrBusy)"
  have busy: "eng_fault e (db_tick d + i) = Some ErrBusy" if "i < k" for i
    using not_less_Least [of i "\<lambda>k. eng_fault e (db_tick d + k) \<noteq> Some ErrBusy"] that by (auto simp: k_def)
  have k: "eng_fault e (db_tick d + k) \<noteq> Some ErrBusy" unfolding k_def by (rule LeastI_ex [OF ex])
  have "retryExec e st baseDelay d \<noteq> None"
  proof (cases "eng_fault e (db_tick d + k)")
    case None
    obtain r rows' where st: "st (db_rows d) = (r, rows')" by fastforce
    moreover have "r \<noteq> Inl (SqliteError ErrBusy)" using assms st unfolding never_busy_def by (metis fst_conv)
    ultimately show ?thesis using retryExec_after_busy [of k e d st r rows' baseDelay] busy None by simp
  next
    case (Some c)
    then show ?thesis using retryExec_fault [of k e d c st baseDelay] busy k by auto
  qed
  then show "\<exists>r d'. RetryExec e st d = (Ret r, d')" by (auto simp: RetryExec_def ret_loop_run)
qed

theorem RetryExec_termination_witness:
  "\<exists>r d'. RetryExec ex_engine (putNewEntryStmt ex_engine ''/x'' ''file'') ex_db = (Ret r, d')"
proof -
  have "never_busy (putNewEntryStmt ex_engine ''/x'' ''file'')"
    by (simp add: never_busy_def putNewEntryStmt_def split: option.split)
  from RetryExec_termination [OF this, of ex_engine ex_db] show ?thesis
    by (simp add: ex_engine_def)
qed

text \<open>
  C35. After \<open>k\<close> busy attempts \<^verbatim>\<open>RetryExec\<close> has slept exactly \<open>k\<close> times, each time at least as long as the
  time before, never less than 100 ms and never more than 100 ms plus 500 ms per attempt; then it delivers
  what the statement computes on the table it was called with. The bound on \<open>k\<close> keeps the delay, a 64-bit
  number of nanoseconds, from overflowing.
\<close>

theorem RetryExec_backoff:
  assumes "\<forall>i<k. eng_fault e (db_tick d + i) = Some ErrBusy" "eng_fault e (db_tick d + k) = None"
    and "never_busy st" "st (db_rows d) = (r, rows')" "k \<le> 18000000000"
  shows "\<exists>sleeps. RetryExec e st d = (Ret r, d\<lparr>db_rows := rows', db_tick := db_tick d + Suc k,
      db_sleeps := db_sleeps d @ sleeps\<rparr>) \<and>
    length sleeps = k \<and> sorted (map unat sleeps) \<and>
    (\<forall>w\<in>set sleeps. 100000000 \<le> unat w \<and> unat w \<le> 100000000 + k * 500000000)"
proof -
  let ?sleeps = "backoff e (db_tick d) baseDelay k"
  have base: "unat baseDelay = 100000000" by (simp add: baseDelay_def)
  have "r \<noteq> Inl (SqliteError ErrBusy)" using assms(3,4) unfolding never_busy_def by (metis fst_conv)
  then have "RetryExec e st d = (Ret r, d\<lparr>db_rows := rows', db_tick := db_tick d + Suc k,
      db_sleeps := db_sleeps d @ ?sleeps\<rparr>)"
    using retryExec_after_busy [of k e d st r rows' baseDelay] assms(1,2,4) by (simp add: RetryExec_def ret_loop_run)
  moreover have bound: "unat baseDelay + k * 500000000 \<le> 2 ^ 63" using assms(5) by (simp add: base)
  moreover have "length (backoff e t delay k) = k" for t delay
    by (induction k arbitrary: t delay) (simp_all add: Let_def)
  moreover have "100000000 \<le> unat w \<and> unat w \<le> 100000000 + k * 500000000" if "w \<in> set ?sleeps" for w
    using backoff_bounds_gen [OF bound that] by (simp add: base)
  ultimately show ?thesis using backoff_sorted_gen [OF bound] by blast
qed

theorem RetryExec_backoff_witness:
  "\<exists>sleeps. RetryExec ex_busy (putContentHashStmt ex_busy ''ab'' 2) ex_db = (Ret (Inr (Inr 1)),
      ex_db\<lparr>db_rows := snd (putContentHashStmt ex_busy ''ab'' 2 ex_rows), db_tick := 3, db_sleeps := sleeps\<rparr>) \<and> length sleeps = 2"
proof -
  have st: "putContentHashStmt ex_busy ''ab'' 2 (db_rows ex_db) = (Inr (Inr 1), snd (putContentHashStmt ex_busy ''ab'' 2 ex_rows))"
    by (simp add: putContentHashStmt_def sql_update_inode_def sql_uint64_def sql_update_def ex_db_def ex_rows_def)
  have nb: "never_busy (putContentHashStmt ex_busy ''ab'' 2)"
    by (simp add: never_busy_def putContentHashStmt_def sql_update_inode_def sql_uint64_def sql_update_def)
  have "\<forall>i<2. eng_fault ex_busy (db_tick ex_db + i) = Some ErrBusy" "eng_fault ex_busy (db_tick ex_db + 2) = None"
    by (simp_all add: ex_busy_def ex_db_def)
  from RetryExec_backoff [OF this nb st] show ?thesis by (auto simp: ex_db_def)
qed

text \<open>
  A statement is carried out at most once by \<^verbatim>\<open>RetryExec\<close>: the caller either never hears back, with the table
  as it was, or gets an error, with the table as it was or as one execution leaves it, or gets the result of
  one execution on the original table; contention itself is never reported.
\<close>

lemma RetryExec_atomic:
  assumes "atomic_stmt st"
  shows "case RetryExec e st d of
      (Ret (Inr x), d') \<Rightarrow> st (db_rows d) = (Inr x, db_rows d')
    | (Ret (Inl err), d') \<Rightarrow> torn st (db_rows d) (db_rows d') \<and> err \<noteq> SqliteError ErrBusy
    | (Diverge, d') \<Rightarrow> db_rows d' = db_rows d
    | (Panic _, _) \<Rightarrow> False
    | (Fatal _, _) \<Rightarrow> False"
  by (rule RetryExec_cases [OF assms, of e d]) simp_all

text \<open>
  C36. A read does not survive contention: when the query of \<^verbatim>\<open>GetFullEntry\<close> finds the database busy, the
  retry loop scans the same failed row again and again and the call never returns, however soon the
  database becomes free.
\<close>

theorem GetFullEntry_busy_diverges:
  assumes "eng_fault e (db_tick d) = Some ErrBusy"
  shows "fst (GetFullEntry e p d) = Diverge"
proof -
  have "QueryRowScan e (query_stmt (getFullEntryStmt e p)) d = (Diverge, tick d)"
    using assms by (simp add: QueryRowScan_def RetryQueryRow_def bnd_def Stmt_Exec_def Scan_def ret_loop_run
        retryScan_busy Row_Scan_def)
  then show ?thesis by (simp add: GetFullEntry_def bnd_def)
qed

theorem GetFullEntry_busy_diverges_witness:
  "fst (GetFullEntry ex_busy ''/'' ex_db) = Diverge"
  by (rule GetFullEntry_busy_diverges) (simp add: ex_db_def ex_busy_def)

end
