(* ===== verification/Props_Metadata.thy ===== *)
theory Props_Metadata
  imports Examples
begin

unbundle bit_operations_syntax

text \<open>Properties of the metadata cache.\<close>

section \<open>Histories\<close>

text \<open>
  C13. Any sequence of calls of the metadata cache with any arguments, whatever errors SQLite reports on the way
  and whether or not a statement that failed was carried out, leaves a well-formed table: unique positive row
  numbers, unique paths, known types and complete file information. A path that has a row keeps it, under the
  same number. If the names of the listings that are stored hold neither separator byte, every recorded
  listing can be decoded as well.
\<close>

theorem metadata_history_ok:
  assumes "engine_ok e" "table_ok (db_rows d)" "d' = fold (meta_step e) ops d"
  shows "table_wf (db_rows d') \<and>
    (\<forall>p row. meta_view e (db_rows d) p = Some row \<longrightarrow>
      (\<exists>row'. meta_view e (db_rows d') p = Some row' \<and> RowInode row' = RowInode row)) \<and>
    (list_all listing_ok ops \<longrightarrow> list_all (\<lambda>(r, row). entries_ok row) (db_rows d'))"
proof (intro conjI allI impI)
  show wf: "table_wf (db_rows d')" using assms(1,2) by (simp add: assms(3) meta_run_wf table_ok_def)
  show "\<exists>row'. meta_view e (db_rows d') p = Some row' \<and> RowInode row' = RowInode row"
    if "meta_view e (db_rows d) p = Some row" for p row
    using rows_kept_view [OF _ wf _ that] meta_run_rows [OF rows_kept_refl, of d e ops] assms(2)
    unfolding assms(3) table_ok_def by metis
  show "list_all (\<lambda>(r, row). entries_ok row) (db_rows d')" if "list_all listing_ok ops"
    using meta_run_ok [OF assms(1,2) that] by (simp add: assms(3) table_ok_def)
qed

theorem metadata_history_ok_witness:
  "table_wf (db_rows (fold (meta_step ex_torn) [OpPutNewNoEntry ''/x'', OpPutNewOrUpdateWithType ''/x'' ModeDir,
     OpPutDirEntries 1 ''/'' [node_info ''x'' (ex_node KDir)]] ex_db))"
proof -
  have "engine_ok ex_torn" using ex_engine_ok(1) by (simp add: engine_ok_def ex_torn_def)
  moreover have "table_ok (db_rows ex_db)" using ex_table_ok by (simp add: ex_db_def)
  ultimately show ?thesis using metadata_history_ok by blast
qed

text \<open>Two paths never share an inode number.\<close>

lemma inode_injective:
  assumes "engine_ok e" "table_ok tbl" "clean_abs p" "clean_abs q" "p \<noteq> q"
    and "meta_view e tbl p = Some row" "meta_view e tbl q = Some row'"
  shows "RowInode row \<noteq> RowInode row'"
  using meta_view_inode_inj [OF assms(1) _ assms(3,4,6,7)] assms(2,5) by (auto simp: table_ok_def)

section \<open>Lookup\<close>

text \<open>
  C14. \<^verbatim>\<open>GetFullEntry\<close> reads the abstract store: it never panics, never changes the table, and every row it
  returns is the one the store holds for the path; when the database reports no faults it does return.
\<close>

theorem GetFullEntry_refines:
  assumes "table_ok (db_rows d)"
  shows "(case GetFullEntry e p d of
      (Ret (Inr r), d') \<Rightarrow> r = meta_view e (db_rows d) p \<and> db_rows d' = db_rows d
    | (Ret (Inl _), d') \<Rightarrow> db_rows d' = db_rows d \<and> \<not> quiet e
    | (Diverge, d') \<Rightarrow> db_rows d' = db_rows d \<and> \<not> quiet e
    | (Panic _, _) \<Rightarrow> False
    | (Fatal _, _) \<Rightarrow> False)"
  using quiet_GetFullEntry [OF _ assms, of e p]
  by (cases rule: GetFullEntry_cases [OF assms, of e p]) auto

theorem GetFullEntry_refines_witness:
  "\<exists>d'. GetFullEntry ex_engine ''/f'' ex_db = (Ret (Inr (Some (fresh_row 2 ''file''))), d')"
  using GetFullEntry_refines [of ex_db ex_engine "''/f''"] ex_db_ok ex_engine_ok ex_view
  by (auto simp: ex_db_def split: prod.splits outcome.splits sum.splits)

section \<open>Round trips\<close>

text \<open>
  C15. What \<^verbatim>\<open>PutFileInfo\<close> stores for the row of a path is what \<^verbatim>\<open>GetFullEntry\<close> reports for that path, for
  every size and mode and every time that \<^verbatim>\<open>UnixNano\<close> can represent; all other rows stay as they were.
\<close>

theorem file_info_round_trip:
  assumes "quiet e" "engine_ok e" "table_ok (db_rows d)" "clean_abs p" "meta_view e (db_rows d) p = Some row"
    and "Name fi = path_Base p" "unix_nano_range (ModTime fi)"
  shows "\<exists>d1 d2. PutFileInfo e (RowInode row) fi d = (Ret (Inr ()), d1) \<and>
    GetFullEntry e p d1 = (Ret (Inr (Some (row\<lparr>RowFileInfo := Some fi\<rparr>))), d2) \<and>
    (\<forall>q. clean_abs q \<and> q \<noteq> p \<longrightarrow> meta_view e (db_rows d1) q = meta_view e (db_rows d) q)"
proof -
  have same: "set_info fi p row = row\<lparr>RowFileInfo := Some fi\<rparr>"
    using assms(6,7) by (cases fi) (simp add: set_info_def stored_info_def newFileInfo_def time_round_trip)
  obtain d1 d2 where run: "PutFileInfo e (RowInode row) fi d = (Ret (Inr ()), d1)"
    "GetFullEntry e p d1 = (Ret (Inr (Some (set_info fi p row))), d2)"
    using ms.info_round_trip [of e d p row fi] assms by blast
  have "meta_view e (db_rows d1) q = meta_view e (db_rows d) q" if "clean_abs q" "q \<noteq> p" for q
    using view_updateD [OF view_update_puts(1) run(1)] that assms(2-5)
    by (simp add: store_update_other table_ok_def)
  with run same show ?thesis by auto
qed

theorem file_info_round_trip_witness:
  "\<exists>d1 d2. PutFileInfo ex_engine 2 (node_info ''f'' (ex_node (KFile [104]))) ex_db = (Ret (Inr ()), d1) \<and>
    GetFullEntry ex_engine ''/f'' d1 =
      (Ret (Inr (Some ((fresh_row 2 ''file'')\<lparr>RowFileInfo := Some (node_info ''f'' (ex_node (KFile [104])))\<rparr>))), d2)"
proof -
  have "Name (node_info ''f'' (ex_node (KFile [104]))) = path_Base ''/f''"
    "unix_nano_range (ModTime (node_info ''f'' (ex_node (KFile [104]))))"
    by (simp_all add: node_info_def ex_node_def unix_nano_range_def path_Base_def)
  from file_info_round_trip [OF ex_engine_ok(2,1) _ ex_paths(2) _ this, of ex_db "fresh_row 2 ''file''"]
  show ?thesis using ex_table_ok ex_view by (auto simp: ex_db_def fresh_row_def)
qed

text \<open>
  C16. A content hash or a symbolic link's target that does not look like a number is reported by
  \<^verbatim>\<open>GetFullEntry\<close> as it was stored; all other rows stay as they were.
\<close>

theorem hash_and_target_round_trip:
  assumes "quiet e" "engine_ok e" "table_ok (db_rows d)" "clean_abs p" "meta_view e (db_rows d) p = Some row" "plain_text s"
  shows "(\<exists>d1 d2. PutContentHash e (RowInode row) s d = (Ret (Inr ()), d1) \<and>
      GetFullEntry e p d1 = (Ret (Inr (Some (row\<lparr>ContentHash := Some s\<rparr>))), d2) \<and>
      (\<forall>q. clean_abs q \<and> q \<noteq> p \<longrightarrow> meta_view e (db_rows d1) q = meta_view e (db_rows d) q)) \<and>
    (\<exists>d1 d2. PutSymlinkTarget e (RowInode row) s d = (Ret (Inr ()), d1) \<and>
      GetFullEntry e p d1 = (Ret (Inr (Some (row\<lparr>Target := Some s\<rparr>))), d2) \<and>
      (\<forall>q. clean_abs q \<and> q \<noteq> p \<longrightarrow> meta_view e (db_rows d1) q = meta_view e (db_rows d) q))"
proof (rule conjI)
  have s: "eng_text e s = s" using assms(2,6) by (rule engine_ok_text)
  have wf: "table_wf (db_rows d)" using assms(3) by (simp add: table_ok_def)
  obtain d1 d2 where h: "PutContentHash e (RowInode row) s d = (Ret (Inr ()), d1)"
    "GetFullEntry e p d1 = (Ret (Inr (Some (set_hash s p row))), d2)"
    using ms.hash_round_trip [of e d p row s] assms s by auto
  have "meta_view e (db_rows d1) q = meta_view e (db_rows d) q" if "clean_abs q" "q \<noteq> p" for q
    using view_updateD [OF view_update_puts(2) h(1)] that assms wf by (simp add: store_update_other)
  with h show "\<exists>d1 d2. PutContentHash e (RowInode row) s d = (Ret (Inr ()), d1) \<and>
      GetFullEntry e p d1 = (Ret (Inr (Some (row\<lparr>ContentHash := Some s\<rparr>))), d2) \<and>
      (\<forall>q. clean_abs q \<and> q \<noteq> p \<longrightarrow> meta_view e (db_rows d1) q = meta_view e (db_rows d) q)"
    by (auto simp: set_hash_def)
  obtain d1 d2 where t: "PutSymlinkTarget e (RowInode row) s d = (Ret (Inr ()), d1)"
    "GetFullEntry e p d1 = (Ret (Inr (Some (set_target s p row))), d2)"
    using ms.target_round_trip [of e d p row s] assms s by auto
  have "meta_view e (db_rows d1) q = meta_view e (db_rows d) q" if "clean_abs q" "q \<noteq> p" for q
    using view_updateD [OF view_update_puts(3) t(1)] that assms wf by (simp add: store_update_other)
  with t show "\<exists>d1 d2. PutSymlinkTarget e (RowInode row) s d = (Ret (Inr ()), d1) \<and>
      GetFullEntry e p d1 = (Ret (Inr (Some (row\<lparr>Target := Some s\<rparr>))), d2) \<and>
      (\<forall>q. clean_abs q \<and> q \<noteq> p \<longrightarrow> meta_view e (db_rows d1) q = meta_view e (db_rows d) q)"
    by (auto simp: set_target_def)
qed

theorem hash_and_target_round_trip_witness:
  "\<exists>d1 d2. PutSymlinkTarget ex_engine 3 ''target'' ex_db = (Ret (Inr ()), d1) \<and>
      GetFullEntry ex_engine ''/l'' d1 = (Ret (Inr (Some ((fresh_row 3 ''symlink'')\<lparr>Target := Some ''target''\<rparr>))), d2)"
proof -
  have "plain_text ''target''" by (simp add: plain_text_def numeric_char_def is_digit_def)
  from hash_and_target_round_trip [OF ex_engine_ok(2,1) _ ex_paths(3) _ this, of ex_db "fresh_row 3 ''symlink''"]
  show ?thesis using ex_table_ok ex_view by (auto simp: ex_db_def fresh_row_def)
qed

section \<open>Insertion\<close>

text \<open>
  Without faults \<^verbatim>\<open>putNew\<close> either inserts a row with an unused positive number and nothing but its
  type, leaving all other paths as they were, or reports a constraint violation, with the table unchanged,
  if the path has a row already.
\<close>

lemma putNew_inserts_once:
  assumes "quiet e" "engine_ok e" "table_wf (db_rows d)" "t \<in> set typeNames" "clean_abs p"
    and "eng_rowid e (map fst (db_rows d)) = Some r"
  shows "case meta_view e (db_rows d) p of
      None \<Rightarrow> \<exists>d'. putNew e p t d = (Ret (Inr r), d') \<and> 0 < sint r \<and> r \<notin> fst ` set (db_rows d) \<and>
        (\<forall>q. clean_abs q \<longrightarrow> meta_view e (db_rows d') q = ((meta_view e (db_rows d))(p \<mapsto> fresh_row r t)) q)
    | Some _ \<Rightarrow> putNew e p t d = (Ret (Inl (SqliteError ErrConstraint)), tick d)"
proof (cases "meta_view e (db_rows d) p")
  case None
  obtain d' where "putNew e p t d = (Ret (Inr r), d')"
    "\<And>q. clean_abs q \<Longrightarrow> meta_view e (db_rows d') q = ((meta_view e (db_rows d))(p \<mapsto> fresh_row r t)) q"
    using quiet_putNew [OF assms(1,2,4,5) None assms(6)] by blast
  with None engine_ok_rowid [OF assms(2,6)] show ?thesis by auto
next
  case (Some row)
  then have "putNewEntryStmt e p t (db_rows d) = (Inl (SqliteError ErrConstraint), db_rows d)"
    by (auto simp: putNewEntryStmt_def meta_view_def)
  then have "RetryExec e (putNewEntryStmt e p t) d = (Ret (Inl (SqliteError ErrConstraint)), (tick d)\<lparr>db_rows := db_rows d\<rparr>)"
    by (intro quiet_RetryExec assms(1)) simp_all
  then show ?thesis using Some by (simp add: putNew_def try_bnd_def bnd_def tick_def)
qed

text \<open>
  C17. \<^verbatim>\<open>putNewOrUpdate\<close> implements an upsert and never reaches its panic for more than one updated row. When it
  succeeds the path has the given type: an existing row keeps its number and its other fields, a missing row
  is created with a positive number; every other path is as before. When it fails the table shows the same
  rows as before, or those after this upsert, since a failed statement is not rolled back.
\<close>

theorem putNewOrUpdate_refines:
  assumes "engine_ok e" "table_ok (db_rows d)" "t \<in> set typeNames" "clean_abs p"
  shows "case putNewOrUpdate e p t d of
      (Ret (Inr _), d') \<Rightarrow> \<exists>r. 0 < sint r \<and> (\<forall>q. clean_abs q \<longrightarrow>
        meta_view e (db_rows d') q = store_upsert p t r (meta_view e (db_rows d)) q)
    | (Ret (Inl _), d') \<Rightarrow> (\<forall>q. clean_abs q \<longrightarrow> meta_view e (db_rows d') q = meta_view e (db_rows d) q) \<or>
        (\<exists>r. 0 < sint r \<and> (\<forall>q. clean_abs q \<longrightarrow>
          meta_view e (db_rows d') q = store_upsert p t r (meta_view e (db_rows d)) q))
    | (Diverge, d') \<Rightarrow> \<forall>q. clean_abs q \<longrightarrow> meta_view e (db_rows d') q = meta_view e (db_rows d) q
    | (Panic _, _) \<Rightarrow> False
    | (Fatal _, _) \<Rightarrow> False"
proof -
  have wf: "table_wf (db_rows d)" using assms(2) by (simp add: table_ok_def)
  show ?thesis
    by (rule putNewOrUpdate_cases [OF assms(1) wf assms(3,4)]) (simp_all add: upserted_def same_view_def)
qed

theorem putNewOrUpdate_refines_witness:
  "case putNewOrUpdate ex_engine ''/f'' ''noentry'' ex_db of
      (Ret (Inr _), d') \<Rightarrow> meta_view ex_engine (db_rows d') ''/f'' = Some (fresh_row 2 ''noentry'')
    | (Panic _, _) \<Rightarrow> False
    | _ \<Rightarrow> True"
  using putNewOrUpdate_refines [of ex_engine ex_db "''noentry''" "''/f''"] ex_db_ok ex_view ex_paths
  by (auto simp: ex_db_def typeNames_def store_upsert_def set_type_def fresh_row_def split: prod.splits outcome.splits sum.splits)

section \<open>Listings\<close>

text \<open>
  C19. Decoding inverts the encoding of a listing, for names that hold neither separator and do not
  repeat, any inode numbers and the four types: \<^verbatim>\<open>parseDirEntries\<close> accepts the text that \<^verbatim>\<open>PutDirEntries\<close>
  writes and yields one entry per name, with its inode and type.
\<close>

theorem entries_round_trip:
  assumes "good_entries xs" "distinct (map fst xs)"
  shows "parseDirEntries (join_with dirEntrySeparator (map (\<lambda>(n, i, t). formatDirEntry n i t) xs)) [] =
    (Ret (Inr ()), map (\<lambda>(n, i, t). (n, entry_of i t)) xs)"
  using parse_format_entries [OF assms(1), of "[]"] fold_add_entry_distinct [of "[]" xs] assms(2)
  by (simp add: format_entries_def)

theorem entries_round_trip_witness:
  "parseDirEntries (join_with dirEntrySeparator (map (\<lambda>(n, i, t). formatDirEntry n i t)
      [(''a b'', 18446744073709551615, ''file''), (''d'', 7, ''directory'')])) [] =
    (Ret (Inr ()), [(''a b'', \<lparr>Valid = True, Inode = 18446744073709551615, ModeType = 0\<rparr>),
       (''d'', \<lparr>Valid = True, Inode = 7, ModeType = ModeDir\<rparr>)])"
  using entries_round_trip [of "[(''a b'', 18446744073709551615, ''file''), (''d'', 7, ''directory'')]"]
  by (simp add: good_entries_def sep_free_def separator_defs typeNames_def entry_of_def)

text \<open>
  C18. Storing a listing and reading it back: without faults \<^verbatim>\<open>PutDirEntries\<close> on the row of a directory
  succeeds, and \<^verbatim>\<open>GetDirEntries\<close> then delivers exactly one entry per listed file, in order, with the file's
  type and the inode number of the row that the file's own path has in the cache.
\<close>

theorem listing_round_trip:
  assumes "quiet e" "engine_ok e" "table_ok (db_rows d)" "clean_abs path" "meta_view e (db_rows d) path = Some row"
    and "list_all (\<lambda>fi. listable fi \<and> valid_name (Name fi) \<and> sep_free (Name fi)) fis" "distinct (map Name fis)"
    and "rowids_left e (length (db_rows d) + length fis)"
  shows "\<exists>d1 d2 m. PutDirEntries e (RowInode row) path fis d = (Ret (Inr ()), d1) \<and>
    GetDirEntries e (RowInode row) [] d1 = (Ret (Inr (), m), d2) \<and>
    list_all2 (lists_as (meta_view e (db_rows d1)) path) fis m"
  using quiet_listing [OF assms] by blast

theorem listing_round_trip_witness:
  "\<exists>d1 d2 m. PutDirEntries ex_engine 1 ''/'' [node_info ''f'' (ex_node (KFile [])), node_info ''d'' (ex_node KDir)] ex_db = (Ret (Inr ()), d1) \<and>
    GetDirEntries ex_engine 1 [] d1 = (Ret (Inr (), m), d2) \<and> map fst m = [''f'', ''d'']"
proof -
  let ?fis = "[node_info ''f'' (ex_node (KFile [])), node_info ''d'' (ex_node KDir)]"
  have fis: "list_all (\<lambda>fi. listable fi \<and> valid_name (Name fi) \<and> sep_free (Name fi)) ?fis" "distinct (map Name ?fis)"
    by (simp_all add: node_info_def ex_node_def listable_def mode_defs valid_name_def sep_free_def separator_defs)
  have left: "rowids_left ex_engine (length (db_rows ex_db) + length ?fis)"
    using ex_rowids_left by (auto simp: rowids_left_def ex_db_def ex_rows_def)
  have pre: "table_ok (db_rows ex_db)" "meta_view ex_engine (db_rows ex_db) ''/'' = Some (fresh_row 1 ''directory'')"
    using ex_db_ok ex_view by (simp_all add: ex_db_def)
  have names: "map fst m = map Name fis" if "list_all2 (lists_as v p) fis m" for v p fis m
    using that by (induction rule: list_all2_induct) (simp_all add: lists_as_def)
  obtain d1 d2 m where "PutDirEntries ex_engine (RowInode (fresh_row 1 ''directory'')) ''/'' ?fis ex_db = (Ret (Inr ()), d1)"
    "GetDirEntries ex_engine (RowInode (fresh_row 1 ''directory'')) [] d1 = (Ret (Inr (), m), d2)"
    "list_all2 (lists_as (meta_view ex_engine (db_rows d1)) ''/'') ?fis m"
    using listing_round_trip [OF ex_engine_ok(2,1) pre(1) ex_paths(1) pre(2) fis left] by blast
  then show ?thesis using names [of _ _ ?fis m] by (auto simp: fresh_row_def node_info_def)
qed

text \<open>
  C38. The type of an entry survives the way into the database and back: \<^verbatim>\<open>sqlTypeName\<close> followed by
  \<^verbatim>\<open>addDirEntry\<close> yields an entry with the mode it started from, for files, directories and symbolic links;
  every other mode, for instance that of a socket, a device or a pipe, makes the program panic.
\<close>

theorem type_round_trip:
  "bnd (sqlTypeName m) (addDirEntry i n) [] =
    (if m = 0 \<or> m = ModeDir \<or> m = ModeSymlink then (Ret (Inr ()), [(n, \<lparr>Valid = True, Inode = i, ModeType = m\<rparr>)])
     else if m AND NOT os_ModeType \<noteq> 0 then (Panic ''Input modeType contains permissions'', [])
     else (Panic ''Unknown entry type'', []))"
  by (auto simp: sqlTypeName_def addDirEntry_def bnd_def mode_defs)

end
