(* ===== verification/Props_Content.thy ===== *)
theory Props_Content
  imports Examples
begin

text \<open>Properties of the content cache.\<close>

section \<open>Storing\<close>

text \<open>
  C10. \<^verbatim>\<open>PutContents\<close> always returns, whatever the kernel reports, keeps the cache consistent (every cached
  file has the digest it is filed under) and loses no cached key. When it succeeds, the remote file could
  be read in full, the key is the MD5 digest of its bytes, and the cache holds these bytes under the key,
  unless it held a file with the same digest before.
\<close>

theorem PutContents_stores:
  assumes "clean_abs root" "env_ok env" "cache_ok root s"
  shows "\<exists>r s'. PutContents env (NewContentCache root) path s = (Ret r, s') \<and> cache_ok root s' \<and>
    (\<forall>key. cached_bytes root s key \<noteq> None \<longrightarrow> cached_bytes root s' key \<noteq> None) \<and>
    (case r of Inl _ \<Rightarrow> True
     | Inr key \<Rightarrow> \<exists>bs. open_bytes (sys_kernel s) path = Inr bs \<and> key = md5_hex bs \<and>
         (cached_bytes root s' key = Some bs \<or>
          cached_bytes root s' key = cached_bytes root s key \<and> cached_bytes root s key \<noteq> None))"
proof -
  obtain r s' where run: "PutContents env (NewContentCache root) path s = (Ret r, s')" "cache_ok root s'"
    and post: "put_post env root (node_at (sys_kernel s)) (open_bytes (sys_kernel s) path) r (node_at (sys_kernel s'))"
    by (rule PutContents_New_run [OF assms(1-3)])
  have "cached_bytes root s' key \<noteq> None" if "cached_bytes root s key \<noteq> None" for key
  proof -
    have key: "valid_key key" using that by (auto simp: cached_bytes_def split: if_splits)
    then show ?thesis
      using that put_post_keys [OF assms(1) post key] cached_iff_node [OF assms(1) _ key] assms(3) run(2) by blast
  qed
  moreover have "\<exists>bs. open_bytes (sys_kernel s) path = Inr bs \<and> key = md5_hex bs \<and>
      (cached_bytes root s' key = Some bs \<or> cached_bytes root s' key = cached_bytes root s key \<and> cached_bytes root s key \<noteq> None)"
    if r: "r = Inr key" for key
  proof -
    have wf: "kernel_wf (sys_kernel s)" "kernel_wf (sys_kernel s')" using assms(3) run(2) by (auto simp: cache_ok_def)
    obtain bs where bs: "open_bytes (sys_kernel s) path = Inr bs" "key = md5_hex bs"
      "node_at (sys_kernel s') (key_path root key) \<noteq> None"
      "file_at (sys_kernel s') (key_path root key) = Some bs \<or>
        node_at (sys_kernel s') (key_path root key) = node_at (sys_kernel s) (key_path root key)"
      using put_post_Inr [OF assms(1) post [unfolded r] wf] by metis
    have key: "valid_key key" by (simp add: bs(2) valid_key_md5)
    show ?thesis
    proof (cases "file_at (sys_kernel s') (key_path root key) = Some bs")
      case False
      then have "node_at (sys_kernel s') (key_path root key) = node_at (sys_kernel s) (key_path root key)"
        using bs(4) by blast
      then show ?thesis
        using bs(1-3) key cached_iff_node [OF assms(1,3) key] by (auto simp: cached_bytes_def file_at_def)
    qed (use bs key in \<open>auto simp: cached_bytes_def\<close>)
  qed
  ultimately show ?thesis using run by (cases r) auto
qed

theorem PutContents_stores_witness:
  "\<exists>r s'. PutContents ex_env (NewContentCache ''/cache'') ''/remote/f'' ex_sys = (Ret r, s') \<and> cache_ok ''/cache'' s'"
  using PutContents_stores [OF ex_root ex_env_ok(1) ex_cache_ok, of "''/remote/f''"] by blast

text \<open>
  C12. \<^verbatim>\<open>PutContents\<close> leaves every existing file and directory that does not stand at the place of a key
  exactly as it was; in particular it never changes the remote tree.
\<close>

theorem PutContents_frame:
  assumes "clean_abs root" "env_ok env" "cache_ok root s"
    and "node_at (sys_kernel s) p \<noteq> None" "\<forall>key. valid_key key \<longrightarrow> p \<noteq> key_path root key"
  shows "node_at (sys_kernel (snd (PutContents env (NewContentCache root) path s))) p = node_at (sys_kernel s) p"
proof -
  obtain r s' where "PutContents env (NewContentCache root) path s = (Ret r, s')"
    and "put_post env root (node_at (sys_kernel s)) (open_bytes (sys_kernel s) path) r (node_at (sys_kernel s'))"
    by (rule PutContents_New_run [OF assms(1-3)])
  then show ?thesis using put_post_frame assms(4,5) valid_key_md5 by auto
qed

theorem PutContents_frame_witness:
  "node_at (sys_kernel (snd (PutContents ex_env (NewContentCache ''/cache'') ''/remote/f'' ex_sys))) ''/remote/f'' =
   Some (ex_node (KFile [104, 105]))"
  using PutContents_frame [OF ex_root ex_env_ok(1) ex_cache_ok, of "''/remote/f''" "''/remote/f''"] ex_not_key
  by (simp add: ex_sys_def) (simp add: node_at_def ex_kernel_def)

text \<open>
  C11. When the kernel reports no faults, the cache directory is in order and no temporary file is left over
  from before, \<^verbatim>\<open>PutContents\<close> of a readable file succeeds with the digest of its bytes, and nothing but the
  bucket and the file of that key has appeared: the temporary file is gone.
\<close>

theorem PutContents_live:
  assumes "clean_abs root" "env_ok env" "cache_ok root s" "env_quiet env"
    and "open_bytes (sys_kernel s) path = Inr bs" "can_store root (node_at (sys_kernel s)) (md5_hex bs)"
    and "\<forall>t. node_at (sys_kernel s) (temp_name env root t) = None"
  shows "\<exists>s'. PutContents env (NewContentCache root) path s = (Ret (Inr (md5_hex bs)), s') \<and>
    cached_bytes root s' (md5_hex bs) \<noteq> None \<and>
    (\<forall>p. node_at (sys_kernel s) p = None \<and> node_at (sys_kernel s') p \<noteq> None \<longrightarrow>
       p \<in> {path_Join root (take 2 (md5_hex bs)), key_path root (md5_hex bs)})"
  by (rule PutContents_quiet [OF assms]) blast

theorem PutContents_live_witness:
  "\<exists>s'. PutContents ex_env (NewContentCache ''/cache'') ''/remote/f'' ex_sys = (Ret (Inr (md5_hex [104, 105])), s') \<and>
    cached_bytes ''/cache'' s' (md5_hex [104, 105]) \<noteq> None"
  using PutContents_live [OF ex_root ex_env_ok(1) ex_cache_ok ex_env_ok(2), of "''/remote/f''" "[104, 105]"] ex_storable
  by (auto simp: ex_sys_def)

section \<open>Retrieving\<close>

text \<open>
  Without faults \<^verbatim>\<open>GetFileForContents\<close> answers with the path of a file that holds bytes with the
  requested digest if the key is cached, and with an error naming the key if it is not; the cache is not
  changed.
\<close>

lemma GetFileForContents_exact:
  assumes "clean_abs root" "cache_ok root s" "valid_key key" "env_quiet env"
  shows "\<exists>s'. GetFileForContents env (NewContentCache root) key s =
      (Ret (case cached_bytes root s key of
         Some _ \<Rightarrow> Inr (key_path root key)
       | None \<Rightarrow> Inl (ErrorString (''attempted to get non-existent key '' @ key))), s') \<and>
    cached_bytes root s' = cached_bytes root s \<and> cache_ok root s'"
  using assms by (rule GetFileForContents_quiet)

end
