(* ===== verification/Props_Fs.thy ===== *)
theory Props_Fs
  imports Examples
begin

unbundle bit_operations_syntax

text \<open>Properties of the file system handlers.\<close>

section \<open>Nodes\<close>

text \<open>
  The two ways to make a node agree: for a file, a directory or a symbolic link, \<^verbatim>\<open>newNodeForOneDirEntry\<close>
  on a directory entry builds the node that \<^verbatim>\<open>newNodeForEntry\<close> builds from a freshly inserted row with the
  same inode number and type.
\<close>

lemma node_constructors_agree:
  assumes "sqlTypeName m s = (Ret t, s)"
  shows "newNodeForOneDirEntry g pp pb \<lparr>Valid = True, Inode = i, ModeType = m\<rparr> n s = newNodeForEntry g pp pb (Some (fresh_row i t)) n s"
  using assms
  by (auto simp: sqlTypeName_def newNodeForOneDirEntry_def newNodeForEntry_def fresh_row_def Let_def mode_defs split: if_splits)

section \<open>Lookups\<close>

text \<open>
  C9. A lookup in a cached directory of a name that the remote directory holds and the cache does not know yet
  records a row for it and answers with the node of the right type, path and inode number; repeating the
  lookup gives the same node and touches neither the database nor the remote file system.
\<close>

theorem lookup_records_and_remembers:
  assumes "quiet (g_engine g)" "env_quiet (g_env g)" "world_ok g w" "\<not> d_direct dir" "ld_rows (d_data dir) name = None"
    and "clean_abs (d_path dir)" "valid_name name" "wview g w (path_Join (d_path dir) name) = None"
    and "wnode w (path_Join (d_belowPath dir) name) = Some nd" "kind_mode (n_kind nd) \<in> {0, ModeDir, ModeSymlink}"
    and "rowids_left (g_engine g) (Suc (length (db_rows (w_db w))))"
  shows "\<exists>w1 dir1 r node. Dir_Lookup g name (w, dir) = (Ret (Inr node), (w1, dir1)) \<and>
    newNodeForOneDirEntry g (d_path dir) (d_belowPath dir) \<lparr>Valid = True, Inode = r, ModeType = kind_mode (n_kind nd)\<rparr> name () =
      (Ret (Inr node), ()) \<and>
    map_option RowInode (wview g w1 (path_Join (d_path dir) name)) = Some r \<and>
    (\<forall>u. Dir_Lookup g name (u, dir1) = (Ret (Inr node), (u, dir1)))"
proof -
  let ?p = "path_Join (d_path dir) name" and ?m = "kind_mode (n_kind nd)"
  have p: "clean_abs ?p" using assms(6,7) by (rule path_Join_clean_abs)
  obtain t where t: "type_name ?m = Ret t" using assms(10) by (auto simp: type_name_def sqlTypeName_def mode_defs)
  obtain w1 r where w1: "Dir_Lookup g name (w, dir) =
      (fst (newNodeForEntry g (d_path dir) (d_belowPath dir) (Some (fresh_row r t)) name ()),
       (w1, remember_row name (Some (fresh_row r t)) dir))" "wview g w1 ?p = Some (fresh_row r t)"
    using Lookup_found [OF assms(1-5) p assms(8,9) t assms(11)] by blast
  obtain node where node: "newNodeForEntry g (d_path dir) (d_belowPath dir) (Some (fresh_row r t)) name () = (Ret (Inr node), ())"
    "newNodeForOneDirEntry g (d_path dir) (d_belowPath dir) \<lparr>Valid = True, Inode = r, ModeType = ?m\<rparr> name () = (Ret (Inr node), ())"
    using t assms(10) by (auto simp: newNodeForEntry_def newNodeForOneDirEntry_def fresh_row_def Let_def type_name_def sqlTypeName_def mode_defs)
  have "Dir_Lookup g name (u, remember_row name (Some (fresh_row r t)) dir) =
      (Ret (Inr node), (u, remember_row name (Some (fresh_row r t)) dir))" for u
    using assms(4) node(1) newNode_run [of g "d_path dir" "d_belowPath dir" "Some (fresh_row r t)" name "(u, remember_row name (Some (fresh_row r t)) dir)"]
    by (simp add: Dir_Lookup_def remember_row_def Let_def)
  moreover have "RowInode (fresh_row r t) = r" by (simp add: fresh_row_def)
  ultimately show ?thesis using w1 node by (metis fst_conv option.map(2))
qed

theorem lookup_records_and_remembers_witness:
  "\<exists>w1 dir1 node. Dir_Lookup ex_globals ''d'' (ex_world, ex_dir) = (Ret (Inr node), (w1, dir1)) \<and>
    (\<forall>u. Dir_Lookup ex_globals ''d'' (u, dir1) = (Ret (Inr node), (u, dir1)))"
proof -
  have "meta_view ex_engine ex_rows ''/d'' = None"
    by (simp add: meta_view_def ex_rows_def row_by_path_def new_row_def ex_engine_def)
  then have "\<exists>w1 dir1 r node. Dir_Lookup ex_globals ''d'' (ex_world, ex_dir) = (Ret (Inr node), (w1, dir1)) \<and>
    newNodeForOneDirEntry ex_globals (d_path ex_dir) (d_belowPath ex_dir)
      \<lparr>Valid = True, Inode = r, ModeType = kind_mode (n_kind (ex_node KDir))\<rparr> ''d'' () = (Ret (Inr node), ()) \<and>
    map_option RowInode (wview ex_globals w1 (path_Join (d_path ex_dir) ''d'')) = Some r \<and>
    (\<forall>u. Dir_Lookup ex_globals ''d'' (u, dir1) = (Ret (Inr node), (u, dir1)))"
    by (intro lookup_records_and_remembers [OF ex_quiet ex_world_ok])
       (simp_all add: ex_dir_def ex_paths ex_joins ex_world_sel ex_globals_sel ex_nodes ex_left valid_name_def, simp add: ex_node_def)
  then show ?thesis by blast
qed

section \<open>Attributes, link targets and listings\<close>

text \<open>
  C20. The first attribute request of a cached node reports the inode number of the node and the mode, size
  and modification time of the remote file, and records them in the row of the node's path.
\<close>

theorem attr_reports_remote:
  assumes "quiet (g_engine g)" "env_quiet (g_env g)" "world_ok g w" "wview g w p = Some row" "wnode w bp = Some nd"
  shows "\<exists>w' fi. commonAttr g (RowInode row) False bp (w, None) =
      (Ret (Inr \<lparr>a_Inode = RowInode row, a_Mode = Mode fi, a_Size = Size fi, a_Mtime = ModTime fi\<rparr>), (w', Some fi)) \<and>
    fi = node_info (path_Base bp) nd \<and> wview g w' p = Some (row\<lparr>RowFileInfo := Some (stored_info p fi)\<rparr>)"
  using commonAttr_miss [OF assms] by (auto simp: attr_of_def set_info_def)

theorem attr_reports_remote_witness:
  "\<exists>w' fi. commonAttr ex_globals 2 False ''/remote/f'' (ex_world, None) =
      (Ret (Inr \<lparr>a_Inode = 2, a_Mode = 0x1A4, a_Size = 2, a_Mtime = 1500000000000000000\<rparr>), (w', Some fi))"
proof -
  have "wview ex_globals ex_world ''/f'' = Some (fresh_row 2 ''file'')" "wnode ex_world ''/remote/f'' = Some (ex_node (KFile [104, 105]))"
    by (simp_all add: ex_globals_sel ex_world_sel ex_view ex_nodes)
  from attr_reports_remote [OF ex_quiet ex_world_ok this] show ?thesis
    by (auto simp: fresh_row_def node_info_def ex_node_def mode_defs)
qed

text \<open>
  C21. Attributes once reported for a node that is not direct are reported again, identically, in every later
  state of the kernel and the database, by a cache hit that consults neither.
\<close>

theorem attr_answered_again:
  assumes "counted u"
  shows "(\<not> d_direct d \<and> Dir_Attr g (w, d) = (Ret (Inr a), (w1, d1)) \<longrightarrow>
      Dir_Attr g (u, d1) = (Ret (Inr a), (world_hit AttrFuseOp u, d1))) \<and>
    (\<not> f_direct f \<and> File_Attr g (w, f) = (Ret (Inr a), (w1, f1)) \<longrightarrow>
      File_Attr g (u, f1) = (Ret (Inr a), (world_hit AttrFuseOp u, f1))) \<and>
    (\<not> s_direct l \<and> Symlink_Attr g (w, l) = (Ret (Inr a), (w1, l1)) \<longrightarrow>
      Symlink_Attr g (u, l1) = (Ret (Inr a), (world_hit AttrFuseOp u, l1)))"
  using da.answer_again [of d g w a w1 d1 u] fa.answer_again [of f g w a w1 f1 u] sa.answer_again [of l g w a w1 l1 u] assms
  by blast

theorem attr_answered_again_witness:
  "\<exists>a w1 f1. File_Attr ex_globals (ex_world, ex_file) = (Ret (Inr a), (w1, f1)) \<and>
     File_Attr ex_globals (ex_world, f1) = (Ret (Inr a), (world_hit AttrFuseOp ex_world, f1))"
proof -
  have pre: "wview ex_globals ex_world ''/f'' = Some (fresh_row 2 ''file'')" "wnode ex_world ''/remote/f'' = Some (ex_node (KFile [104, 105]))"
    by (simp_all add: ex_globals_sel ex_world_sel ex_view ex_nodes)
  obtain w1 fi where "commonAttr ex_globals (RowInode (fresh_row 2 ''file'')) False ''/remote/f'' (ex_world, None) =
      (Ret (Inr (attr_of (RowInode (fresh_row 2 ''file'')) fi)), (w1, Some fi))"
    using commonAttr_miss [OF ex_quiet ex_world_ok pre] by blast
  then have "File_Attr ex_globals (ex_world, ex_file) =
      (Ret (Inr (attr_of 2 fi)), (w1, ex_file\<lparr>f_data := (f_data ex_file)\<lparr>lf_fileInfo := Some fi\<rparr>\<rparr>))"
    by (simp add: File_Attr_def file_info_def zoom_def ex_file_def fresh_row_def)
  moreover have "counted ex_world" using world_ok_db [OF ex_world_ok] by simp
  moreover have "\<not> f_direct ex_file" by (simp add: ex_file_def)
  ultimately show ?thesis using attr_answered_again [of ex_world undefined ex_globals ex_world "attr_of 2 fi" w1 undefined ex_file] by blast
qed

text \<open>
  C23. The first \<^verbatim>\<open>Readlink\<close> of a cached symbolic link answers with the target of the remote link and records
  it; from then on the same target is answered in every later state, without the remote file system.
\<close>

theorem readlink_caches_target:
  assumes "quiet (g_engine g)" "env_quiet (g_env g)" "world_ok g w" "wview g w p = Some row" "RowInode row = s_inode l"
    and "wnode w (s_belowPath l) = Some nd" "n_kind nd = KLink t" "\<not> s_direct l" "ls_target (s_data l) = None"
  shows "\<exists>w1 l1. Symlink_Readlink g (w, l) = (Ret (Inr t), (w1, l1)) \<and>
    wview g w1 p = Some (row\<lparr>Target := Some (eng_text (g_engine g) t)\<rparr>) \<and>
    (\<forall>u. counted u \<longrightarrow> Symlink_Readlink g (u, l1) = (Ret (Inr t), (world_hit ReadlinkFuseOp u, l1)))"
proof -
  obtain w1 where w1: "Symlink_Readlink g (w, l) = (Ret (Inr t), (w1, set_ls_target t l))"
    "wview g w1 p = Some (row\<lparr>Target := Some (eng_text (g_engine g) t)\<rparr>)"
    using Readlink_miss [OF assms] by blast
  with rl.answer_again [OF assms(8) w1(1)] show ?thesis by blast
qed

theorem readlink_caches_target_witness:
  "\<exists>w1 l1. Symlink_Readlink ex_globals (ex_world, ex_link) = (Ret (Inr ''target''), (w1, l1)) \<and>
     Symlink_Readlink ex_globals (ex_world, l1) = (Ret (Inr ''target''), (world_hit ReadlinkFuseOp ex_world, l1))"
proof -
  have c: "counted ex_world" using world_ok_db [OF ex_world_ok] by simp
  have "\<exists>w1 l1. Symlink_Readlink ex_globals (ex_world, ex_link) = (Ret (Inr ''target''), (w1, l1)) \<and>
    wview ex_globals w1 ''/l'' = Some ((fresh_row 3 ''symlink'')\<lparr>Target := Some (eng_text (g_engine ex_globals) ''target'')\<rparr>) \<and>
    (\<forall>u. counted u \<longrightarrow> Symlink_Readlink ex_globals (u, l1) = (Ret (Inr ''target''), (world_hit ReadlinkFuseOp u, l1)))"
    by (rule readlink_caches_target [OF ex_quiet ex_world_ok, where nd = "ex_node (KLink ''target'')"])
       (simp_all add: ex_link_def ex_world_sel ex_globals_sel ex_view ex_nodes fresh_row_def ex_node_def)
  with c show ?thesis by blast
qed

text \<open>
  C7. The first \<^verbatim>\<open>ReadDirAll\<close> of a cached directory lists exactly the entries of the remote directory, each with
  its type and with the inode number of the row of its own path, in some order. From then on every listing
  of the directory has the same entries, in an order that may differ from one listing to the next, and takes
  only a cache hit, whatever has become of the remote file system and the database.
\<close>

theorem readdir_lists_remote:
  assumes "quiet (g_engine g)" "env_quiet (g_env g)" "world_ok g w" "\<not> d_direct d" "ld_dirEntries (d_data d) = None"
    and "clean_abs (d_path d)" "wview g w (d_path d) = Some row" "RowInode row = d_inode d"
    and "wnode w (d_belowPath d) = Some nd" "n_kind nd = KDir"
    and "list_all listable (children (sys_kernel (w_sys w)) (d_belowPath d))"
    and "rowids_left (g_engine g) (length (db_rows (w_db w)) + length (children (sys_kernel (w_sys w)) (d_belowPath d)))"
  shows "\<exists>ds w1 d1. Dir_ReadDirAll g (w, d) = (Ret (Inr ds), (w1, d1)) \<and>
    mset (map (\<lambda>de. (de_Name de, de_Type de)) ds) =
      mset (map (\<lambda>fi. (Name fi, dirent_type (Mode fi AND os_ModeType))) (children (sys_kernel (w_sys w)) (d_belowPath d))) \<and>
    list_all (\<lambda>de. map_option RowInode (wview g w1 (path_Join (d_path d) (de_Name de))) = Some (de_Inode de)) ds \<and>
    (\<forall>u. counted u \<longrightarrow>
      (\<exists>ds'. Dir_ReadDirAll g (u, d1) = (Ret (Inr ds'), (world_hit ReaddirFuseOp u, d1)) \<and> mset ds' = mset ds))"
proof -
  let ?fis = "children (sys_kernel (w_sys w)) (d_belowPath d)"
  obtain w1 m rank where run: "Dir_ReadDirAll g (w, d) = (Ret (Inr (map dirent_of (map_range rank m))), (w1, set_dirEntries m d))"
    and m: "list_all2 (lists_as (wview g w1) (d_path d)) ?fis m"
    using ReadDirAll_miss [OF assms] by blast
  have "mset (map (\<lambda>de. (de_Name de, de_Type de)) (map dirent_of (map_range rank m))) =
      mset (map (\<lambda>(n, t). (n, dirent_type (t AND os_ModeType))) (map (\<lambda>x. (fst x, ModeType (snd x))) m))"
    by (simp add: multiset.map_comp comp_def dirent_of_def)
  also have "\<dots> = mset (map (\<lambda>fi. (Name fi, dirent_type (Mode fi AND os_ModeType))) ?fis)"
    unfolding listing_pairs [OF m] by (simp add: comp_def and.assoc)
  finally have names: "mset (map (\<lambda>de. (de_Name de, de_Type de)) (map dirent_of (map_range rank m))) =
      mset (map (\<lambda>fi. (Name fi, dirent_type (Mode fi AND os_ModeType))) ?fis)" .
  have "list_all (\<lambda>x. map_option RowInode (wview g w1 (path_Join (d_path d) (fst x))) = Some (Inode (snd x))) m"
    using m by (induction rule: list_all2_induct) (auto simp: lists_as_def)
  then have "list_all (\<lambda>de. map_option RowInode (wview g w1 (path_Join (d_path d) (de_Name de))) = Some (de_Inode de))
      (map dirent_of (map_range rank m))"
    by (simp add: list.pred_map comp_def) (simp add: dirent_of_def)
  moreover have "\<exists>ds'. Dir_ReadDirAll g (u, set_dirEntries m d) = (Ret (Inr ds'), (world_hit ReaddirFuseOp u, set_dirEntries m d)) \<and>
      mset ds' = mset (map dirent_of (map_range rank m))" if "counted u" for u
    using rd.answer_again [OF assms(4) run that] by auto
  ultimately show ?thesis using run names by blast
qed

theorem readdir_lists_remote_witness:
  "\<exists>ds w1 d1. Dir_ReadDirAll ex_globals (ex_world, ex_dir) = (Ret (Inr ds), (w1, d1)) \<and>
    mset (map (\<lambda>de. (de_Name de, de_Type de)) ds) = {#(''f'', DT_File), (''d'', DT_Dir), (''l'', DT_Link)#}"
proof -
  have kids: "children (sys_kernel (w_sys ex_world)) (d_belowPath ex_dir) = children ex_kernel ''/remote''"
    by (simp add: ex_world_sel ex_dir_def)
  have "\<exists>ds w1 d1. Dir_ReadDirAll ex_globals (ex_world, ex_dir) = (Ret (Inr ds), (w1, d1)) \<and>
    mset (map (\<lambda>de. (de_Name de, de_Type de)) ds) =
      mset (map (\<lambda>fi. (Name fi, dirent_type (Mode fi AND os_ModeType))) (children (sys_kernel (w_sys ex_world)) (d_belowPath ex_dir))) \<and>
    list_all (\<lambda>de. map_option RowInode (wview ex_globals w1 (path_Join (d_path ex_dir) (de_Name de))) = Some (de_Inode de)) ds \<and>
    (\<forall>u. counted u \<longrightarrow>
      (\<exists>ds'. Dir_ReadDirAll ex_globals (u, d1) = (Ret (Inr ds'), (world_hit ReaddirFuseOp u, d1)) \<and> mset ds' = mset ds))"
    by (rule readdir_lists_remote [OF ex_quiet ex_world_ok, where row = "fresh_row 1 ''directory''" and nd = "ex_node KDir"])
       (unfold kids, simp_all add: ex_listable, simp_all add: ex_dir_def ex_paths ex_world_sel ex_globals_sel ex_view ex_nodes ex_left
         ex_children fresh_row_def ex_node_def)
  then obtain ds w1 d1 where run: "Dir_ReadDirAll ex_globals (ex_world, ex_dir) = (Ret (Inr ds), (w1, d1))"
    and names: "mset (map (\<lambda>de. (de_Name de, de_Type de)) ds) =
      mset (map (\<lambda>fi. (Name fi, dirent_type (Mode fi AND os_ModeType))) (children ex_kernel ''/remote''))"
    unfolding kids by blast
  have types: "map (\<lambda>fi. (Name fi, dirent_type (Mode fi AND os_ModeType))) (children ex_kernel ''/remote'') =
      [(''f'', DT_File), (''d'', DT_Dir), (''l'', DT_Link)]"
    by (simp add: ex_children node_info_def ex_node_def dirent_type_def mode_defs)
  show ?thesis using run names [unfolded types] by (intro exI [of _ ds] exI [of _ w1] exI [of _ d1]) simp
qed

section \<open>Reading files\<close>

text \<open>
  C6. From a remote file to the bytes of a read. The first open of a cached file fetches the remote file,
  records its digest in the row of the file and returns a handle from which every read request, at any
  offset and of any size, delivers exactly that part of the remote file's bytes. (If the cache held
  another content with the same MD5 digest before, it delivers that content.)
\<close>

theorem open_then_read:
  assumes "quiet (g_engine g)" "env_quiet (g_env g)" "world_ok g w" "\<not> f_direct f" "lf_contentHash (f_data f) = None"
    and "wview g w p = Some row" "RowInode row = f_inode f" "open_bytes (sys_kernel (w_sys w)) (f_belowPath f) = Inr bs"
    and "can_store (cc_root (g_content g)) (wnode w) (md5_hex bs)" "\<forall>t. wnode w (temp_name (g_env g) (cc_root (g_content g)) t) = None"
  shows "\<exists>h w1 f1 bs'. File_Open g (w, f) = (Ret (Inr h), (w1, f1)) \<and>
    lf_contentHash (f_data f1) = Some (md5_hex bs) \<and>
    wview g w1 p = Some (row\<lparr>ContentHash := Some (eng_text (g_engine g) (md5_hex bs))\<rparr>) \<and>
    (bs' = bs \<or> cached_bytes (cc_root (g_content g)) (w_sys w) (md5_hex bs) = Some bs') \<and>
    (\<forall>n off. 0 \<le> sint off \<longrightarrow> (\<exists>w2. openFile_Read g n off (w1, h) = (Ret (take n (drop (unat off) bs'), None), (w2, h))))"
proof -
  obtain h w1 bs' where open': "File_Open g (w, f) = (Ret (Inr h), (w1, set_contentHash (md5_hex bs) f))" "serves w1 h bs'"
    "bs' = bs \<or> cached_bytes (cc_root (g_content g)) (w_sys w) (md5_hex bs) = Some bs'"
    "wview g w1 p = Some (row\<lparr>ContentHash := Some (eng_text (g_engine g) (md5_hex bs))\<rparr>)"
    using Open_miss [OF assms] by blast
  have "\<exists>w2. openFile_Read g n off (w1, h) = (Ret (take n (drop (unat off) bs'), None), (w2, h))" if "0 \<le> sint off" for n off
    using Read_serves [OF open'(2) assms(2) that] by blast
  with open' show ?thesis by (intro exI [of _ h] exI [of _ w1] exI [of _ "set_contentHash (md5_hex bs) f"] exI [of _ bs']) (simp add: set_contentHash_def)
qed

theorem open_then_read_witness:
  "\<exists>h w1 f1. File_Open ex_globals (ex_world, ex_file) = (Ret (Inr h), (w1, f1)) \<and>
    (\<exists>w2. openFile_Read ex_globals 10 1 (w1, h) = (Ret ([105], None), (w2, h)))"
proof -
  have "\<exists>h w1 f1 bs'. File_Open ex_globals (ex_world, ex_file) = (Ret (Inr h), (w1, f1)) \<and>
    lf_contentHash (f_data f1) = Some (md5_hex [104, 105]) \<and>
    wview ex_globals w1 ''/f'' = Some ((fresh_row 2 ''file'')\<lparr>ContentHash := Some (eng_text (g_engine ex_globals) (md5_hex [104, 105]))\<rparr>) \<and>
    (bs' = [104, 105] \<or> cached_bytes (cc_root (g_content ex_globals)) (w_sys ex_world) (md5_hex [104, 105]) = Some bs') \<and>
    (\<forall>n off. 0 \<le> sint off \<longrightarrow> (\<exists>w2. openFile_Read ex_globals n off (w1, h) = (Ret (take n (drop (unat off) bs'), None), (w2, h))))"
    by (rule open_then_read [OF ex_quiet ex_world_ok])
       (simp_all add: ex_file_def ex_world_sel ex_globals_sel ex_view ex_storable fresh_row_def)
  moreover have "cached_bytes (cc_root (g_content ex_globals)) (w_sys ex_world) (md5_hex [104, 105]) = None"
    by (simp add: cached_bytes_def valid_key_md5 file_at_def ex_world_sel ex_globals_sel ex_no_key [OF valid_key_md5])
  ultimately obtain h w1 f1 where "File_Open ex_globals (ex_world, ex_file) = (Ret (Inr h), (w1, f1))"
    "\<forall>n off. 0 \<le> sint off \<longrightarrow> (\<exists>w2. openFile_Read ex_globals n off (w1, h) = (Ret (take n (drop (unat off) [104, 105]), None), (w2, h)))"
    by auto
  then show ?thesis by (fastforce dest: spec [of _ 10] spec [of _ 1])
qed

text \<open>
  A file whose content is cached is served from the cache alone: the open succeeds without a single
  remote operation, whatever the state of the remote file system, leaves the database as it is, and every
  read delivers the corresponding part of a content whose MD5 digest is the recorded key.
\<close>

lemma open_cached_is_local:
  assumes "env_quiet (g_env g)" "world_ok g w" "\<not> f_direct f" "lf_contentHash (f_data f) = Some key"
    and "cached_bytes (cc_root (g_content g)) (w_sys w) key = Some bs"
  shows "\<exists>h w1. File_Open g (w, f) = (Ret (Inr h), (w1, f)) \<and> w_db w1 = w_db w \<and> md5_hex bs = key \<and>
    (\<forall>op. counter_value (COsOp RemoteDomain op) (sys_stats (w_sys w1)) = counter_value (COsOp RemoteDomain op) (sys_stats (w_sys w))) \<and>
    (\<forall>n off. 0 \<le> sint off \<longrightarrow> (\<exists>w2. openFile_Read g n off (w1, h) = (Ret (take n (drop (unat off) bs), None), (w2, h))))"
proof -
  obtain h w1 where open': "File_Open g (w, f) = (Ret (Inr h), (w1, f))" "serves w1 h bs" "w_db w1 = w_db w"
    using Open_hit [OF assms(2,1,3-5)] by blast
  have "counted w" using world_ok_db [OF assms(2)] by simp
  then have "remote_ops op (w_sys w1) = remote_ops op (w_sys w)" for op
    using Open_hit_local [of w f op g] assms(3,4) open'(1) by simp
  moreover have "md5_hex bs = key" using cached_bytes_digest [OF _ _ assms(5)] world_ok_cache [OF assms(2)] by blast
  moreover have "\<exists>w2. openFile_Read g n off (w1, h) = (Ret (take n (drop (unat off) bs), None), (w2, h))" if "0 \<le> sint off" for n off
    using Read_serves [OF open'(2) assms(1) that] by blast
  ultimately show ?thesis using open' by blast
qed

text \<open>
  A handle is closed once: \<^verbatim>\<open>Release\<close> of an open handle closes its descriptor and clears the reader, and
  every further \<^verbatim>\<open>Release\<close> of it returns success without touching anything.
\<close>

lemma release_closes_once:
  assumes "counted w" "of_reader h = Some tr" "k_open (sys_kernel (w_sys w)) (f_id (tr_file tr)) \<noteq> None" "env_quiet (g_env g)"
  shows "\<exists>w1. openFile_Release g (w, h) = (Ret (Inr ()), (w1, h\<lparr>of_reader := None\<rparr>)) \<and>
    k_open (sys_kernel (w_sys w1)) = (k_open (sys_kernel (w_sys w)))(f_id (tr_file tr) := None) \<and>
    (\<forall>u. openFile_Release g (u, h\<lparr>of_reader := None\<rparr>) = (Ret (Inr ()), (u, h\<lparr>of_reader := None\<rparr>)))"
proof -
  have wf: "stats_wf (sys_stats (w_sys w))" using assms(1) by (simp add: counted_def)
  show ?thesis
    using AccountOsOp_run [OF wf, of "tr_domain tr" CloseOsOp] assms(2-4)
    by (auto simp: openFile_Release_def bnd_def try_bnd_def zoom_def in_sys_def tracedReader_Close_def in_kernel_def
        file_Close_def syscall_run env_quiet_def)
qed

section \<open>Direct nodes\<close>

text \<open>
  C22. A node whose path the user excluded from caching asks the remote file system for its attributes each
  time. If the remote file system answers, the answer is reported and recorded; if it fails, the attributes
  known from before are reported, or the error if there are none.
\<close>

theorem direct_attr_revalidates:
  assumes "quiet (g_engine g)" "world_ok g w" "wview g w p = Some row"
    and "os_Lstat (g_env g) bp (sys_kernel (w_sys w)) = (Ret r, k')"
  shows "\<exists>w'. commonAttr g (RowInode row) True bp (w, known) =
    (case r of
       Inr fi \<Rightarrow> (Ret (Inr (attr_of (RowInode row) fi)), (w', Some fi))
     | Inl err \<Rightarrow> (case known of
         Some fi \<Rightarrow> (Ret (Inr (attr_of (RowInode row) fi)), (w', known))
       | None \<Rightarrow> (Ret (Inl err), (w', known)))) \<and>
    wview g w' p = Some (case r of Inr fi \<Rightarrow> row\<lparr>RowFileInfo := Some (stored_info p fi)\<rparr> | Inl _ \<Rightarrow> row)"
proof -
  have wf: "counted w" using world_ok_db [OF assms(2)] by simp
  let ?w1 = "w\<lparr>w_sys := (w_sys w)\<lparr>sys_stats := snd (account (EvDirect AttrFuseOp) (sys_stats (w_sys w)))\<rparr>\<rparr>"
  have r1: "report (EvDirect AttrFuseOp) w = (Ret (), ?w1)" by (rule world_report_run [OF wf])
  have ok1: "world_ok g ?w1" using fsw.reports [THEN keepsD_run, OF assms(2) r1] .
  have wf1: "stats_wf (sys_stats (w_sys ?w1))" using world_ok_db [OF ok1] by (simp add: counted_def)
  let ?w2 = "?w1\<lparr>w_sys := (w_sys ?w1)\<lparr>sys_stats := snd (account (EvOsOp RemoteDomain LstatOsOp) (sys_stats (w_sys ?w1))), sys_kernel := k'\<rparr>\<rparr>"
  have r2: "in_sys (syscalls_Lstat (g_env g) RemoteDomain bp) ?w1 = (Ret r, ?w2)"
    using AccountOsOp_run [OF wf1, of RemoteDomain LstatOsOp] assms(4)
    by (simp add: in_sys_def zoom_def syscalls_Lstat_def bnd_def in_kernel_def)
  have ok2: "world_ok g ?w2" using fsw.kernel_ops(1) [THEN keepsD_run, OF ok1 r2] .
  have row: "wview g ?w2 p = Some row" using assms(3) by simp
  show ?thesis
  proof (cases r)
    case (Inl err)
    show ?thesis
      by (intro exI [of _ ?w2])
         (use r1 r2 row in \<open>simp add: Inl commonAttr_def Let_def bnd_def zoom_def fill_attr_def attr_of_def split: option.split\<close>)
  next
    case (Inr fi)
    obtain w3 where w3: "in_db (PutFileInfo (g_engine g) (RowInode row) fi) ?w2 = (Ret (Inr ()), w3)"
      "wview g w3 = store_update (RowInode row) (set_info fi) (wview g ?w2)"
      using puts_db(1) [OF assms(1) ok2 row] by blast
    then have "wview g w3 p = Some (row\<lparr>RowFileInfo := Some (stored_info p fi)\<rparr>)"
      using row by (simp add: store_update_def set_info_def)
    then show ?thesis
      by (intro exI [of _ w3])
         (use r1 r2 w3 in \<open>simp add: Inr commonAttr_def Let_def bnd_def try_bnd_def zoom_def fill_attr_def attr_of_def\<close>)
  qed
qed

theorem direct_attr_revalidates_witness:
  "\<exists>w'. commonAttr ex_globals 2 True ''/remote/gone'' (ex_world, Some (node_info ''f'' (ex_node (KFile [])))) =
     (Ret (Inr (attr_of 2 (node_info ''f'' (ex_node (KFile []))))), (w', Some (node_info ''f'' (ex_node (KFile [])))))"
proof -
  have "os_Lstat (g_env ex_globals) ''/remote/gone'' (sys_kernel (w_sys ex_world)) =
      (Ret (Inl (OsError ENOENT)), ex_kernel\<lparr>k_tick := Suc (k_tick ex_kernel)\<rparr>)"
    using ex_env_ok(2) by (simp add: os_Lstat_def syscall_run ex_world_sel ex_globals_sel env_quiet_def)
      (simp add: node_at_def ex_kernel_def)
  moreover have "wview ex_globals ex_world ''/f'' = Some (fresh_row 2 ''file'')" by (simp add: ex_globals_sel ex_world_sel ex_view)
  ultimately show ?thesis
    using direct_attr_revalidates [OF ex_quiet(1) ex_world_ok, of "''/f''" "fresh_row 2 ''file''" "''/remote/gone''" _ _
        "Some (node_info ''f'' (ex_node (KFile [])))"]
    by (auto simp: fresh_row_def)
qed

section \<open>The root of the mounted file system\<close>

text \<open>
  C24. \<^verbatim>\<open>Loop\<close> serves a directory node for the root of the remote tree, with the inode number of the row of the
  root path; the row is created on the first mount and reused with everything recorded in it on later ones.
  \<^verbatim>\<open>Loop\<close> returns what serving returns, and an error of mounting is returned before anything is touched.
\<close>

theorem Loop_serves_root:
  assumes "quiet (g_engine g)" "world_ok g w" "g_match g ''/''" "rowids_left (g_engine g) (Suc (length (db_rows (w_db w))))"
    and "\<forall>row. wview g w ''/'' = Some row \<longrightarrow> TypeName row = ''directory''" "fl_mount_error fl = None" "\<not> fl_caught_signal fl"
  shows "case fl_mount fl of
      Inl err \<Rightarrow> Loop fl remotedir g w = (Ret (Inl err), w)
    | Inr _ \<Rightarrow> \<exists>w1 row. wview g w1 ''/'' = Some row \<and>
        (wview g w ''/'' = Some row \<or> wview g w ''/'' = None \<and> row = fresh_row (RowInode row) ''directory'') \<and>
        Loop fl remotedir g w = fl_serve fl \<lparr>rootNode = DirNode \<lparr>d_path = ''/'', d_belowPath = path_Join remotedir ''/'',
          d_inode = RowInode row, d_direct = False, d_data = \<lparr>ld_fileInfo = RowFileInfo row, ld_didReadDir = False,
            ld_dirEntries = DirEntries row, ld_rows = Map.empty\<rparr>\<rparr>\<rparr> w1"
proof (cases "fl_mount fl")
  case (Inl err)
  then show ?thesis by (simp add: Loop_def try_bnd_def)
next
  case (Inr u)
  with Loop_root [OF assms, of u remotedir] show ?thesis by simp
qed

theorem Loop_serves_root_witness:
  "\<exists>w1. Loop \<lparr>fl_mount = Inr (), fl_serve = (\<lambda>fs w. (Ret (Inr ()), w)), fl_mount_error = None, fl_caught_signal = False\<rparr>
     ''/remote'' ex_globals ex_world = (Ret (Inr ()), w1)"
proof -
  have "rowids_left (g_engine ex_globals) (Suc (length (db_rows (w_db ex_world))))"
    by (simp add: ex_globals_sel ex_world_sel ex_left)
  moreover have "\<forall>row. wview ex_globals ex_world ''/'' = Some row \<longrightarrow> TypeName row = ''directory''"
    by (simp add: ex_globals_sel ex_world_sel ex_view fresh_row_def)
  ultimately show ?thesis
    using Loop_serves_root [OF ex_quiet(1) ex_world_ok ex_globals_sel(4), where remotedir = "''/remote''" and
      fl = "\<lparr>fl_mount = Inr (), fl_serve = (\<lambda>fs w. (Ret (Inr ()), w)), fl_mount_error = None, fl_caught_signal = False\<rparr>"]
    by auto
qed

end
