(* ===== verification/Mount.thy ===== *)
theory Mount
  imports Fs_Reads
begin

text \<open>
  The mounted file system as a state machine. Its state is the world, the nodes the kernel knows and the
  handles it holds open; a step is a request that the FUSE library delivers to a handler, a change of the
  remote file system by somebody else, or the statistics being cleared. A request may end in any way: the
  step records what it did to the world, to the node and to the tables. A step is a whole request, so a run
  of this machine is one in which no two requests overlap in time.
\<close>

section \<open>State and steps\<close>

record mount =
  m_world :: world
  m_nodes :: "nat \<rightharpoonup> fs_node"
  m_handles :: "nat \<rightharpoonup> openFile"
  m_next :: nat

definition mounted :: "fs_node \<Rightarrow> world \<Rightarrow> mount" where
  "mounted root w = \<lparr>m_world = w, m_nodes = [0 \<mapsto> root], m_handles = Map.empty, m_next = 1\<rparr>"

definition set_node :: "nat \<Rightarrow> fs_node \<Rightarrow> world \<Rightarrow> mount \<Rightarrow> mount" where
  "set_node i n w m = m\<lparr>m_world := w, m_nodes := (m_nodes m)(i \<mapsto> n)\<rparr>"

fun add_found :: "fs_node result outcome \<Rightarrow> mount \<Rightarrow> mount" where
  "add_found (Ret (Inr n)) m = m\<lparr>m_nodes := (m_nodes m)(m_next m \<mapsto> n), m_next := Suc (m_next m)\<rparr>"
| "add_found _ m = m"

fun add_handle :: "openFile result outcome \<Rightarrow> mount \<Rightarrow> mount" where
  "add_handle (Ret (Inr h)) m = m\<lparr>m_handles := (m_handles m)(m_next m \<mapsto> h), m_next := Suc (m_next m)\<rparr>"
| "add_handle _ m = m"

text \<open>The contents the cache holds, by their keys.\<close>

definition held_keys :: "globalState \<Rightarrow> world \<Rightarrow> Key set" where
  "held_keys g w = {key. cached_bytes (cc_root (g_content g)) (w_sys w) key \<noteq> None}"

text \<open>
  Somebody else may change the tree as long as it stays a tree, no name holds the separator byte, and the
  cache directory is left alone: what it holds is filed under its digest and nothing is removed.
\<close>

definition remote_change :: "globalState \<Rightarrow> world \<Rightarrow> world \<Rightarrow> bool" where
  "remote_change g w w' \<longleftrightarrow> w_db w' = w_db w \<and> sys_stats (w_sys w') = sys_stats (w_sys w) \<and>
     kernel_ok (cc_root (g_content g)) (sys_kernel (w_sys w')) \<and> held_keys g w \<subseteq> held_keys g w'"

inductive fuse_step :: "globalState \<Rightarrow> mount \<Rightarrow> mount \<Rightarrow> bool" for g where
  dir_attr: "m_nodes m i = Some (DirNode d) \<Longrightarrow> Dir_Attr g (m_world m, d) = (r, (w, d')) \<Longrightarrow>
    fuse_step g m (set_node i (DirNode d') w m)"
| file_attr: "m_nodes m i = Some (FileNode f) \<Longrightarrow> File_Attr g (m_world m, f) = (r, (w, f')) \<Longrightarrow>
    fuse_step g m (set_node i (FileNode f') w m)"
| symlink_attr: "m_nodes m i = Some (SymlinkNode l) \<Longrightarrow> Symlink_Attr g (m_world m, l) = (r, (w, l')) \<Longrightarrow>
    fuse_step g m (set_node i (SymlinkNode l') w m)"
| lookup: "m_nodes m i = Some (DirNode d) \<Longrightarrow> valid_name name \<Longrightarrow> Dir_Lookup g name (m_world m, d) = (rn, (w, d')) \<Longrightarrow>
    fuse_step g m (add_found rn (set_node i (DirNode d') w m))"
| readdir: "m_nodes m i = Some (DirNode d) \<Longrightarrow> Dir_ReadDirAll g (m_world m, d) = (rd, (w, d')) \<Longrightarrow>
    fuse_step g m (set_node i (DirNode d') w m)"
| readlink: "m_nodes m i = Some (SymlinkNode l) \<Longrightarrow> Symlink_Readlink g (m_world m, l) = (rl, (w, l')) \<Longrightarrow>
    fuse_step g m (set_node i (SymlinkNode l') w m)"
| open_file: "m_nodes m i = Some (FileNode f) \<Longrightarrow> File_Open g (m_world m, f) = (rh, (w, f')) \<Longrightarrow>
    fuse_step g m (add_handle rh (set_node i (FileNode f') w m))"
| read: "m_handles m i = Some h \<Longrightarrow> openFile_Read g n off (m_world m, h) = (rb, (w, h')) \<Longrightarrow>
    fuse_step g m (m\<lparr>m_world := w, m_handles := (m_handles m)(i \<mapsto> h')\<rparr>)"
| release: "m_handles m i = Some h \<Longrightarrow> openFile_Release g (m_world m, h) = (ru, (w, h')) \<Longrightarrow>
    fuse_step g m (m\<lparr>m_world := w, m_handles := (m_handles m)(i := None)\<rparr>)"
| forget: "fuse_step g m (m\<lparr>m_nodes := (m_nodes m)(i := None)\<rparr>)"
| remote: "remote_change g (m_world m) w \<Longrightarrow> fuse_step g m (m\<lparr>m_world := w\<rparr>)"
| clear: "in_sys (in_stats Clear) (m_world m) = (rc, w) \<Longrightarrow> fuse_step g m (m\<lparr>m_world := w\<rparr>)"

abbreviation fuse_run :: "globalState \<Rightarrow> mount \<Rightarrow> mount \<Rightarrow> bool" where
  "fuse_run g \<equiv> (fuse_step g)\<^sup>*\<^sup>*"

section \<open>Invariants\<close>

text \<open>
  What the database returns for the digests of the contents in the cache. The text of a digest comes back as
  it was stored unless it reads as a number: the column has the type \<^verbatim>\<open>STRING\<close>.
\<close>

definition key_texts :: "globalState \<Rightarrow> world \<Rightarrow> string set" where
  "key_texts g w = eng_text (g_engine g) ` held_keys g w"

text \<open>
  The world is well-formed, and every hash in a row is what the database returns for the digest of a content
  that the cache holds.
\<close>

definition good :: "globalState \<Rightarrow> world \<Rightarrow> bool" where
  "good g w \<longleftrightarrow> world_ok g w \<and> hashes_in (key_texts g w) (db_rows (w_db w))"

definition grows :: "globalState \<Rightarrow> world \<Rightarrow> world \<Rightarrow> bool" where
  "grows g w w' \<longleftrightarrow> rows_kept (db_rows (w_db w)) (db_rows (w_db w')) \<and> held_keys g w \<subseteq> held_keys g w'"

definition hash_held :: "globalState \<Rightarrow> world \<Rightarrow> Key option \<Rightarrow> bool" where
  "hash_held g w h = (case h of None \<Rightarrow> True | Some key \<Rightarrow> key \<in> held_keys g w \<union> key_texts g w)"

definition has_inode :: "globalState \<Rightarrow> world \<Rightarrow> string \<Rightarrow> u64 \<Rightarrow> bool" where
  "has_inode g w path inode \<longleftrightarrow> clean_abs path \<and> map_option RowInode (wview g w path) = Some inode"

definition row_good :: "globalState \<Rightarrow> world \<Rightarrow> string \<Rightarrow> CachedRow option \<Rightarrow> bool" where
  "row_good g w path row = (case row of None \<Rightarrow> True
     | Some row \<Rightarrow> has_inode g w path (RowInode row) \<and> hash_held g w (ContentHash row))"

definition dir_good :: "globalState \<Rightarrow> world \<Rightarrow> Dir \<Rightarrow> bool" where
  "dir_good g w d \<longleftrightarrow> has_inode g w (d_path d) (d_inode d) \<and>
     (\<forall>name row. valid_name name \<longrightarrow> ld_rows (d_data d) name = Some row \<longrightarrow> row_good g w (path_Join (d_path d) name) row)"

definition file_good :: "globalState \<Rightarrow> world \<Rightarrow> File \<Rightarrow> bool" where
  "file_good g w f \<longleftrightarrow> has_inode g w (f_path f) (f_inode f) \<and> hash_held g w (lf_contentHash (f_data f))"

definition symlink_good :: "globalState \<Rightarrow> world \<Rightarrow> Symlink \<Rightarrow> bool" where
  "symlink_good g w l \<longleftrightarrow> has_inode g w (s_path l) (s_inode l)"

fun node_good :: "globalState \<Rightarrow> world \<Rightarrow> fs_node \<Rightarrow> bool" where
  "node_good g w (DirNode d) = dir_good g w d"
| "node_good g w (FileNode f) = file_good g w f"
| "node_good g w (SymlinkNode l) = symlink_good g w l"

definition mount_good :: "globalState \<Rightarrow> mount \<Rightarrow> bool" where
  "mount_good g m \<longleftrightarrow> good g (m_world m) \<and> (\<forall>i n. m_nodes m i = Some n \<longrightarrow> node_good g (m_world m) n)"

end
