(* ===== verification/Mount_Laws.thy ===== *)
theory Mount_Laws
  imports Mount
begin

unbundle bit_operations_syntax

text \<open>
  The invariant of the mounted file system: every step keeps the world good, never loses a row or a cached
  content, and keeps every node consistent with the database and the cache.
\<close>

section \<open>Partial correctness with results\<close>

text \<open>
  From a state with \<open>P\<close> the program returns with \<open>Q\<close> of its result and the state, or ends otherwise with \<open>E\<close>.
\<close>

definition ensures :: "('s \<Rightarrow> bool) \<Rightarrow> ('s, 'a) prog \<Rightarrow> ('a \<Rightarrow> 's \<Rightarrow> bool) \<Rightarrow> ('s \<Rightarrow> bool) \<Rightarrow> bool" where
  "ensures P m Q E \<longleftrightarrow> (\<forall>s. P s \<longrightarrow> (case m s of (Ret x, t) \<Rightarrow> Q x t | (_, t) \<Rightarrow> E t))"

named_theorems ensures_rules \<open>syntax-directed rules for partial correctness\<close>

lemma ensuresD:
  "ensures P m Q E \<Longrightarrow> P s \<Longrightarrow> m s = (Ret x, t) \<Longrightarrow> Q x t"
  "ensures P m Q E \<Longrightarrow> P s \<Longrightarrow> (\<And>x t. Q x t \<Longrightarrow> E t) \<Longrightarrow> E (snd (m s))"
proof -
  show "ensures P m Q E \<Longrightarrow> P s \<Longrightarrow> m s = (Ret x, t) \<Longrightarrow> Q x t" by (force simp: ensures_def)
  assume "ensures P m Q E" "P s" "\<And>x t. Q x t \<Longrightarrow> E t"
  then show "E (snd (m s))" by (cases "m s"; cases "fst (m s)") (force simp: ensures_def)+
qed

lemma ensures_conseq:
  "ensures P m Q E \<Longrightarrow> (\<And>s. P' s \<Longrightarrow> P s) \<Longrightarrow> (\<And>x t. Q x t \<Longrightarrow> Q' x t) \<Longrightarrow> (\<And>t. E t \<Longrightarrow> E' t) \<Longrightarrow> ensures P' m Q' E'"
  by (fastforce simp: ensures_def split: prod.splits outcome.splits)

lemma ensures_ret [ensures_rules]: "(\<And>s. P s \<Longrightarrow> Q x s) \<Longrightarrow> ensures P (ret x) Q E"
  by (simp add: ensures_def)

lemma ensures_gets: "(\<And>s. P s \<Longrightarrow> Q (f s) s) \<Longrightarrow> ensures P (gets f) Q E"
  by (simp add: ensures_def)

lemma ensures_modify: "(\<And>s. P s \<Longrightarrow> Q () (f s)) \<Longrightarrow> ensures P (modify f) Q E"
  by (simp add: ensures_def)

lemma ensures_bnd: "ensures P m Q E \<Longrightarrow> (\<And>x. ensures (Q x) (f x) R E) \<Longrightarrow> ensures P (bnd m f) R E"
  by (fastforce simp: ensures_def bnd_def split: prod.splits outcome.splits)

lemma ensures_try_bnd:
  assumes "ensures P m Q E" "\<And>x. ensures (Q (Inr x)) (f x) R E" "\<And>err s. Q (Inl err) s \<Longrightarrow> R (Inl err) s"
  shows "ensures P (try_bnd m f) R E"
  unfolding try_bnd_def
proof (rule ensures_bnd [OF assms(1)])
  show "ensures (Q r) (case r of Inl err \<Rightarrow> ret (Inl err) | Inr x \<Rightarrow> f x) R E" for r
    using assms(2,3) by (cases r) (auto intro: ensures_rules)
qed

lemma ensures_keeps: "keeps I m \<Longrightarrow> ensures I m (\<lambda>_. I) I"
  by (auto simp: ensures_def keeps_def split: prod.splits outcome.splits)

lemma ensures_if: "(b \<Longrightarrow> ensures P m Q E) \<Longrightarrow> (\<not> b \<Longrightarrow> ensures P n Q E) \<Longrightarrow> ensures P (if b then m else n) Q E"
  by simp

section \<open>What the steps keep of the world\<close>

lemma held_tree:
  "tree (sys_kernel (w_sys w')) = tree (sys_kernel (w_sys w)) \<Longrightarrow> held_keys g w' = held_keys g w"
  using node_at_tree [of "sys_kernel (w_sys w')" "sys_kernel (w_sys w)"] by (simp add: held_keys_def cached_bytes_def file_at_def)

lemma tree_calls:
  "keeps (\<lambda>s. tree (sys_kernel s) = c) (in_stats m)"
  "keeps (\<lambda>s. tree (sys_kernel s) = c) (syscalls_Lstat env d p)" "keeps (\<lambda>s. tree (sys_kernel s) = c) (syscalls_Readlink env d p)"
  "keeps (\<lambda>s. tree (sys_kernel s) = c) (syscalls_Open env d p)" "keeps (\<lambda>s. tree (sys_kernel s) = c) (tracedReader_Close env f)"
  "keeps (\<lambda>s. tree (sys_kernel s) = c) (tracedReader_Readdir env f)" "keeps (\<lambda>s. tree (sys_kernel s) = c) (tracedReader_ReadAt env f n off)"
  unfolding syscalls_Lstat_def syscalls_Readlink_def syscalls_Open_def tracedReader_Close_def
    tracedReader_Readdir_def tracedReader_ReadAt_def Let_def
  by (intro keeps_rules keeps_in_stats(2) keeps_in_kernel(1) keeps_tree)+

lemma tree_locate: "keeps (\<lambda>s. tree (sys_kernel s) = c) (GetFileForContents env cache key)"
  unfolding GetFileForContents_def HasKey_def pathForKey_def bucketForKey_def by (intro keeps_rules tree_calls)

text \<open>
  Hashes in the table and contents in the cache, relative to an earlier world.
\<close>

definition hashes_good :: "globalState \<Rightarrow> world \<Rightarrow> world \<Rightarrow> bool" where
  "hashes_good g w0 w \<longleftrightarrow> world_ok g w \<and> hashes_in (key_texts g w) (db_rows (w_db w)) \<and> held_keys g w0 \<subseteq> held_keys g w"

lemma key_texts_mono: "held_keys g w \<subseteq> held_keys g w' \<Longrightarrow> key_texts g w \<subseteq> key_texts g w'"
  by (auto simp: key_texts_def)

lemma keeps_hashes_db:
  assumes "\<And>H. keeps (\<lambda>d. hashes_in H (db_rows d)) m" "keeps (world_ok g) (in_db m)"
  shows "keeps (hashes_good g w0) (in_db m)"
proof (rule keepsI)
  fix w
  assume w: "hashes_good g w0 w"
  have "w_sys (snd (in_db m w)) = w_sys w" by (simp add: in_db_def zoom_def split: prod.split)
  then have "held_keys g (snd (in_db m w)) = held_keys g w" "key_texts g (snd (in_db m w)) = key_texts g w"
    by (simp_all add: held_keys_def key_texts_def)
  moreover have "db_rows (w_db (snd (in_db m w))) = db_rows (snd (m (w_db w)))" by (simp add: in_db_def zoom_def split: prod.split)
  then have "hashes_in (key_texts g w) (db_rows (w_db (snd (in_db m w))))"
    using keepsD [OF assms(1), of "key_texts g w" "w_db w"] w by (simp add: hashes_good_def)
  ultimately show "hashes_good g w0 (snd (in_db m w))" using w keepsD [OF assms(2), of w] by (simp add: hashes_good_def)
qed

lemma keeps_hashes_sys:
  assumes "\<And>c. keeps (\<lambda>s. tree (sys_kernel s) = c) m" "keeps (world_ok g) (in_sys m)"
  shows "keeps (hashes_good g w0) (in_sys m)"
proof (rule keepsI)
  fix w
  assume w: "hashes_good g w0 w"
  have "w_sys (snd (in_sys m w)) = snd (m (w_sys w))" "w_db (snd (in_sys m w)) = w_db w"
    by (simp_all add: in_sys_def zoom_def split: prod.split)
  moreover have "tree (sys_kernel (snd (m (w_sys w)))) = tree (sys_kernel (w_sys w))" by (rule keeps_frame [OF assms(1)])
  ultimately have "held_keys g (snd (in_sys m w)) = held_keys g w" by (intro held_tree) simp
  then show "hashes_good g w0 (snd (in_sys m w))"
    using w keepsD [OF assms(2), of w] \<open>w_db (snd (in_sys m w)) = w_db w\<close> by (simp add: hashes_good_def key_texts_def)
qed

text \<open>Storing a content adds to what the cache holds.\<close>

lemma PutContents_held:
  assumes "world_ok g w" "in_sys (PutContents (g_env g) (g_content g) p) w = (r, w')"
  shows "held_keys g w \<subseteq> held_keys g w'" "w_db w' = w_db w" "r = Ret (Inr key) \<Longrightarrow> key \<in> held_keys g w'"
proof -
  let ?root = "cc_root (g_content g)"
  have "clean_abs ?root \<and> env_ok (g_env g) \<and> cache_ok ?root (w_sys w)" using world_ok_cache [OF assms(1)] by blast
  from cs.put_returns [OF this, of p, unfolded cc_root_New]
  obtain x s' where "PutContents (g_env g) (g_content g) p (w_sys w) = (Ret x, s')"
    "\<forall>key. x = Inr key \<longrightarrow> cached_bytes ?root s' key \<noteq> None"
    "\<forall>key. cached_bytes ?root (w_sys w) key \<noteq> None \<longrightarrow> cached_bytes ?root s' key \<noteq> None" by blast
  with assms(2) show "held_keys g w \<subseteq> held_keys g w'" "w_db w' = w_db w" "r = Ret (Inr key) \<Longrightarrow> key \<in> held_keys g w'"
    by (auto simp: in_sys_def zoom_def held_keys_def)
qed

lemma held_valid: "key \<in> held_keys g w \<Longrightarrow> valid_key key"
  by (simp add: held_keys_def cached_bytes_def split: if_splits)

lemma PutContentHash_hashes:
  assumes "hashes_good g w0 w" "key \<in> held_keys g w"
  shows "hashes_good g w0 (snd (in_db (PutContentHash (g_engine g) i key) w))"
proof -
  have "keeps (\<lambda>d. hashes_in (key_texts g w) (db_rows d)) (PutContentHash (g_engine g) i key)"
    by (intro keeps_hashes_PutContentHash) (simp add: key_texts_def assms(2))
  then have "hashes_in (key_texts g w) (db_rows (snd (PutContentHash (g_engine g) i key (w_db w))))"
    using keepsD assms(1) by (fastforce simp: hashes_good_def)
  moreover have "world_ok g (snd (in_db (PutContentHash (g_engine g) i key) w))"
    using assms(1) keepsD [OF keeps_world_db [OF ok.keeps_PutContentHash]] by (simp add: hashes_good_def)
  ultimately show ?thesis using assms(1)
    by (auto simp: hashes_good_def in_db_def zoom_def held_keys_def key_texts_def split: prod.splits)
qed

interpretation fsh: fs_invariant g "hashes_good g w0" for g w0
proof unfold_locales
  show "keeps (hashes_good g w0) (report ev)" for ev
    unfolding report_def by (rule keeps_hashes_sys [OF tree_calls(1) fsw.reports [unfolded report_def]])
  show put: "keeps (hashes_good g w0) (in_sys (PutContents (g_env g) (g_content g) p))" for p
  proof (rule keepsI)
    fix w
    assume w: "hashes_good g w0 w"
    obtain r w' where run: "in_sys (PutContents (g_env g) (g_content g) p) w = (r, w')" by fastforce
    have ok: "world_ok g w" using w by (simp add: hashes_good_def)
    show "hashes_good g w0 (snd (in_sys (PutContents (g_env g) (g_content g) p) w))"
      using w PutContents_held(1,2) [OF ok run] keepsD_run [OF fsw.content_ops(1) ok run] hashes_in_mono key_texts_mono
      by (auto simp: hashes_good_def run)
  qed
  show "hashes_good g w0 (snd (in_db (PutContentHash (g_engine g) i key) w'))"
    if w: "hashes_good g w0 w" and run: "in_sys (PutContents (g_env g) (g_content g) p) w = (Ret (Inr key), w')" for w p key w' i
    using PutContentHash_hashes [OF keepsD_run [OF put w run]] PutContents_held(3) [OF _ run] w by (simp add: hashes_good_def)
  show rd: "keeps (hashes_good g w0) (in_sys (tracedReader_Readdir (g_env g) f))" for f
    by (intro keeps_hashes_sys tree_calls fsw.kernel_ops)
  show "hashes_good g w0 (snd (in_db (PutDirEntries (g_engine g) i p fis) w'))"
    if w: "hashes_good g w0 w" and run: "in_sys (tracedReader_Readdir (g_env g) f) w = (Ret (fis, None), w')" for w f fis w' i p
  proof -
    have "world_ok g w" using w by (simp add: hashes_good_def)
    note names = world_listed [OF this run]
    show ?thesis
      by (rule keepsD [OF keeps_hashes_db [OF hashed.keeps_PutDirEntries keeps_world_listing [OF names]] keepsD_run [OF rd w run]]) (use names in simp)
  qed
qed (intro keeps_hashes_sys keeps_hashes_db tree_calls tree_locate fsw.world_ops hashed.keeps_GetFullEntry hashed.keeps_GetDirEntries
  hashed.keeps_PutNewWithType hashed.keeps_PutNewNoEntry hashed.keeps_PutNewOrUpdateWithType
  hashed.keeps_PutNewOrUpdateNoEntry hashed.keeps_PutFileInfo hashed.keeps_PutSymlinkTarget)+

section \<open>Nodes stay good\<close>

lemma good_hashes: "good g w \<longleftrightarrow> hashes_good g w w"
  by (simp add: good_def hashes_good_def)

lemma grows_refl: "grows g w w"
  by (simp add: grows_def rows_kept_refl)

lemma has_inode_mono:
  assumes "good g w" "good g w'" "grows g w w'" "has_inode g w p i"
  shows "has_inode g w' p i"
proof -
  have wf: "table_wf (db_rows (w_db w))" "table_wf (db_rows (w_db w'))"
    using assms(1,2) world_ok_db by (auto simp: good_def table_ok_def)
  obtain row where row: "wview g w p = Some row" "RowInode row = i" "clean_abs p" using assms(4) by (auto simp: has_inode_def)
  obtain row' where "wview g w' p = Some row'" "RowInode row' = RowInode row"
    by (rule rows_kept_view [OF wf _ row(1)]) (use assms(3) in \<open>simp add: grows_def\<close>)
  with row show ?thesis by (simp add: has_inode_def)
qed

lemma hash_held_mono: "grows g w w' \<Longrightarrow> hash_held g w h \<Longrightarrow> hash_held g w' h"
  using key_texts_mono [of g w w'] by (cases h) (auto simp: grows_def hash_held_def)

lemma row_good_mono: "good g w \<Longrightarrow> good g w' \<Longrightarrow> grows g w w' \<Longrightarrow> row_good g w p row \<Longrightarrow> row_good g w' p row"
  using has_inode_mono hash_held_mono by (auto simp: row_good_def split: option.splits)

lemma dir_good_mono: "good g w \<Longrightarrow> good g w' \<Longrightarrow> grows g w w' \<Longrightarrow> dir_good g w d \<Longrightarrow> dir_good g w' d"
  using has_inode_mono row_good_mono unfolding dir_good_def by blast

lemma file_good_mono: "good g w \<Longrightarrow> good g w' \<Longrightarrow> grows g w w' \<Longrightarrow> file_good g w f \<Longrightarrow> file_good g w' f"
  using has_inode_mono hash_held_mono unfolding file_good_def by blast

lemma symlink_good_mono: "good g w \<Longrightarrow> good g w' \<Longrightarrow> grows g w w' \<Longrightarrow> symlink_good g w l \<Longrightarrow> symlink_good g w' l"
  using has_inode_mono unfolding symlink_good_def by blast

lemma node_good_mono: "good g w \<Longrightarrow> good g w' \<Longrightarrow> grows g w w' \<Longrightarrow> node_good g w n \<Longrightarrow> node_good g w' n"
  by (cases n) (simp_all add: dir_good_mono file_good_mono symlink_good_mono)

text \<open>An operation, on the world alone or with a node, that keeps the world good and loses nothing.\<close>

definition safe :: "globalState \<Rightarrow> (world, 'a) prog \<Rightarrow> bool" where
  "safe g m \<longleftrightarrow> (\<forall>w0. keeps (hashes_good g w0) m) \<and> (\<forall>old. keeps (\<lambda>w. rows_kept old (db_rows (w_db w))) m)"

lemma safe_run: "safe g m \<Longrightarrow> good g w \<Longrightarrow> m w = (r, w') \<Longrightarrow> good g w' \<and> grows g w w'"
  unfolding safe_def good_hashes grows_def
  by (metis (no_types, lifting) hashes_good_def keepsD_run order_refl rows_kept_refl)

lemma safe_ops:
  "safe g (report ev)" "safe g (in_db (GetFullEntry (g_engine g) p))"
  "safe g (in_db (PutNewWithType (g_engine g) p md))" "safe g (in_db (PutNewNoEntry (g_engine g) p))"
  "safe g (in_db (PutNewOrUpdateWithType (g_engine g) p md))" "safe g (in_db (PutNewOrUpdateNoEntry (g_engine g) p))"
  "safe g (in_sys (syscalls_Lstat (g_env g) d p))" "safe g (in_sys (syscalls_Open (g_env g) d p))"
  "safe g (in_sys (PutContents (g_env g) (g_content g) p))" "safe g (in_sys (GetFileForContents (g_env g) (g_content g) key))"
  unfolding safe_def by (intro conjI allI fsh.world_ops fsk.world_ops)+

text \<open>A row that is read is that of its path, and the cache holds the content it refers to.\<close>

lemma view_good:
  assumes "good g w" "clean_abs p"
  shows "row_good g w p (wview g w p)"
proof (cases "wview g w p")
  case (Some row)
  then obtain r prow where pr: "row_by_path (g_engine g) p (db_rows (w_db w)) = Some (r, prow)" "row = view_row p (r, prow)"
    by (auto simp: meta_view_def)
  then have "(r, prow) \<in> set (db_rows (w_db w))" by (auto simp: row_by_path_def dest: find_SomeD)
  then have "c_contentHash prow \<in> insert None (Some ` key_texts g w)"
    using assms(1) by (auto simp: good_def hashes_in_def list_all_iff)
  then have "hash_held g w (ContentHash row)" by (auto simp: pr(2) view_row_def hash_held_def)
  with Some assms(2) show ?thesis by (simp add: row_good_def has_inode_def)
qed (simp add: row_good_def)

lemma GetFullEntry_good:
  assumes "good g w" "clean_abs p" "in_db (GetFullEntry (g_engine g) p) w = (r, w')"
  shows "good g w' \<and> grows g w w' \<and> (\<forall>row. r = Ret (Inr row) \<longrightarrow> row_good g w' p row)"
proof -
  have tok: "table_ok (db_rows (w_db w))" using assms(1) world_ok_db by (auto simp: good_def)
  note w' = safe_run [OF safe_ops(2) assms(1,3)]
  have "row_good g w' p row" if x: "r = Ret (Inr row)" for row
  proof -
    obtain d' where d': "GetFullEntry (g_engine g) p (w_db w) = (Ret (Inr row), d')" "w' = w\<lparr>w_db := d'\<rparr>"
      using assms(3) unfolding x by (auto simp: in_db_def zoom_def split: prod.splits)
    have "row = wview g w' p"
      by (rule GetFullEntry_cases [OF tok, of "g_engine g" p]) (use d' in simp_all)
    with view_good [OF _ assms(2)] w' show ?thesis by blast
  qed
  with w' show ?thesis by blast
qed

lemma newNode_good:
  assumes "fst (newNodeForEntry g pp pb row name ()) = Ret (Inr n)" "row_good g w (path_Join pp name) row"
  shows "node_good g w n"
  using assms
  by (auto simp: newNodeForEntry_def Let_def row_good_def dir_good_def file_good_def symlink_good_def split: option.splits if_splits)

section \<open>Lookups\<close>

text \<open>While \<^verbatim>\<open>Lookup\<close> runs, the directory is as it was at the start.\<close>

definition in_dir :: "globalState \<Rightarrow> Dir \<Rightarrow> (world \<Rightarrow> bool) \<Rightarrow> world \<times> Dir \<Rightarrow> bool" where
  "in_dir g dir R = (\<lambda>(w, d). d = dir \<and> good g w \<and> dir_good g w dir \<and> R w)"

definition dir_done :: "globalState \<Rightarrow> world \<times> Dir \<Rightarrow> bool" where
  "dir_done g = (\<lambda>(w, d). good g w \<and> dir_good g w d)"

lemma in_dir_done: "in_dir g dir R s \<Longrightarrow> dir_done g s"
  by (auto simp: in_dir_def dir_done_def)

lemma in_dir_op:
  assumes "safe g m"
  shows "ensures (in_dir g dir (\<lambda>_. True)) (outer m) (\<lambda>_. in_dir g dir (\<lambda>_. True)) (dir_done g)"
proof -
  have "in_dir g dir (\<lambda>_. True) (w', d)" if "in_dir g dir (\<lambda>_. True) (w, d)" "m w = (r, w')" for w w' d r
    using that safe_run [OF assms _ that(2)] dir_good_mono by (auto simp: in_dir_def)
  then show ?thesis
    by (auto simp: ensures_def zoom_def split: prod.split outcome.split) (blast intro: in_dir_done)+
qed

lemma in_dir_GetFullEntry:
  assumes "clean_abs p"
  shows "ensures (in_dir g dir (\<lambda>_. True)) (outer (in_db (GetFullEntry (g_engine g) p)))
    (\<lambda>r. in_dir g dir (\<lambda>w. case r of Inl _ \<Rightarrow> True | Inr row \<Rightarrow> row_good g w p row)) (dir_done g)"
proof -
  let ?m = "in_db (GetFullEntry (g_engine g) p)"
  have "in_dir g dir (\<lambda>w. case x of Inl _ \<Rightarrow> True | Inr row \<Rightarrow> row_good g w p row) (w', d)"
    if pre: "in_dir g dir (\<lambda>_. True) (w, d)" and run: "?m w = (Ret x, w')" for w w' d x
    using GetFullEntry_good [OF _ assms run] pre dir_good_mono by (auto simp: in_dir_def split: sum.split)
  moreover have "dir_done g (w', d)" if "in_dir g dir (\<lambda>_. True) (w, d)" "?m w = (r, w')" for w w' d r
    using that safe_run [OF safe_ops(2) _ that(2)] dir_good_mono by (auto simp: in_dir_def dir_done_def)
  ultimately show ?thesis by (auto simp: ensures_def zoom_def split: prod.split outcome.split)
qed

definition lookup_post :: "globalState \<Rightarrow> fs_node result \<Rightarrow> world \<times> Dir \<Rightarrow> bool" where
  "lookup_post g r = (\<lambda>(w, d). good g w \<and> dir_good g w d \<and> (\<forall>n. r = Inr n \<longrightarrow> node_good g w n))"

lemma lookup_error: "in_dir g dir R s \<Longrightarrow> lookup_post g (Inl err) s"
  by (auto simp: in_dir_def lookup_post_def)

lemma Lookup_finish_good:
  assumes "valid_name name"
  shows "ensures (in_dir g dir (\<lambda>w. row_good g w (path_Join (d_path dir) name) row)) (Lookup_finish g dir name row)
    (lookup_post g) (dir_done g)"
proof -
  have "dir_good g w (remember_row name row dir)"
    if "dir_good g w dir" "row_good g w (path_Join (d_path dir) name) row" for w
    using that by (auto simp: dir_good_def remember_row_def)
  then show ?thesis
    unfolding ensures_def Lookup_finish_def
    by (auto simp: in_dir_def lookup_post_def dir_done_def newNode_run [where s = "(w, d)" for w d] intro: newNode_good
        split: prod.splits outcome.splits)
qed

lemma Lookup_reload_good:
  assumes "valid_name name" "clean_abs (d_path dir)"
  shows "ensures (in_dir g dir (\<lambda>_. True)) (Lookup_reload g dir name) (lookup_post g) (dir_done g)"
  unfolding Lookup_reload_def
  by (rule ensures_try_bnd [OF in_dir_GetFullEntry [OF path_Join_clean_abs [OF assms(2,1)]]])
     (simp_all add: Lookup_finish_good [OF assms(1)] lookup_error)

lemma Lookup_miss_good:
  assumes "valid_name name" "clean_abs (d_path dir)"
  shows "ensures (in_dir g dir (\<lambda>_. True)) (Lookup_miss g dir name) (lookup_post g) (dir_done g)"
  unfolding Lookup_miss_def Let_def
proof (rule ensures_bnd [OF in_dir_op [OF safe_ops(1)]], rule ensures_bnd [OF in_dir_op [OF safe_ops(7)]])
  fix r :: "FileInfo result"
  show "ensures (in_dir g dir (\<lambda>_. True)) (case r of
      Inl err \<Rightarrow> if \<not> IsNotExist err then ret (Inl err)
        else try_bnd (outer (in_db (PutNewNoEntry (g_engine g) (path_Join (d_path dir) name)))) (\<lambda>_. ret (Inl FuseENOENT))
    | Inr fileInfo \<Rightarrow>
        try_bnd (outer (in_db (PutNewWithType (g_engine g) (path_Join (d_path dir) name) (Mode fileInfo AND os_ModeType)))) (\<lambda>_.
          Lookup_reload g dir name)) (lookup_post g) (dir_done g)"
  proof (cases r)
    case (Inl err)
    show ?thesis
      unfolding Inl sum.case
      by (intro ensures_if ensures_ret ensures_try_bnd [OF in_dir_op [OF safe_ops(4)]]) (erule lookup_error)+
  next
    case (Inr fi)
    show ?thesis
      unfolding Inr sum.case
      by (rule ensures_try_bnd [OF in_dir_op [OF safe_ops(3)] Lookup_reload_good [OF assms]]) (erule lookup_error)
  qed
qed

lemma Lookup_direct_good:
  assumes "valid_name name" "clean_abs (d_path dir)"
  shows "ensures (in_dir g dir (\<lambda>_. True)) (Lookup_direct g dir name cached) (lookup_post g) (dir_done g)"
  unfolding Lookup_direct_def Let_def
proof (rule ensures_bnd [OF in_dir_op [OF safe_ops(1)]], rule ensures_bnd [OF in_dir_op [OF safe_ops(7)]])
  fix r :: "FileInfo result"
  show "ensures (in_dir g dir (\<lambda>_. True)) (case r of
      Inl err \<Rightarrow> if cached then Lookup_reload g dir name
        else if IsNotExist err then
          try_bnd (outer (in_db (PutNewOrUpdateNoEntry (g_engine g) (path_Join (d_path dir) name)))) (\<lambda>_. ret (Inl FuseENOENT))
        else ret (Inl err)
    | Inr fileInfo \<Rightarrow>
        try_bnd (outer (in_db (PutNewOrUpdateWithType (g_engine g) (path_Join (d_path dir) name) (Mode fileInfo AND os_ModeType)))) (\<lambda>_.
          Lookup_reload g dir name)) (lookup_post g) (dir_done g)"
  proof (cases r)
    case (Inl err)
    show ?thesis
      unfolding Inl sum.case
      by (intro ensures_if ensures_ret Lookup_reload_good assms ensures_try_bnd [OF in_dir_op [OF safe_ops(6)]]) (erule lookup_error)+
  next
    case (Inr fi)
    show ?thesis
      unfolding Inr sum.case
      by (rule ensures_try_bnd [OF in_dir_op [OF safe_ops(5)] Lookup_reload_good [OF assms]]) (erule lookup_error)
  qed
qed

lemma in_dir_report_row:
  "ensures (in_dir g dir (\<lambda>w. row_good g w p row)) (outer (report ev)) (\<lambda>_. in_dir g dir (\<lambda>w. row_good g w p row)) (dir_done g)"
proof -
  have "in_dir g dir (\<lambda>w. row_good g w p row) (w', d)" if "in_dir g dir (\<lambda>w. row_good g w p row) (w, d)" "report ev w = (r, w')" for w w' d r
    using that safe_run [OF safe_ops(1) _ that(2)] dir_good_mono row_good_mono by (auto simp: in_dir_def)
  then show ?thesis
    by (auto simp: ensures_def zoom_def split: prod.split outcome.split) (blast intro: in_dir_done)+
qed

lemma Lookup_slow_good:
  assumes "valid_name name" "clean_abs (d_path dir)"
  shows "ensures (in_dir g dir (\<lambda>_. True))
    (try_bnd (outer (in_db (GetFullEntry (g_engine g) (path_Join (d_path dir) name)))) (\<lambda>cachedRow.
       if d_direct dir then Lookup_direct g dir name (cachedRow \<noteq> None)
       else if cachedRow = None then Lookup_miss g dir name
       else bnd (outer (report (EvCacheHit LookupFuseOp))) (\<lambda>_. Lookup_finish g dir name cachedRow)))
    (lookup_post g) (dir_done g)"
proof (rule ensures_try_bnd [OF in_dir_GetFullEntry [OF path_Join_clean_abs [OF assms(2,1)]]])
  fix row
  let ?P = "in_dir g dir (\<lambda>w. row_good g w (path_Join (d_path dir) name) row)"
  have weaken: "ensures ?P m Q E" if "ensures (in_dir g dir (\<lambda>_. True)) m Q E" for m Q E
    by (rule ensures_conseq [OF that]) (auto simp: in_dir_def)
  show "ensures (in_dir g dir (\<lambda>w. case Inr row of Inl _ \<Rightarrow> True | Inr r \<Rightarrow> row_good g w (path_Join (d_path dir) name) r))
      (if d_direct dir then Lookup_direct g dir name (row \<noteq> None)
       else if row = None then Lookup_miss g dir name
       else bnd (outer (report (EvCacheHit LookupFuseOp))) (\<lambda>_. Lookup_finish g dir name row)) (lookup_post g) (dir_done g)"
    unfolding sum.case
    by (intro ensures_if weaken Lookup_direct_good Lookup_miss_good assms ensures_bnd [OF in_dir_report_row Lookup_finish_good])
qed (simp add: lookup_error)

lemma Lookup_good:
  assumes "good g w" "dir_good g w d" "valid_name name" "Dir_Lookup g name (w, d) = (r, (w', d'))"
  shows "good g w' \<and> dir_good g w' d' \<and> (\<forall>n. r = Ret (Inr n) \<longrightarrow> node_good g w' n)"
proof -
  have clean: "clean_abs (d_path d)" using assms(2) by (simp add: dir_good_def has_inode_def)
  have pre: "in_dir g d (\<lambda>_. True) (w, d)" using assms(1,2) by (simp add: in_dir_def)
  show ?thesis
  proof (cases "\<not> d_direct d \<and> ld_rows (d_data d) name \<noteq> None")
    case True
    then obtain row where row: "ld_rows (d_data d) name = Some row" by blast
    have rg: "row_good g w (path_Join (d_path d) name) row" using assms(2,3) row by (simp add: dir_good_def)
    have "Dir_Lookup g name (w, d) = (fst (newNodeForEntry g (d_path d) (d_belowPath d) row name ()), (w, d))"
      using True row newNode_run [of g "d_path d" "d_belowPath d" row name "(w, d)"] by (simp add: Dir_Lookup_def Let_def)
    with assms newNode_good [OF _ rg] show ?thesis by auto
  next
    case False
    note slow = Lookup_slow_good [OF assms(3) clean, of g]
    let ?m = "try_bnd (outer (in_db (GetFullEntry (g_engine g) (path_Join (d_path d) name)))) (\<lambda>cachedRow.
       if d_direct d then Lookup_direct g d name (cachedRow \<noteq> None)
       else if cachedRow = None then Lookup_miss g d name
       else bnd (outer (report (EvCacheHit LookupFuseOp))) (\<lambda>_. Lookup_finish g d name cachedRow))"
    have "Dir_Lookup g name (w, d) = ?m (w, d)"
      unfolding Dir_Lookup_def bnd_run_simps(2) snd_conv Let_def using False by (auto split: option.split)
    then have run: "?m (w, d) = (r, (w', d'))" using assms(4) by (simp only:)
    have "dir_done g (w', d')"
      using ensuresD(2) [OF slow pre] run by (auto simp: lookup_post_def dir_done_def)
    moreover have "lookup_post g (Inr n) (w', d')" if "r = Ret (Inr n)" for n
      using ensuresD(1) [OF slow pre] run that by blast
    ultimately show ?thesis by (auto simp: dir_done_def lookup_post_def)
  qed
qed

section \<open>Opens\<close>

definition file_done :: "globalState \<Rightarrow> world \<times> File \<Rightarrow> bool" where
  "file_done g = (\<lambda>(w, f). good g w \<and> file_good g w f)"

lemma keeps_file_op:
  assumes "safe g m"
  shows "keeps (file_done g) (outer m)"
proof (rule keepsI)
  fix s
  assume s: "file_done g s"
  obtain w f where "s = (w, f)" by (cases s)
  with s safe_run [OF assms, of w "fst (m w)" "snd (m w)"] file_good_mono [of g w "snd (m w)" f]
  show "file_done g (snd (outer m s))" by (cases "m w") (simp add: file_done_def zoom_def)
qed

lemma open_cached_good: "keeps (file_done g) (open_cached g)"
  unfolding open_cached_def by (intro keeps_rules keeps_file_op safe_ops)

lemma PutContentHash_good:
  assumes "good g w" "key \<in> held_keys g w" "in_db (PutContentHash (g_engine g) i key) w = (r, w')"
  shows "good g w' \<and> grows g w w'"
proof -
  have "hashes_good g w w'" using PutContentHash_hashes [of g w w key i] assms by (simp add: good_hashes)
  moreover have "rows_kept (db_rows (w_db w)) (db_rows (w_db w'))"
    using keepsD_run [OF keeps_rows_db [OF kept.keeps_PutContentHash] rows_kept_refl assms(3)] .
  ultimately show ?thesis by (auto simp: good_def grows_def hashes_good_def)
qed

lemma store_fetched_good:
  assumes "good g w" "file_good g w f" "key \<in> held_keys g w"
  shows "file_done g (snd (store_fetched g file key (w, f)))"
proof -
  obtain r w1 where run: "in_db (PutContentHash (g_engine g) (f_inode file) key) w = (r, w1)" by fastforce
  note w1 = PutContentHash_good [OF assms(1,3) run]
  have f: "file_good g w1 f" using file_good_mono [OF assms(1) _ _ assms(2)] w1 by blast
  moreover have "key \<in> held_keys g w1" using w1 assms(3) by (auto simp: grows_def)
  ultimately have "file_done g (w1, set_contentHash key f)"
    using w1 by (simp add: file_done_def file_good_def set_contentHash_def hash_held_def)
  then have "file_done g (snd (open_cached g (w1, set_contentHash key f)))" by (rule keepsD [OF open_cached_good])
  with f w1 run show ?thesis
    by (auto simp: store_fetched_def try_bnd_def bnd_def zoom_def file_done_def split: outcome.split sum.split)
qed

lemma fetch_good:
  assumes "\<And>err. keeps (file_done g) (k err)"
  shows "keeps (file_done g) (bnd (outer (in_sys (PutContents (g_env g) (g_content g) p))) (\<lambda>r. case r of
    Inl err \<Rightarrow> k err | Inr key \<Rightarrow> store_fetched g file key))"
proof (rule keepsI)
  fix s
  assume s: "file_done g s"
  obtain w f where wf: "s = (w, f)" by (cases s)
  obtain x w1 where run: "in_sys (PutContents (g_env g) (g_content g) p) w = (x, w1)" by fastforce
  have w: "good g w" "file_good g w f" using s wf by (simp_all add: file_done_def)
  then have w1: "good g w1" "file_good g w1 f"
    using safe_run [OF safe_ops(9) _ run] file_good_mono by blast+
  then have "file_done g (w1, f)" by (simp add: file_done_def)
  moreover have "file_done g (snd (store_fetched g file key (w1, f)))" if "x = Ret (Inr key)" for key
    using store_fetched_good [OF w1] PutContents_held(3) [OF _ run that] w(1) by (simp add: good_def)
  ultimately show "file_done g (snd (bnd (outer (in_sys (PutContents (g_env g) (g_content g) p))) (\<lambda>r. case r of
    Inl err \<Rightarrow> k err | Inr key \<Rightarrow> store_fetched g file key) s))"
    using keepsD [OF assms] by (auto simp: wf bnd_def zoom_def run split: outcome.splits sum.splits)
qed

lemma Open_good: "keeps (file_done g) (File_Open g)"
  unfolding File_Open_def Let_def try_bnd_def
  by (intro keeps_rules fetch_good open_cached_good keeps_file_op safe_ops)

section \<open>The other handlers\<close>

lemma keeps_outer_local: "keeps (\<lambda>(w, n). P n) (outer m)"
  by (auto simp: keeps_def zoom_def split: prod.split)

lemma dir_frames:
  "keeps (\<lambda>(w, d). (d_path d, d_inode d, ld_rows (d_data d)) = c) (Dir_Attr g)"
  "keeps (\<lambda>(w, d). (d_path d, d_inode d, ld_rows (d_data d)) = c) (Dir_ReadDirAll g)"
proof -
  show "keeps (\<lambda>(w, d). (d_path d, d_inode d, ld_rows (d_data d)) = c) (Dir_Attr g)"
    by (auto simp: keeps_def Dir_Attr_def dir_info_def zoom_def split: prod.splits)
  show "keeps (\<lambda>(w, d). (d_path d, d_inode d, ld_rows (d_data d)) = c) (Dir_ReadDirAll g)"
    unfolding Dir_ReadDirAll_def fetch_dirEntries_def reload_dirEntries_def list_dirents_def Let_def
    by (intro keeps_rules fsw.keeps_make_dirents keeps_outer_local keeps_modify) (auto simp: set_dirEntries_def)
qed

lemma file_frame: "keeps (\<lambda>(w, f). (f_path f, f_inode f, lf_contentHash (f_data f)) = c) (File_Attr g)"
  by (auto simp: keeps_def File_Attr_def file_info_def zoom_def split: prod.splits)

lemma symlink_frames:
  "keeps (\<lambda>(w, l). (s_path l, s_inode l) = c) (Symlink_Attr g)" "keeps (\<lambda>(w, l). (s_path l, s_inode l) = c) (Symlink_Readlink g)"
proof -
  show "keeps (\<lambda>(w, l). (s_path l, s_inode l) = c) (Symlink_Attr g)"
    by (auto simp: keeps_def Symlink_Attr_def symlink_info_def zoom_def split: prod.splits)
  show "keeps (\<lambda>(w, l). (s_path l, s_inode l) = c) (Symlink_Readlink g)"
    unfolding Symlink_Readlink_def store_target_def return_target_def Let_def
    by (intro keeps_rules keeps_outer_local keeps_modify) (auto simp: set_ls_target_def)
qed

text \<open>Every handler keeps the world good and loses nothing.\<close>

lemma handler_run:
  assumes "\<And>w0. keeps (\<lambda>(w, n). hashes_good g w0 w) h" "\<And>old. keeps (\<lambda>(w, n). rows_kept old (db_rows (w_db w))) h"
    and "good g w" "h (w, n) = (r, (w', n'))"
  shows "good g w' \<and> grows g w w'"
proof -
  have "hashes_good g w w'" using keepsD_run [OF assms(1) _ assms(4)] assms(3) by (simp add: good_hashes)
  moreover have "rows_kept (db_rows (w_db w)) (db_rows (w_db w'))"
    using keepsD_run [OF assms(2) _ assms(4)] rows_kept_refl by simp
  ultimately show ?thesis by (auto simp: good_def grows_def hashes_good_def)
qed

lemmas handlers_run = handler_run [OF fsh.keeps_Attr(1) fsk.keeps_Attr(1)] handler_run [OF fsh.keeps_Attr(2) fsk.keeps_Attr(2)]
  handler_run [OF fsh.keeps_Attr(3) fsk.keeps_Attr(3)] handler_run [OF fsh.keeps_Lookup fsk.keeps_Lookup]
  handler_run [OF fsh.keeps_ReadDirAll fsk.keeps_ReadDirAll] handler_run [OF fsh.keeps_Readlink fsk.keeps_Readlink]
  handler_run [OF fsh.keeps_Open fsk.keeps_Open] handler_run [OF fsh.keeps_openFile(1) fsk.keeps_openFile(1)]
  handler_run [OF fsh.keeps_openFile(2) fsk.keeps_openFile(2)]

section \<open>The invariant of the state machine\<close>

lemma set_node_good:
  assumes "mount_good g m" "good g w" "grows g (m_world m) w" "node_good g w n"
  shows "mount_good g (set_node i n w m)"
  using assms node_good_mono by (auto simp: mount_good_def set_node_def split: if_splits)

lemma set_world_good:
  assumes "mount_good g m" "good g w" "grows g (m_world m) w"
  shows "mount_good g (m\<lparr>m_world := w\<rparr>)" "mount_good g (m\<lparr>m_world := w, m_handles := hs\<rparr>)"
  using assms node_good_mono by (auto simp: mount_good_def)

lemma add_found_good:
  "mount_good g m \<Longrightarrow> (\<And>n. r = Ret (Inr n) \<Longrightarrow> node_good g (m_world m) n) \<Longrightarrow> mount_good g (add_found r m)"
  by (cases "(r, m)" rule: add_found.cases) (auto simp: mount_good_def)

lemma add_handle_good: "mount_good g m \<Longrightarrow> mount_good g (add_handle r m)"
  by (cases "(r, m)" rule: add_handle.cases) (auto simp: mount_good_def)

lemma remote_good:
  assumes "good g w" "remote_change g w w'"
  shows "good g w' \<and> grows g w w'"
  using assms hashes_in_mono key_texts_mono rows_kept_refl
  by (auto simp: good_def remote_change_def grows_def world_ok_def sys_ok_def)

lemma clear_good:
  assumes "good g w" "in_sys (in_stats Clear) w = (r, w')"
  shows "good g w' \<and> grows g w w'"
proof -
  have "stats_wf (sys_stats (w_sys w))" using assms(1) world_ok_db by (auto simp: good_def counted_def)
  then have w': "w' = w\<lparr>w_sys := (w_sys w)\<lparr>sys_stats := NewStats\<rparr>\<rparr>"
    using assms(2) Clear_run by (simp add: in_sys_def in_stats_def zoom_def)
  then have "held_keys g w' = held_keys g w" by (intro held_tree) simp
  moreover from this have "key_texts g w' = key_texts g w" by (simp add: key_texts_def)
  ultimately show ?thesis using assms(1) w'
    by (auto simp: good_def grows_def world_ok_def sys_ok_def stats_wf_New rows_kept_refl)
qed

lemma mount_node: "mount_good g m \<Longrightarrow> m_nodes m i = Some n \<Longrightarrow> good g (m_world m) \<and> node_good g (m_world m) n"
  by (simp add: mount_good_def)

text \<open>A handler that leaves the identity of its node alone.\<close>

lemma dir_step:
  assumes "mount_good g m" "m_nodes m i = Some (DirNode d)" "good g w \<and> grows g (m_world m) w"
    and "d_path d' = d_path d" "d_inode d' = d_inode d" "ld_rows (d_data d') = ld_rows (d_data d)"
  shows "mount_good g (set_node i (DirNode d') w m)"
proof (rule set_node_good [OF assms(1)])
  have "dir_good g w d" using mount_node [OF assms(1,2)] dir_good_mono assms(3) by auto
  with assms(4-6) show "node_good g w (DirNode d')" by (simp add: dir_good_def)
qed (use assms(3) in auto)

lemma symlink_step:
  assumes "mount_good g m" "m_nodes m i = Some (SymlinkNode l)" "good g w \<and> grows g (m_world m) w"
    and "s_path l' = s_path l" "s_inode l' = s_inode l"
  shows "mount_good g (set_node i (SymlinkNode l') w m)"
proof (rule set_node_good [OF assms(1)])
  have "symlink_good g w l" using mount_node [OF assms(1,2)] symlink_good_mono assms(3) by auto
  with assms(4-5) show "node_good g w (SymlinkNode l')" by (simp add: symlink_good_def)
qed (use assms(3) in auto)

lemma file_step:
  assumes "mount_good g m" "m_nodes m i = Some (FileNode f)" "good g w \<and> grows g (m_world m) w"
    and "f_path f' = f_path f" "f_inode f' = f_inode f" "lf_contentHash (f_data f') = lf_contentHash (f_data f)"
  shows "mount_good g (set_node i (FileNode f') w m)"
proof (rule set_node_good [OF assms(1)])
  have "file_good g w f" using mount_node [OF assms(1,2)] file_good_mono assms(3) by auto
  with assms(4-6) show "node_good g w (FileNode f')" by (simp add: file_good_def)
qed (use assms(3) in auto)

text \<open>The two requests that learn something about a node.\<close>

lemma lookup_step:
  assumes "mount_good g m" "m_nodes m i = Some (DirNode d)" "valid_name name" "Dir_Lookup g name (m_world m, d) = (rn, (w, d'))"
  shows "mount_good g (add_found rn (set_node i (DirNode d') w m))"
proof -
  note n = mount_node [OF assms(1,2)]
  then have "dir_good g (m_world m) d" by simp
  note post = Lookup_good [OF conjunct1 [OF n] this assms(3,4)]
  have "mount_good g (set_node i (DirNode d') w m)"
    by (rule set_node_good [OF assms(1)]) (use post handlers_run(4) [OF conjunct1 [OF n] assms(4)] in auto)
  then show ?thesis by (rule add_found_good) (use post in \<open>simp add: set_node_def\<close>)
qed

lemma open_step:
  assumes "mount_good g m" "m_nodes m i = Some (FileNode f)" "File_Open g (m_world m, f) = (rh, (w, f'))"
  shows "mount_good g (add_handle rh (set_node i (FileNode f') w m))"
proof -
  note n = mount_node [OF assms(1,2)]
  then have "file_done g (w, f')" using keepsD_run [OF Open_good _ assms(3)] by (simp add: file_done_def)
  then have "mount_good g (set_node i (FileNode f') w m)"
    using handlers_run(7) [OF conjunct1 [OF n] assms(3)] by (intro set_node_good [OF assms(1)]) (auto simp: file_done_def)
  then show ?thesis by (rule add_handle_good)
qed

lemma fuse_step_good:
  assumes "fuse_step g m m'" and m: "mount_good g m"
  shows "mount_good g m'"
proof -
  have w: "good g (m_world m)" using m by (simp add: mount_good_def)
  from assms(1) show ?thesis
  proof cases
    case (dir_attr i d r w d')
    from keepsD_run [OF dir_frames(1) _ dir_attr(3)] show ?thesis
      unfolding dir_attr(1) by (intro dir_step [OF m dir_attr(2) handlers_run(1) [OF w dir_attr(3)]]) auto
  next
    case (file_attr i f r w f')
    from keepsD_run [OF file_frame _ file_attr(3)] show ?thesis
      unfolding file_attr(1) by (intro file_step [OF m file_attr(2) handlers_run(2) [OF w file_attr(3)]]) auto
  next
    case (symlink_attr i l r w l')
    from keepsD_run [OF symlink_frames(1) _ symlink_attr(3)] show ?thesis
      unfolding symlink_attr(1) by (intro symlink_step [OF m symlink_attr(2) handlers_run(3) [OF w symlink_attr(3)]]) auto
  next
    case (lookup i d name rn w d')
    from lookup_step [OF m lookup(2-4)] show ?thesis unfolding lookup(1) .
  next
    case (readdir i d rd w d')
    from keepsD_run [OF dir_frames(2) _ readdir(3)] show ?thesis
      unfolding readdir(1) by (intro dir_step [OF m readdir(2) handlers_run(5) [OF w readdir(3)]]) auto
  next
    case (readlink i l rl w l')
    from keepsD_run [OF symlink_frames(2) _ readlink(3)] show ?thesis
      unfolding readlink(1) by (intro symlink_step [OF m readlink(2) handlers_run(6) [OF w readlink(3)]]) auto
  next
    case (open_file i f rh w f')
    from open_step [OF m open_file(2,3)] show ?thesis unfolding open_file(1) .
  next
    case (read i h n off rb w' h')
    from handlers_run(8) [OF w read(3)] show ?thesis unfolding read(1) by (intro set_world_good [OF m]) auto
  next
    case (release i h ru w' h')
    from handlers_run(9) [OF w release(3)] show ?thesis unfolding release(1) by (intro set_world_good [OF m]) auto
  next
    case (forget i)
    then show ?thesis using m by (auto simp: mount_good_def split: if_splits)
  next
    case (remote w')
    from remote_good [OF w remote(2)] show ?thesis unfolding remote(1) by (intro set_world_good [OF m]) auto
  next
    case (clear rc w')
    from clear_good [OF w clear(2)] show ?thesis unfolding clear(1) by (intro set_world_good [OF m]) auto
  qed
qed

lemma fuse_run_good: "fuse_run g m m' \<Longrightarrow> mount_good g m \<Longrightarrow> mount_good g m'"
  by (induction rule: rtranclp_induct) (simp_all add: fuse_step_good)

lemma add_result_world [simp]: "m_world (add_found r m) = m_world m" "m_world (add_handle rh m) = m_world m"
  by (cases "(r, m)" rule: add_found.cases; simp) (cases "(rh, m)" rule: add_handle.cases; simp)

lemma fuse_step_grows:
  assumes "fuse_step g m m'" "good g (m_world m)"
  shows "grows g (m_world m) (m_world m')"
  using assms(1)
  by cases (auto simp: set_node_def grows_refl dest: handlers_run [OF assms(2)] remote_good [OF assms(2)] clear_good [OF assms(2)])

lemma grows_trans: "grows g u v \<Longrightarrow> grows g v w \<Longrightarrow> grows g u w"
  unfolding grows_def rows_kept_iff by (metis order_trans)

lemma fuse_run_grows:
  assumes "fuse_run g m m'" "mount_good g m"
  shows "grows g (m_world m) (m_world m')"
  using assms(1)
proof (induction rule: rtranclp_induct)
  case (step m1 m2)
  have "good g (m_world m1)" using fuse_run_good [OF step(1) assms(2)] by (simp add: mount_good_def)
  with step show ?case using fuse_step_grows grows_trans by blast
qed (rule grows_refl)

lemma mounted_good: "good g w \<Longrightarrow> node_good g w root \<Longrightarrow> mount_good g (mounted root w)"
  by (simp add: mount_good_def mounted_def)

section \<open>The start of the serving loop\<close>

definition since :: "globalState \<Rightarrow> world \<Rightarrow> world \<Rightarrow> bool" where
  "since g w0 w \<longleftrightarrow> good g w \<and> grows g w0 w"

lemma since_start: "good g w \<Longrightarrow> since g w w"
  by (simp add: since_def grows_refl)

lemma safe_since: "safe g m \<Longrightarrow> keeps (since g w0) m"
proof (rule keepsI)
  show "since g w0 (snd (m w))" if "safe g m" "since g w0 w" for w
    using that safe_run [OF that(1), of w "fst (m w)" "snd (m w)"] grows_trans by (auto simp: since_def)
qed

lemma putAndGetRow_since:
  assumes "clean_abs p"
  shows "ensures (since g w0) (putAndGetRow g p m) (\<lambda>r w. since g w0 w \<and> (\<forall>row. r = Inr row \<longrightarrow> row_good g w p row)) (since g w0)"
proof -
  let ?get = "in_db (GetFullEntry (g_engine g) p)"
  note keep = safe_ops(2,3,5) [THEN safe_since]
  have get: "ensures (since g w0) ?get (\<lambda>r w. since g w0 w \<and> (\<forall>row. r = Inr row \<longrightarrow> row_good g w p row)) (since g w0)"
    unfolding ensures_def since_def
    using GetFullEntry_good [OF _ assms] grows_trans by (auto split: prod.splits outcome.splits)
  show ?thesis
    unfolding putAndGetRow_def Let_def
    by (intro ensures_try_bnd [OF ensures_keeps [OF keep(1)]] ensures_try_bnd [OF ensures_keeps] get) (auto intro!: keeps_rules keep)
qed

lemma newNode_ensures:
  "ensures (\<lambda>w. I w \<and> row_good g w (path_Join pp name) row) (newNodeForEntry g pp pb row name)
    (\<lambda>r w. I w \<and> (\<forall>n. r = Inr n \<longrightarrow> node_good g w n)) I"
proof -
  have "case newNodeForEntry g pp pb row name w of (Ret r, v) \<Rightarrow> I v \<and> (\<forall>n. r = Inr n \<longrightarrow> node_good g v n) | (_, v) \<Rightarrow> I v"
    if "I w \<and> row_good g w (path_Join pp name) row" for w
    using that newNode_good [of g pp pb row name] unfolding newNode_run [of g pp pb row name w]
    by (auto split: outcome.splits)
  then show ?thesis by (fastforce simp: ensures_def split: prod.splits outcome.splits)
qed

end
