(* ===== verification/Mount_Missing.thy ===== *)
theory Mount_Missing
  imports Mount_Laws
begin

text \<open>
  Names that were found missing. The row that records it keeps its type for ever, because only a lookup
  in a direct directory changes the type of a row and every node of a path is direct or none is; and
  whatever a directory node remembers about the name is that row.
\<close>

section \<open>What is kept\<close>

text \<open>The path of a node, whether it is direct, and what it remembers about names.\<close>

fun node_path :: "fs_node \<Rightarrow> string" where
  "node_path (DirNode d) = d_path d"
| "node_path (FileNode f) = f_path f"
| "node_path (SymlinkNode l) = s_path l"

fun node_direct :: "fs_node \<Rightarrow> bool" where
  "node_direct (DirNode d) = d_direct d"
| "node_direct (FileNode f) = f_direct f"
| "node_direct (SymlinkNode l) = s_direct l"

fun node_rows :: "fs_node \<Rightarrow> string \<rightharpoonup> CachedRow option" where
  "node_rows (DirNode d) = ld_rows (d_data d)"
| "node_rows _ = Map.empty"

text \<open>A node is direct exactly if its path does not match the pattern.\<close>

definition as_matched :: "globalState \<Rightarrow> fs_node \<Rightarrow> bool" where
  "as_matched g n \<longleftrightarrow> node_direct n = (\<not> g_match g (node_path n))"

definition no_entry :: "CachedRow option \<Rightarrow> bool" where
  "no_entry row \<longleftrightarrow> (\<exists>r. row = Some r \<and> TypeName r = ''noentry'')"

text \<open>The nodes of the directory remember nothing about the name or that it is missing.\<close>

definition missing_node :: "globalState \<Rightarrow> string \<Rightarrow> string \<Rightarrow> fs_node \<Rightarrow> bool" where
  "missing_node g path name n \<longleftrightarrow> as_matched g n \<and>
     (node_path n = path \<longrightarrow> (\<forall>row. node_rows n name = Some row \<longrightarrow> no_entry row))"

text \<open>A numbered row of the table that says that the path is missing.\<close>

definition missing_row :: "globalState \<Rightarrow> string \<Rightarrow> string \<Rightarrow> u64 \<times> path_row \<Rightarrow> bool" where
  "missing_row g path name x \<longleftrightarrow> clean_abs path \<and> valid_name name \<and> g_match g path \<and>
     c_path (snd x) = eng_text (g_engine g) (path_Join path name) \<and> c_type (snd x) = ''noentry''"

definition stays_missing :: "globalState \<Rightarrow> string \<Rightarrow> string \<Rightarrow> u64 \<times> path_row \<Rightarrow> mount \<Rightarrow> bool" where
  "stays_missing g path name x m \<longleftrightarrow> missing_row g path name x \<and> mount_good g m \<and> types_kept [x] (db_rows (w_db (m_world m))) \<and>
     (\<forall>i n. m_nodes m i = Some n \<longrightarrow> missing_node g path name n)"

lemma stays_missingD:
  assumes "stays_missing g path name x m"
  shows "missing_row g path name x" "good g (m_world m)" "types_kept [x] (db_rows (w_db (m_world m)))"
    "m_nodes m i = Some n \<Longrightarrow> missing_node g path name n" "mount_good g m"
  using assms by (auto simp: stays_missing_def mount_good_def)

lemma missing_view:
  assumes "missing_row g path name x" "good g w" "types_kept [x] (db_rows (w_db w))"
  shows "no_entry (wview g w (path_Join path name))"
proof -
  have wf: "table_wf (db_rows (w_db w))" using assms(2) world_ok_db by (auto simp: good_def table_ok_def)
  obtain row where "map_of (db_rows (w_db w)) (fst x) = Some row" "c_path row = eng_text (g_engine g) (path_Join path name)" "c_type row = ''noentry''"
    using assms(1,3) by (cases x) (auto simp: types_kept_iff missing_row_def split: if_splits)
  then have "row_by_path (g_engine g) (path_Join path name) (db_rows (w_db w)) = Some (fst x, row)" "c_type row = ''noentry''"
    using row_by_path_iff [OF wf] by auto
  then show ?thesis by (simp add: no_entry_def meta_view_def view_row_def)
qed

section \<open>Lookups\<close>

text \<open>A lookup changes only what its directory remembers about the name.\<close>

lemma Lookup_frame:
  "keeps (\<lambda>(w, d). (d_path d, d_direct d, (ld_rows (d_data d))(name := None)) = c) (Dir_Lookup g name)"
  unfolding Dir_Lookup_def Lookup_direct_def Lookup_miss_def Lookup_reload_def Lookup_finish_def Let_def
  by (intro keeps_rules fsw.keeps_newNodeForEntry keeps_outer_local keeps_modify) (auto simp: remember_row_def)

text \<open>The nodes that lookups return are new.\<close>

definition pristine :: "globalState \<Rightarrow> fs_node \<Rightarrow> bool" where
  "pristine g n \<longleftrightarrow> as_matched g n \<and> node_rows n = Map.empty"

lemma newNode_new: "fst (newNodeForEntry g pp pb row name s) = Ret (Inr n) \<Longrightarrow> pristine g n"
  by (auto simp: newNodeForEntry_def Let_def pristine_def as_matched_def split: option.splits if_splits)

definition found_new :: "globalState \<Rightarrow> (world \<times> Dir, fs_node result) prog \<Rightarrow> bool" where
  "found_new g m \<longleftrightarrow> ensures (\<lambda>_. True) m (\<lambda>r _. \<forall>n. r = Inr n \<longrightarrow> pristine g n) (\<lambda>_. True)"

lemma found_pristine: "found_new g (newNodeForEntry g pp pb row name)"
proof -
  have "pristine g n" if "newNodeForEntry g pp pb row name s = (Ret (Inr n), t)" for n and s t :: "world \<times> Dir"
    using newNode_new [of g pp pb row name s n] that by simp
  then show ?thesis unfolding found_new_def ensures_def by (auto split: prod.splits outcome.splits)
qed

lemma found_new_bnd: "(\<And>x. found_new g (f x)) \<Longrightarrow> found_new g (bnd m f)"
  unfolding found_new_def by (rule ensures_bnd [where Q = "\<lambda>_ _. True"]) (auto simp: ensures_def split: prod.splits outcome.splits)

lemma found_new_try: "(\<And>x. found_new g (f x)) \<Longrightarrow> found_new g (try_bnd m f)"
  unfolding try_bnd_def by (rule found_new_bnd) (auto simp: found_new_def intro: ensures_ret split: sum.split)

lemma found_new_err: "found_new g (ret (Inl err))"
  by (simp add: found_new_def ensures_def)

lemma found_new_Lookup: "found_new g (Dir_Lookup g name)"
  unfolding Dir_Lookup_def Lookup_direct_def Lookup_miss_def Lookup_reload_def Lookup_finish_def Let_def
  by (auto intro!: found_new_try found_new_bnd found_new_err found_pristine split: option.split sum.split)

lemma Lookup_new: "Dir_Lookup g name s = (Ret (Inr n), t) \<Longrightarrow> pristine g n"
  using found_new_Lookup [of g name] ensuresD(1) unfolding found_new_def by fastforce

text \<open>A lookup of the missing name in its own directory.\<close>

lemma Lookup_missing:
  assumes "missing_row g (d_path d) name x" "good g w" "types_kept [x] (db_rows (w_db w))" "missing_node g (d_path d) name (DirNode d)"
    and "Dir_Lookup g name (w, d) = (r, (w', d'))"
  shows "\<forall>row. ld_rows (d_data d') name = Some row \<longrightarrow> no_entry row"
    and "quiet (g_engine g) \<Longrightarrow> r = Ret (Inl FuseENOENT)"
proof -
  let ?p = "path_Join (d_path d) name"
  have cached: "\<not> d_direct d" using assms(1,4) by (simp add: missing_row_def missing_node_def as_matched_def)
  have tok: "table_ok (db_rows (w_db w))" "world_ok g w" using assms(2) world_ok_db by (auto simp: good_def)
  obtain row where row: "wview g w ?p = Some row" "TypeName row = ''noentry''"
    using missing_view [OF assms(1-3)] by (auto simp: no_entry_def)
  have "(\<forall>row. ld_rows (d_data d') name = Some row \<longrightarrow> no_entry row) \<and> (quiet (g_engine g) \<longrightarrow> r = Ret (Inl FuseENOENT))"
  proof (cases "ld_rows (d_data d) name")
    case (Some known)
    then have "no_entry known" using assms(4) by (simp add: missing_node_def)
    then show ?thesis
      using assms(5) cached Some by (auto simp: Dir_Lookup_def Let_def no_entry_def newNodeForEntry_def)
  next
    case None
    show ?thesis
    proof (cases rule: GetFullEntry_cases [OF tok(1), of "g_engine g" ?p])
      case (3 d1)
      then have "in_db (GetFullEntry (g_engine g) ?p) w = (Ret (Inr (Some row)), w\<lparr>w_db := d1\<rparr>)"
        using row(1) by (simp add: in_db_def zoom_def)
      then have "r = Ret (Inl FuseENOENT) \<and> d' = remember_row name (Some row) d"
        using cached None assms(5) row report_hit [of "w\<lparr>w_db := d1\<rparr>" LookupFuseOp] tok world_ok_db [of g w]
        by (simp add: Dir_Lookup_def Lookup_finish_def Let_def bnd_def try_bnd_def zoom_def newNodeForEntry_def counted_def)
      then show ?thesis using row(2) by (auto simp: remember_row_def no_entry_def)
    next
      case (2 c d1)
      then have "quiet (g_engine g) \<longrightarrow> False" using quiet_GetFullEntry [of "g_engine g" "w_db w" ?p] tok by auto
      with 2 assms(5) cached None show ?thesis
        by (auto simp: Dir_Lookup_def Let_def bnd_def try_bnd_def zoom_def in_db_def)
    next
      case (1 d1)
      then have "quiet (g_engine g) \<longrightarrow> False" using quiet_GetFullEntry [of "g_engine g" "w_db w" ?p] tok by auto
      with 1 assms(5) cached None show ?thesis
        by (auto simp: Dir_Lookup_def Let_def bnd_def try_bnd_def zoom_def in_db_def)
    qed
  qed
  then show "\<forall>row. ld_rows (d_data d') name = Some row \<longrightarrow> no_entry row" "quiet (g_engine g) \<Longrightarrow> r = Ret (Inl FuseENOENT)" by blast+
qed

section \<open>Steps\<close>

lemma keeps_types_upsert:
  assumes "missing_row g path name x" "engine_ok (g_engine g)" "clean_abs q" "valid_name n" "q \<noteq> path"
  shows "keeps (\<lambda>w. types_kept [x] (db_rows (w_db w))) (in_db (PutNewOrUpdateWithType (g_engine g) (path_Join q n) md))"
    "keeps (\<lambda>w. types_kept [x] (db_rows (w_db w))) (in_db (PutNewOrUpdateNoEntry (g_engine g) (path_Join q n)))"
proof -
  have mr: "clean_abs path" "valid_name name" using assms(1) by (simp_all add: missing_row_def)
  have "clean_abs (path_Join q n)" "clean_abs (path_Join path name)" using mr assms(3,4) by (simp_all add: path_Join_clean_abs)
  moreover have "path_Join q n \<noteq> path_Join path name" using path_Join_inj2 [OF assms(3) mr(1) assms(4) mr(2)] assms(5) by blast
  ultimately have "eng_text (g_engine g) (path_Join q n) \<noteq> c_path (snd x)"
    using assms(1,2) by (simp add: missing_row_def clean_abs_text)
  then have "types_kept [x] (snd (updateEntryStmt (g_engine g) t (path_Join q n) tbl))" if "types_kept [x] tbl" for t tbl
    using updateEntryStmt_typed [of "fst x" "snd x"] that by simp
  then show "keeps (\<lambda>w. types_kept [x] (db_rows (w_db w))) (in_db (PutNewOrUpdateWithType (g_engine g) (path_Join q n) md))"
    "keeps (\<lambda>w. types_kept [x] (db_rows (w_db w))) (in_db (PutNewOrUpdateNoEntry (g_engine g) (path_Join q n)))"
    by (intro keeps_rows_db typed.keeps_upsert_at; simp)+
qed

lemma lookup_types:
  assumes "missing_row g path name x" "types_kept [x] (db_rows (w_db w))" "missing_node g path name (DirNode d)"
    and "engine_ok (g_engine g)" "clean_abs (d_path d)" "valid_name n"
  shows "types_kept [x] (db_rows (w_db (fst (snd (Dir_Lookup g n (w, d))))))"
proof (rule fsty.keeps_Lookup_at [OF assms(2)])
  have ne: "d_path d \<noteq> path" if "d_direct d"
    using that assms(1,3) by (auto simp: missing_row_def missing_node_def as_matched_def)
  show "d_direct d \<Longrightarrow> keeps (\<lambda>w. types_kept [x] (db_rows (w_db w))) (in_db (PutNewOrUpdateWithType (g_engine g) (path_Join (d_path d) n) md))" for md
    using keeps_types_upsert(1) [OF assms(1,4,5,6) ne] .
  show "d_direct d \<Longrightarrow> keeps (\<lambda>w. types_kept [x] (db_rows (w_db w))) (in_db (PutNewOrUpdateNoEntry (g_engine g) (path_Join (d_path d) n)))"
    using keeps_types_upsert(2) [OF assms(1,4,5,6) ne] .
qed

text \<open>
  The nodes after a step: they are nodes from before with the same path, flag and memory, the directory of a
  lookup, or new.
\<close>

definition same_node :: "fs_node \<Rightarrow> fs_node \<Rightarrow> bool" where
  "same_node n n' \<longleftrightarrow> node_path n' = node_path n \<and> node_direct n' = node_direct n \<and> node_rows n' = node_rows n"

lemma same_node_refl: "same_node n n"
  by (simp add: same_node_def)

lemma same_node_keeps:
  "keeps (\<lambda>(w, d). same_node n (DirNode d)) (Dir_Attr g)" "keeps (\<lambda>(w, d). same_node n (DirNode d)) (Dir_ReadDirAll g)"
  "keeps (\<lambda>(w, f). same_node n (FileNode f)) (File_Attr g)" "keeps (\<lambda>(w, f). same_node n (FileNode f)) (File_Open g)"
  "keeps (\<lambda>(w, l). same_node n (SymlinkNode l)) (Symlink_Attr g)" "keeps (\<lambda>(w, l). same_node n (SymlinkNode l)) (Symlink_Readlink g)"
proof -
  show "keeps (\<lambda>(w, d). same_node n (DirNode d)) (Dir_Attr g)"
    by (auto simp: keeps_def Dir_Attr_def dir_info_def zoom_def same_node_def split: prod.splits)
  show "keeps (\<lambda>(w, d). same_node n (DirNode d)) (Dir_ReadDirAll g)"
    unfolding Dir_ReadDirAll_def fetch_dirEntries_def reload_dirEntries_def list_dirents_def Let_def
    by (intro keeps_rules fsw.keeps_make_dirents keeps_outer_local keeps_modify) (auto simp: set_dirEntries_def same_node_def)
  show "keeps (\<lambda>(w, f). same_node n (FileNode f)) (File_Attr g)"
    by (auto simp: keeps_def File_Attr_def file_info_def zoom_def same_node_def split: prod.splits)
  show "keeps (\<lambda>(w, f). same_node n (FileNode f)) (File_Open g)"
    unfolding File_Open_def store_fetched_def open_cached_def Let_def
    by (intro keeps_rules keeps_outer_local keeps_modify) (auto simp: set_contentHash_def same_node_def)
  show "keeps (\<lambda>(w, l). same_node n (SymlinkNode l)) (Symlink_Attr g)"
    by (auto simp: keeps_def Symlink_Attr_def symlink_info_def zoom_def same_node_def split: prod.splits)
  show "keeps (\<lambda>(w, l). same_node n (SymlinkNode l)) (Symlink_Readlink g)"
    unfolding Symlink_Readlink_def store_target_def return_target_def Let_def
    by (intro keeps_rules keeps_outer_local keeps_modify) (auto simp: set_ls_target_def same_node_def)
qed

lemma same_node_run:
  assumes "\<And>n. keeps (\<lambda>(w, d). same_node n (K d)) h" "h (w, d) = (r, (w', d'))"
  shows "same_node (K d) (K d')"
  using keepsD_run [OF assms(1) [of "K d"] _ assms(2)] same_node_refl by simp

lemmas same_node_handlers = same_node_run [OF same_node_keeps(1)] same_node_run [OF same_node_keeps(2)]
  same_node_run [OF same_node_keeps(3)] same_node_run [OF same_node_keeps(4)]
  same_node_run [OF same_node_keeps(5)] same_node_run [OF same_node_keeps(6)]

definition old_node :: "mount \<Rightarrow> fs_node \<Rightarrow> bool" where
  "old_node m n \<longleftrightarrow> (\<exists>i n0. m_nodes m i = Some n0 \<and> same_node n0 n)"

definition looked_up :: "globalState \<Rightarrow> mount \<Rightarrow> fs_node \<Rightarrow> bool" where
  "looked_up g m n \<longleftrightarrow> (\<exists>i d name r w d'. m_nodes m i = Some (DirNode d) \<and> valid_name name \<and>
     Dir_Lookup g name (m_world m, d) = (r, (w, d')) \<and> n = DirNode d')"

lemma old_nodeI: "m_nodes m i = Some n \<Longrightarrow> old_node m n"
  using same_node_refl by (auto simp: old_node_def)

lemma set_node_cases:
  assumes "m_nodes (set_node i n w m) j = Some n'" "m_nodes m i = Some n0" "same_node n0 n"
  shows "old_node m n'"
  using assms old_nodeI [of m] by (auto simp: set_node_def old_node_def split: if_splits)

lemma step_nodes:
  assumes "fuse_step g m m'" "m_nodes m' j = Some n"
  shows "old_node m n \<or> looked_up g m n \<or> pristine g n"
  using assms(1)
proof cases
  case (dir_attr i d r w d')
  from set_node_cases [OF _ dir_attr(2) same_node_handlers(1) [OF dir_attr(3)]] assms(2) show ?thesis unfolding dir_attr(1) by blast
next
  case (file_attr i f r w f')
  from set_node_cases [OF _ file_attr(2) same_node_handlers(3) [OF file_attr(3)]] assms(2) show ?thesis unfolding file_attr(1) by blast
next
  case (symlink_attr i l r w l')
  from set_node_cases [OF _ symlink_attr(2) same_node_handlers(5) [OF symlink_attr(3)]] assms(2) show ?thesis unfolding symlink_attr(1) by blast
next
  case (lookup i d name rn w d')
  show ?thesis
  proof (cases "rn = Ret (Inr n)")
    case True
    then show ?thesis using Lookup_new lookup(4) by blast
  next
    case False
    then have "m_nodes (set_node i (DirNode d') w m) j = Some n"
      using assms(2) unfolding lookup(1)
      by (cases "(rn, set_node i (DirNode d') w m)" rule: add_found.cases) (auto split: if_splits)
    moreover have "looked_up g m (DirNode d')" using lookup unfolding looked_up_def by blast
    ultimately show ?thesis using old_nodeI by (auto simp: set_node_def split: if_splits)
  qed
next
  case (readdir i d rd w d')
  from set_node_cases [OF _ readdir(2) same_node_handlers(2) [OF readdir(3)]] assms(2) show ?thesis unfolding readdir(1) by blast
next
  case (readlink i l rl w l')
  from set_node_cases [OF _ readlink(2) same_node_handlers(6) [OF readlink(3)]] assms(2) show ?thesis unfolding readlink(1) by blast
next
  case (open_file i f rh w f')
  have "m_nodes (set_node i (FileNode f') w m) j = Some n"
    using assms(2) unfolding open_file(1) by (cases "(rh, set_node i (FileNode f') w m)" rule: add_handle.cases) auto
  with set_node_cases [OF _ open_file(2) same_node_handlers(4) [OF open_file(3)]] show ?thesis by blast
qed (use assms(2) old_nodeI in \<open>auto split: if_splits\<close>)

text \<open>Every node of a running file system is as matched.\<close>

lemma looked_up_frame:
  assumes "Dir_Lookup g name (w, d) = (r, (w', d'))"
  shows "d_path d' = d_path d" "d_direct d' = d_direct d" "n \<noteq> name \<Longrightarrow> ld_rows (d_data d') n = ld_rows (d_data d) n"
proof -
  have "(d_path d', d_direct d', (ld_rows (d_data d'))(name := None)) = (d_path d, d_direct d, (ld_rows (d_data d))(name := None))"
    using keepsD_run [OF Lookup_frame [where c = "(d_path d, d_direct d, (ld_rows (d_data d))(name := None))"] _ assms] by simp
  then show "d_path d' = d_path d" "d_direct d' = d_direct d" "n \<noteq> name \<Longrightarrow> ld_rows (d_data d') n = ld_rows (d_data d) n"
    by (auto dest: fun_cong [where x = n])
qed

lemma run_matched:
  assumes "fuse_run g m m'" "\<forall>i n. m_nodes m i = Some n \<longrightarrow> as_matched g n"
  shows "\<forall>i n. m_nodes m' i = Some n \<longrightarrow> as_matched g n"
  using assms(1)
proof (induction rule: rtranclp_induct)
  case (step m1 m2)
  show ?case
  proof (intro allI impI)
    fix i n
    assume "m_nodes m2 i = Some n"
    then consider "old_node m1 n" | "looked_up g m1 n" | "pristine g n" using step_nodes [OF step(2)] by blast
    then show "as_matched g n"
    proof cases
      case 1
      then show ?thesis using step(3) by (auto simp: old_node_def same_node_def as_matched_def)
    next
      case 2
      then show ?thesis using step(3) looked_up_frame(1,2) by (fastforce simp: looked_up_def as_matched_def)
    qed (simp add: pristine_def)
  qed
qed (rule assms(2))

section \<open>Missing for ever\<close>

lemma step_types:
  assumes "fuse_step g m m'" and m: "stays_missing g path name x m"
  shows "types_kept [x] (db_rows (w_db (m_world m')))"
proof -
  note inv = stays_missingD [OF m]
  have run: "types_kept [x] (db_rows (w_db w'))"
    if "keeps (\<lambda>(w, n). types_kept [x] (db_rows (w_db w))) h" "h (m_world m, n) = (r, (w', n'))" for h and n n' :: 'n and r :: "'r outcome" and w'
    using keepsD_run [OF that(1) _ that(2)] inv(3) by simp
  show ?thesis using assms(1)
  proof cases
    case (lookup i d n rn w d')
    have "clean_abs (d_path d)" using mount_node [OF inv(5) lookup(2)] by (simp add: dir_good_def has_inode_def)
    from lookup_types [OF inv(1,3) inv(4) [OF lookup(2)] _ this lookup(3)] lookup(4) inv(2) world_ok_db [of g "m_world m"] show ?thesis
      unfolding lookup(1) by (simp add: good_def set_node_def)
  next
    case (clear rc w')
    then show ?thesis using inv(3) by (auto simp: in_sys_def zoom_def split: prod.splits)
  qed (auto simp: set_node_def remote_change_def inv(3) dest: run [OF fsty.keeps_Attr(1)] run [OF fsty.keeps_Attr(2)] run [OF fsty.keeps_Attr(3)]
      run [OF fsty.keeps_ReadDirAll] run [OF fsty.keeps_Readlink] run [OF fsty.keeps_Open]
      run [OF fsty.keeps_openFile(1)] run [OF fsty.keeps_openFile(2)])
qed

lemma looked_up_missing:
  assumes m: "stays_missing g path name x m" and "looked_up g m n"
  shows "missing_node g path name n"
proof -
  note inv = stays_missingD [OF m]
  obtain i d b r w d' where d: "m_nodes m i = Some (DirNode d)" "valid_name b" and run: "Dir_Lookup g b (m_world m, d) = (r, (w, d'))"
    and n: "n = DirNode d'" using assms(2) by (auto simp: looked_up_def)
  note old = inv(4) [OF d(1)] and frame = looked_up_frame [OF run]
  have "no_entry row" if "d_path d = path" "ld_rows (d_data d') name = Some row" for row
  proof (cases "b = name")
    case True
    with Lookup_missing(1) [of g d name x, OF _ inv(2,3) _ run [unfolded True]] inv(1) old that show ?thesis by blast
  next
    case False
    then show ?thesis using old that frame(3) [of name] by (simp add: missing_node_def)
  qed
  then show ?thesis using old frame(1,2) by (simp add: n missing_node_def as_matched_def)
qed

lemma step_missing:
  assumes "fuse_step g m m'" and m: "stays_missing g path name x m"
  shows "stays_missing g path name x m'"
proof -
  note inv = stays_missingD [OF m]
  have "missing_node g path name n" if "m_nodes m' i = Some n" for i n
    using step_nodes [OF assms(1) that] looked_up_missing [OF m]
  proof (elim disjE)
    assume "old_node m n"
    then show ?thesis using inv(4) by (auto simp: old_node_def same_node_def missing_node_def as_matched_def)
  qed (simp_all add: pristine_def missing_node_def)
  then show ?thesis using inv(1) fuse_step_good [OF assms(1) inv(5)] step_types [OF assms] by (simp add: stays_missing_def)
qed

lemma run_missing: "fuse_run g m m' \<Longrightarrow> stays_missing g path name x m \<Longrightarrow> stays_missing g path name x m'"
  by (induction rule: rtranclp_induct) (simp_all add: step_missing)

end
