(* ===== verification/Props_Mount.thy ===== *)
theory Props_Mount
  imports Mount_Missing Examples
begin

text \<open>
  Properties of the mounted file system as a whole: what holds after any sequence of requests, remote
  changes and resets of the statistics. Requests do not overlap in these runs. The trees are those of
  \<open>kernel_ok\<close>: no hard links, and no name that holds the byte 0x01, which separates fields in the
  encoding of listings.
\<close>

fun node_inode :: "fs_node \<Rightarrow> u64" where
  "node_inode (DirNode d) = d_inode d"
| "node_inode (FileNode f) = f_inode f"
| "node_inode (SymlinkNode l) = s_inode l"

lemma node_good_inode: "node_good g w n \<Longrightarrow> has_inode g w (node_path n) (node_inode n)"
  by (cases n) (simp_all add: dir_good_def file_good_def symlink_good_def)

lemma has_inode_inj:
  assumes "good g w" "has_inode g w p i" "has_inode g w q j"
  shows "i = j \<longleftrightarrow> p = q"
  using assms meta_view_inode_inj [of "g_engine g" "db_rows (w_db w)" p q] world_ok_db [of g w]
  by (auto simp: has_inode_def good_def table_ok_def)

section \<open>Examples\<close>

lemma ex_good: "good ex_globals ex_world"
  using ex_world_ok
  by (simp add: good_def ex_globals_sel ex_world_sel hashes_in_def ex_rows_def new_row_def)

lemma ex_root_good: "node_good ex_globals ex_world (DirNode ex_dir)"
  by (simp add: dir_good_def has_inode_def ex_dir_def ex_paths ex_globals_sel ex_world_sel ex_view fresh_row_def)

lemma ex_file_good: "node_good ex_globals ex_world (FileNode ex_file)"
  by (simp add: file_good_def has_inode_def hash_held_def ex_file_def ex_paths ex_globals_sel ex_world_sel ex_view fresh_row_def)

text \<open>After a lookup of the file the mount has two nodes.\<close>

lemma ex_looked_up:
  "\<exists>m d n. fuse_run ex_globals (mounted (DirNode ex_dir) ex_world) m \<and> m_nodes m 0 = Some (DirNode d) \<and> m_nodes m 1 = Some n \<and>
    d_path d = ''/'' \<and> node_path n = ''/f''"
proof -
  have "meta_view ex_engine ex_rows ''/f'' = Some (fresh_row 2 ''file'')" by (rule ex_view)
  moreover have joins: "path_Join ''/'' ''f'' = ''/f''" "path_Join ''/remote'' ''f'' = ''/remote/f''" by code_simp+
  ultimately obtain w1 n where l: "Dir_Lookup ex_globals ''f'' (ex_world, ex_dir) =
      (Ret (Inr n), (w1, remember_row ''f'' (Some (fresh_row 2 ''file'')) ex_dir))" "node_path n = ''/f''"
    using Lookup_known [OF ex_quiet(1) ex_world_ok, of ex_dir "''f''" "fresh_row 2 ''file''"]
    by (auto simp: ex_dir_def ex_globals_sel ex_world_sel newNodeForEntry_def fresh_row_def Let_def joins)
  let ?d = "remember_row ''f'' (Some (fresh_row 2 ''file'')) ex_dir"
  let ?m = "add_found (Ret (Inr n)) (set_node 0 (DirNode ?d) w1 (mounted (DirNode ex_dir) ex_world))"
  have "fuse_step ex_globals (mounted (DirNode ex_dir) ex_world) ?m"
    by (rule lookup [of _ 0 ex_dir "''f''"]) (simp_all add: mounted_def l valid_name_def)
  then show ?thesis
    by (intro exI [of _ ?m] exI [of _ ?d] exI [of _ n]) (simp add: set_node_def mounted_def l(2) remember_row_def ex_dir_def)
qed

section \<open>The invariant\<close>

text \<open>
  C1. In every state that the mounted file system can reach, through any sequence of requests however they
  end, with the remote file system changing in between: the table of paths is well-formed and its listings
  decode, every cached content has the digest it is filed under, every hash that a row holds is what the
  database returns for the digest of a content in the cache, every node knows such a hash or such a digest or
  none, every node has the inode number of the row of its path, and no row and no content that was there at
  the start is lost. The requests are served one after the other; the tree of files, at the start and after
  every change, is one without hard links and without names that hold the byte 0x01.
\<close>

theorem mount_invariant:
  assumes "good g w" "node_good g w root" "fuse_run g (mounted root w) m"
  shows "good g (m_world m) \<and> (\<forall>i n. m_nodes m i = Some n \<longrightarrow> node_good g (m_world m) n) \<and> grows g w (m_world m)"
  using fuse_run_good [OF assms(3)] fuse_run_grows [OF assms(3)] mounted_good [OF assms(1,2)]
  by (simp add: mount_good_def) (simp add: mounted_def)

theorem mount_invariant_witness:
  "\<exists>m. fuse_run ex_globals (mounted (DirNode ex_dir) ex_world) m \<and> m_nodes m 1 \<noteq> None \<and> good ex_globals (m_world m)"
  using ex_looked_up mount_invariant [OF ex_good ex_root_good] by blast

text \<open>
  C3. Inode numbers identify files: in every state that the mounted file system reaches by serving requests one
  after the other, two nodes have the same inode number exactly if they have the same path. (As in the
  invariant, the tree has no hard links and no names with the byte 0x01.)
\<close>

theorem inode_identifies_path:
  assumes "good g w" "node_good g w root" "fuse_run g (mounted root w) m" "m_nodes m i = Some n" "m_nodes m j = Some n'"
  shows "node_inode n = node_inode n' \<longleftrightarrow> node_path n = node_path n'"
proof -
  have m: "mount_good g m" using fuse_run_good [OF assms(3) mounted_good [OF assms(1,2)]] .
  show ?thesis
    using has_inode_inj mount_node [OF m assms(4)] mount_node [OF m assms(5)] node_good_inode by blast
qed

theorem inode_identifies_path_witness:
  "\<exists>m n n'. fuse_run ex_globals (mounted (DirNode ex_dir) ex_world) m \<and> m_nodes m 0 = Some n \<and> m_nodes m 1 = Some n' \<and>
     node_inode n \<noteq> node_inode n'"
proof -
  obtain m d n where m: "fuse_run ex_globals (mounted (DirNode ex_dir) ex_world) m" "m_nodes m 0 = Some (DirNode d)" "m_nodes m 1 = Some n"
    "d_path d = ''/''" "node_path n = ''/f''" using ex_looked_up by blast
  with inode_identifies_path [OF ex_good ex_root_good m(1-3)] show ?thesis by auto
qed

text \<open>
  C2. A file that was opened once stays available: in every state that is reached by serving requests one after
  the other, if a cached file's node knows a content hash that the database returns for no other digest,
  then opening it succeeds as long as the local kernel works, without a single remote operation, and every
  read delivers the corresponding part of a content with exactly that hash. The hypothesis on the hash leaves
  out what SQLite makes of a digest that reads as a number, which is no digest any more.
\<close>

theorem known_content_is_served:
  assumes "good g w" "node_good g w root" "fuse_run g (mounted root w) m" "env_quiet (g_env g)"
    and "m_nodes m i = Some (FileNode f)" "\<not> f_direct f" "lf_contentHash (f_data f) = Some key"
    and "\<And>digest. valid_key digest \<Longrightarrow> eng_text (g_engine g) digest = key \<Longrightarrow> digest = key"
  shows "\<exists>h w1 bs. File_Open g (m_world m, f) = (Ret (Inr h), (w1, f)) \<and> md5_hex bs = key \<and>
    (\<forall>op. counter_value (COsOp RemoteDomain op) (sys_stats (w_sys w1)) = counter_value (COsOp RemoteDomain op) (sys_stats (w_sys (m_world m)))) \<and>
    (\<forall>n off. 0 \<le> sint off \<longrightarrow> (\<exists>w2. openFile_Read g n off (w1, h) = (Ret (take n (drop (unat off) bs), None), (w2, h))))"
proof -
  let ?w = "m_world m" and ?root = "cc_root (g_content g)"
  have m: "mount_good g m" using fuse_run_good [OF assms(3) mounted_good [OF assms(1,2)]] .
  then have ok: "world_ok g ?w" by (simp add: mount_good_def good_def)
  have "key \<in> held_keys g ?w \<union> key_texts g ?w"
    using mount_node [OF m assms(5)] assms(7) by (simp add: file_good_def hash_held_def)
  moreover have "key \<in> held_keys g ?w" if "x \<in> held_keys g ?w" "key = eng_text (g_engine g) x" for x
    using assms(8) [OF held_valid [OF that(1)]] that by simp
  ultimately have "key \<in> held_keys g ?w" by (auto simp: key_texts_def)
  then obtain bs where bs: "cached_bytes ?root (w_sys ?w) key = Some bs" by (auto simp: held_keys_def)
  obtain h w1 where open': "File_Open g (?w, f) = (Ret (Inr h), (w1, f))" "serves w1 h bs"
    using Open_hit [OF ok assms(4,6,7) bs] by blast
  have "counted ?w" using world_ok_db [OF ok] by simp
  then have "remote_ops op (w_sys w1) = remote_ops op (w_sys ?w)" for op
    using Open_hit_local [of ?w f op g] assms(6,7) open'(1) by simp
  moreover have "md5_hex bs = key" using cached_bytes_digest [OF _ _ bs] world_ok_cache [OF ok] by blast
  moreover have "\<exists>w2. openFile_Read g n off (w1, h) = (Ret (take n (drop (unat off) bs), None), (w2, h))" if "0 \<le> sint off" for n off
    using Read_serves [OF open'(2) assms(4) that] by blast
  ultimately show ?thesis using open'(1) by blast
qed

theorem known_content_is_served_witness:
  "\<exists>m f h w1. fuse_run ex_globals (mounted (FileNode ex_file) ex_world) m \<and> File_Open ex_globals (m_world m, f) = (Ret (Inr h), (w1, f)) \<and>
     (\<exists>w2 bs. openFile_Read ex_globals 1 0 (w1, h) = (Ret (bs, None), (w2, h)))"
proof -
  obtain h w1 where open': "File_Open ex_globals (ex_world, ex_file) = (Ret (Inr h), (w1, set_contentHash (md5_hex [104, 105]) ex_file))"
    using Open_miss [OF ex_quiet ex_world_ok, of ex_file "''/f''" "fresh_row 2 ''file''" "[104, 105]"]
    by (auto simp: ex_file_def ex_world_sel ex_globals_sel ex_view ex_storable fresh_row_def)
  let ?f = "set_contentHash (md5_hex [104, 105]) ex_file"
  let ?m = "add_handle (Ret (Inr h)) (set_node 0 (FileNode ?f) w1 (mounted (FileNode ex_file) ex_world))"
  have "fuse_step ex_globals (mounted (FileNode ex_file) ex_world) ?m"
    by (rule open_file [of _ 0 ex_file]) (simp_all add: mounted_def open')
  then have run: "fuse_run ex_globals (mounted (FileNode ex_file) ex_world) ?m" by simp
  have "m_nodes ?m 0 = Some (FileNode ?f)" "\<not> f_direct ?f" "lf_contentHash (f_data ?f) = Some (md5_hex [104, 105])"
    by (simp_all add: set_node_def set_contentHash_def) (simp add: ex_file_def)
  moreover have "eng_text (g_engine ex_globals) digest = digest" for digest by (simp add: ex_globals_sel) (simp add: ex_engine_def)
  ultimately obtain h' w' bs where
    "File_Open ex_globals (m_world ?m, ?f) = (Ret (Inr h'), (w', ?f))"
    "\<forall>n off. 0 \<le> sint off \<longrightarrow> (\<exists>w2. openFile_Read ex_globals n off (w', h') = (Ret (take n (drop (unat off) bs), None), (w2, h')))"
    using known_content_is_served [OF ex_good ex_file_good run ex_quiet(2), of 0 ?f "md5_hex [104, 105]"] by auto
  moreover from this(2) [rule_format, of 0 1] obtain w2 where "openFile_Read ex_globals 1 0 (w', h') = (Ret (take 1 (drop (unat 0) bs), None), (w2, h'))"
    by auto
  ultimately show ?thesis using run by blast
qed

section \<open>Negative entries\<close>

lemma missing_start:
  assumes "mount_good g m" "\<forall>j n. m_nodes m j = Some n \<longrightarrow> as_matched g n"
    and d: "m_nodes m i = Some (DirNode d)" "\<not> d_direct d" "valid_name name"
    and "\<forall>j d'. m_nodes m j = Some (DirNode d') \<and> d_path d' = d_path d \<longrightarrow> ld_rows (d_data d') name = None"
    and row: "wview g (m_world m) (path_Join (d_path d) name) = Some row" "TypeName row = ''noentry''"
  shows "\<exists>x. stays_missing g (d_path d) name x m"
proof -
  have g: "good g (m_world m)" and clean: "clean_abs (d_path d)"
    using mount_node [OF assms(1) d(1)] by (simp_all add: dir_good_def has_inode_def)
  have wf: "table_wf (db_rows (w_db (m_world m)))" using g world_ok_db by (auto simp: good_def table_ok_def)
  obtain r prow where x: "row_by_path (g_engine g) (path_Join (d_path d) name) (db_rows (w_db (m_world m))) = Some (r, prow)"
    "c_type prow = ''noentry''" using row by (auto simp: meta_view_def view_row_def)
  have "as_matched g (DirNode d)" using assms(2) d(1) by blast
  then have "missing_row g (d_path d) name (r, prow)"
    using row_by_path_Some(2) [OF wf x(1)] x(2) clean d(2,3) by (simp add: missing_row_def as_matched_def)
  moreover have "types_kept [(r, prow)] (db_rows (w_db (m_world m)))" using row_by_path_Some(1) [OF wf x(1)] by (auto simp: types_kept_iff)
  moreover have "missing_node g (d_path d) name n" if "m_nodes m j = Some n" for j n
    using assms(2,6) that by (cases n) (auto simp: missing_node_def)
  ultimately show ?thesis using assms(1) by (auto simp: stays_missing_def)
qed

text \<open>
  C8. Negative caching. Take a state reached by serving requests one after the other, a cached directory in it and
  a name that no node of the directory has looked up yet and that neither the database nor the remote directory
  knows. A lookup of the name answers \<^verbatim>\<open>ENOENT\<close>, and in every later state, whatever requests were served and
  whatever the remote file system has come to hold in the meantime, every lookup of the name through
  any node of that directory answers \<^verbatim>\<open>ENOENT\<close>. (SQLite reports no errors; the tree has no hard links and no
  names with the byte 0x01.)
\<close>

theorem lookup_negative_caching:
  assumes "quiet (g_engine g)" "env_quiet (g_env g)"
    and "good g w" "node_good g w root" "as_matched g root" "fuse_run g (mounted root w) m"
    and "m_nodes m i = Some (DirNode d)" "\<not> d_direct d" "valid_name name"
    and "\<forall>j d'. m_nodes m j = Some (DirNode d') \<and> d_path d' = d_path d \<longrightarrow> ld_rows (d_data d') name = None"
    and "wview g (m_world m) (path_Join (d_path d) name) = None" "wnode (m_world m) (path_Join (d_belowPath d) name) = None"
    and "rowids_left (g_engine g) (Suc (length (db_rows (w_db (m_world m)))))"
  shows "\<exists>w1. Dir_Lookup g name (m_world m, d) = (Ret (Inl FuseENOENT), (w1, d)) \<and>
    (\<forall>m' j d'. fuse_run g (set_node i (DirNode d) w1 m) m' \<longrightarrow> m_nodes m' j = Some (DirNode d') \<longrightarrow> d_path d' = d_path d \<longrightarrow>
      fst (Dir_Lookup g name (m_world m', d')) = Ret (Inl FuseENOENT))"
proof -
  have m: "mount_good g m" using fuse_run_good [OF assms(6) mounted_good [OF assms(3,4)]] .
  have "\<forall>j n. m_nodes (mounted root w) j = Some n \<longrightarrow> as_matched g n" using assms(5) by (simp add: mounted_def)
  note matched = run_matched [OF assms(6) this]
  have ok: "world_ok g (m_world m)" "clean_abs (d_path d)"
    using mount_node [OF m assms(7)] by (simp_all add: good_def dir_good_def has_inode_def)
  have d: "ld_rows (d_data d) name = None" using assms(7,10) by blast
  note p = path_Join_clean_abs [OF ok(2) assms(9)]
  obtain w1 r where w1: "Dir_Lookup g name (m_world m, d) = (Ret (Inl FuseENOENT), (w1, d))"
    "wview g w1 (path_Join (d_path d) name) = Some (fresh_row r ''noentry'')"
    using Lookup_absent [OF assms(1,2) ok(1) assms(8) d p assms(11-13)] by blast
  let ?m1 = "set_node i (DirNode d) w1 m"
  have "mount_good g ?m1" using lookup_step [OF m assms(7,9) w1(1)] by simp
  moreover have "m_nodes ?m1 = m_nodes m" "m_world ?m1 = w1" using assms(7) by (auto simp: set_node_def)
  ultimately obtain x where x: "stays_missing g (d_path d) name x ?m1"
    using missing_start [of g ?m1 i d name "fresh_row r ''noentry''"] matched assms(7-10) w1(2) by (simp add: fresh_row_def) blast
  have "fst (Dir_Lookup g name (m_world m', d')) = Ret (Inl FuseENOENT)"
    if "fuse_run g ?m1 m'" "m_nodes m' j = Some (DirNode d')" "d_path d' = d_path d" for m' j d'
  proof -
    note inv = stays_missingD [OF run_missing [OF that(1) x], folded that(3)]
    obtain rn u d2 where "Dir_Lookup g name (m_world m', d') = (rn, (u, d2))" by (metis surj_pair)
    from Lookup_missing(2) [OF inv(1-3) inv(4) [OF that(2)] this assms(1)] this show ?thesis by simp
  qed
  with w1(1) show ?thesis by blast
qed

theorem lookup_negative_caching_witness:
  "\<exists>w1. Dir_Lookup ex_globals ''x'' (ex_world, ex_dir) = (Ret (Inl FuseENOENT), (w1, ex_dir)) \<and>
     fst (Dir_Lookup ex_globals ''x'' (w1, ex_dir)) = Ret (Inl FuseENOENT)"
proof -
  let ?m = "mounted (DirNode ex_dir) ex_world"
  have "\<exists>w1. Dir_Lookup ex_globals ''x'' (m_world ?m, ex_dir) = (Ret (Inl FuseENOENT), (w1, ex_dir)) \<and>
    (\<forall>m' j d'. fuse_run ex_globals (set_node 0 (DirNode ex_dir) w1 ?m) m' \<longrightarrow> m_nodes m' j = Some (DirNode d') \<longrightarrow>
      d_path d' = d_path ex_dir \<longrightarrow> fst (Dir_Lookup ex_globals ''x'' (m_world m', d')) = Ret (Inl FuseENOENT))"
    by (rule lookup_negative_caching [OF ex_quiet ex_good ex_root_good _ rtranclp.rtrancl_refl])
       (auto simp: mounted_def as_matched_def ex_dir_def ex_paths ex_joins ex_world_sel ex_globals_sel ex_view ex_nodes ex_left valid_name_def
         split: if_splits)
  then obtain w1 where w1: "Dir_Lookup ex_globals ''x'' (ex_world, ex_dir) = (Ret (Inl FuseENOENT), (w1, ex_dir))"
    "\<forall>m' j d'. fuse_run ex_globals (set_node 0 (DirNode ex_dir) w1 ?m) m' \<longrightarrow> m_nodes m' j = Some (DirNode d') \<longrightarrow>
      d_path d' = d_path ex_dir \<longrightarrow> fst (Dir_Lookup ex_globals ''x'' (m_world m', d')) = Ret (Inl FuseENOENT)"
    by (auto simp: mounted_def)
  have "fst (Dir_Lookup ex_globals ''x'' (m_world (set_node 0 (DirNode ex_dir) w1 ?m), ex_dir)) = Ret (Inl FuseENOENT)"
    by (rule w1(2) [rule_format, of _ 0]) (simp_all add: set_node_def)
  then show ?thesis using w1(1) by (simp add: set_node_def)
qed

end
