(* ===== verification/Metadata_Open.thy ===== *)
theory Metadata_Open
  imports Metadata
begin

text \<open>
  Opening and closing the metadata cache: the first part of \<^verbatim>\<open>internal/cache/sqlite.go\<close> and of
  \<^verbatim>\<open>internal/cache/metadata.go\<close>. The state is what \<^verbatim>\<open>database/sql\<close> and the driver hold: the tables of
  the database files, the open database handles and the open prepared statements. Which call of the
  driver fails, and how, is the parameter \<open>sql_driver\<close>; a call that fails has no other effect, except
  that a handle or statement is closed even if closing it reports an error, as \<^verbatim>\<open>database/sql\<close> has it.
\<close>

section \<open>The driver\<close>

record sql_driver =
  drv_fault :: "nat \<Rightarrow> error option"

record sql_state =
  sq_tables :: "string \<rightharpoonup> table"
  sq_dbs :: "(nat \<times> string) list"
  sq_stmts :: "(nat \<times> nat \<times> string) list"
  sq_next :: nat
  sq_tick :: nat

definition sql_tick :: "sql_state \<Rightarrow> sql_state" where
  "sql_tick s = s\<lparr>sq_tick := Suc (sq_tick s)\<rparr>"

definition driver_call :: "sql_driver \<Rightarrow> (sql_state \<Rightarrow> 'a \<times> sql_state) \<Rightarrow> (sql_state, 'a result) prog" where
  "driver_call drv f = (\<lambda>s. case drv_fault drv (sq_tick s) of
       Some err \<Rightarrow> (Ret (Inl err), sql_tick s)
     | None \<Rightarrow> (case f (sql_tick s) of (x, t) \<Rightarrow> (Ret (Inr x), t)))"

definition driver_close :: "sql_driver \<Rightarrow> (sql_state \<Rightarrow> sql_state) \<Rightarrow> (sql_state, unit result) prog" where
  "driver_close drv f = (\<lambda>s. (Ret (case drv_fault drv (sq_tick s) of None \<Rightarrow> Inr () | Some err \<Rightarrow> Inl err), f (sql_tick s)))"

text \<open>A handle is a number, a prepared statement too; both are taken from one counter.\<close>

definition sql_Open :: "sql_driver \<Rightarrow> string \<Rightarrow> (sql_state, nat result) prog" where
  "sql_Open drv path = driver_call drv (\<lambda>s. (sq_next s,
     s\<lparr>sq_dbs := (sq_next s, path) # sq_dbs s, sq_next := Suc (sq_next s)\<rparr>))"

definition on_db :: "sql_driver \<Rightarrow> nat \<Rightarrow> (string \<Rightarrow> sql_state \<Rightarrow> 'a \<times> sql_state) \<Rightarrow> (sql_state, 'a result) prog" where
  "on_db drv db f = (\<lambda>s. case map_of (sq_dbs s) db of
       None \<Rightarrow> (Ret (Inl (ErrorString ''sql: database is closed'')), s)
     | Some path \<Rightarrow> driver_call drv (f path) s)"

definition DB_Ping :: "sql_driver \<Rightarrow> nat \<Rightarrow> (sql_state, unit result) prog" where
  "DB_Ping drv db = on_db drv db (\<lambda>_ s. ((), s))"

text \<open>The statements of the schema.\<close>

definition line :: "nat \<Rightarrow> string \<Rightarrow> string" where
  "line tabs txt = CHR 0x0A # replicate tabs (CHR 0x09) @ txt"

definition create_paths :: string where
  "create_paths = ''CREATE TABLE IF NOT EXISTS paths (''
     @ line 2 ''path STRING PRIMARY KEY,''
     @ line 2 ''type STRING NOT NULL,''
     @ line 0 ''''
     @ line 2 ''mode INTEGER,''
     @ line 2 ''size INTEGER,''
     @ line 2 ''mtime_nsec INTEGER,''
     @ line 0 ''''
     @ line 2 ''dirEntries STRING,''
     @ line 2 ''contentHash STRING,''
     @ line 0 ''''
     @ line 2 ''target STRING''
     @ line 1 '')''"

definition schemaDDL :: "string list" where
  "schemaDDL = [
     ''PRAGMA cache_size = 10000'',
     ''PRAGMA journal_mode = OFF'',
     ''PRAGMA read_uncommitted = ON'',
     ''PRAGMA synchronous = OFF'',
     create_paths]"

text \<open>
  What SQLite makes of the text of such a statement: a pragma leaves the tables alone; creating a table that
  exists is an error unless the statement says \<^verbatim>\<open>IF NOT EXISTS\<close>; anything else is an error here.
\<close>

definition starts_with :: "string \<Rightarrow> string \<Rightarrow> bool" where
  "starts_with words statement \<longleftrightarrow> take (length words) statement = words"

definition create_table :: "string \<Rightarrow> sql_state \<Rightarrow> sql_state" where
  "create_table path s = s\<lparr>sq_tables := (sq_tables s)(path \<mapsto> [])\<rparr>"

definition run_ddl :: "string \<Rightarrow> string \<Rightarrow> sql_state \<Rightarrow> unit result \<times> sql_state" where
  "run_ddl statement path s =
     (if starts_with ''PRAGMA '' statement then (Inr (), s)
      else if starts_with ''CREATE TABLE IF NOT EXISTS paths '' statement then
        (Inr (), if sq_tables s path = None then create_table path s else s)
      else if starts_with ''CREATE TABLE paths '' statement \<and> sq_tables s path = None then
        (Inr (), create_table path s)
      else (Inl (SqliteError (ErrCode 1)), s))"

definition DB_Exec :: "sql_driver \<Rightarrow> nat \<Rightarrow> string \<Rightarrow> (sql_state, unit result) prog" where
  "DB_Exec drv db statement = try_bnd (on_db drv db (run_ddl statement)) ret"

definition DB_Prepare :: "sql_driver \<Rightarrow> nat \<Rightarrow> string \<Rightarrow> (sql_state, nat result) prog" where
  "DB_Prepare drv db query = on_db drv db (\<lambda>_ s. (sq_next s,
     s\<lparr>sq_stmts := (sq_next s, db, query) # sq_stmts s, sq_next := Suc (sq_next s)\<rparr>))"

text \<open>Closing what is closed is no error. Closing a handle closes the statements prepared on it.\<close>

definition Stmt_Close :: "sql_driver \<Rightarrow> nat \<Rightarrow> (sql_state, unit result) prog" where
  "Stmt_Close drv st = (\<lambda>s. if map_of (sq_stmts s) st = None then (Ret (Inr ()), s)
     else driver_close drv (\<lambda>s. s\<lparr>sq_stmts := filter (\<lambda>x. fst x \<noteq> st) (sq_stmts s)\<rparr>) s)"

definition DB_Close :: "sql_driver \<Rightarrow> nat \<Rightarrow> (sql_state, unit result) prog" where
  "DB_Close drv db = (\<lambda>s. if map_of (sq_dbs s) db = None then (Ret (Inr ()), s)
     else driver_close drv (\<lambda>s. s\<lparr>sq_dbs := filter (\<lambda>x. fst x \<noteq> db) (sq_dbs s),
       sq_stmts := filter (\<lambda>x. fst (snd x) \<noteq> db) (sq_stmts s)\<rparr>) s)"

section \<open>Opening\<close>

definition initDatabase :: "sql_driver \<Rightarrow> nat \<Rightarrow> string list \<Rightarrow> (sql_state, unit result) prog" where
  "initDatabase drv db ddl = for_each (\<lambda>statement _. DB_Exec drv db statement) ddl ()"

text \<open>The handle is not closed when the first contact with the database fails.\<close>

definition newSqliteDb :: "sql_driver \<Rightarrow> string \<Rightarrow> string list \<Rightarrow> (sql_state, nat result) prog" where
  "newSqliteDb drv path ddl =
     try_bnd (sql_Open drv path) (\<lambda>db.
     try_bnd (DB_Ping drv db) (\<lambda>_.
     bnd (initDatabase drv db ddl) (\<lambda>r. case r of
       Inl err \<Rightarrow> bnd (DB_Close drv db) (\<lambda>_. ret (Inl err))
     | Inr _ \<Rightarrow> ret (Inr db))))"

definition RetriablePrepare :: "sql_driver \<Rightarrow> nat \<Rightarrow> string \<Rightarrow> (sql_state, nat result) prog" where
  "RetriablePrepare drv db query = try_bnd (DB_Prepare drv db query) (\<lambda>stmt. ret (Inr stmt))"

record MetadataCache =
  mc_db :: nat
  mc_getDirEntriesStmt :: "nat option"
  mc_getInodeStmt :: "nat option"
  mc_getFullEntryStmt :: "nat option"
  mc_updateEntryStmt :: "nat option"
  mc_putNewEntryStmt :: "nat option"
  mc_putFileInfoStmt :: "nat option"
  mc_putContentHashStmt :: "nat option"
  mc_putSymlinkTargetStmt :: "nat option"
  mc_putDirEntriesStmt :: "nat option"

text \<open>The closure \<^verbatim>\<open>prepareStmt\<close> shares the variable \<^verbatim>\<open>stmtError\<close> with the function around it.\<close>

definition prepareStmt :: "sql_driver \<Rightarrow> nat \<Rightarrow> string \<Rightarrow> (sql_state \<times> error option, nat option) prog" where
  "prepareStmt drv db query = bnd (gets snd) (\<lambda>stmtError.
     if stmtError \<noteq> None then ret None
     else bnd (outer (RetriablePrepare drv db query)) (\<lambda>r. case r of
         Inl err \<Rightarrow> bnd (modify (\<lambda>(s, _). (s, Some err))) (\<lambda>_. ret None)
       | Inr stmt \<Rightarrow> ret (Some stmt)))"

definition prepare_all :: "sql_driver \<Rightarrow> nat \<Rightarrow> (sql_state \<times> error option, MetadataCache) prog" where
  "prepare_all drv db =
     bnd (prepareStmt drv db ''SELECT dirEntries FROM paths WHERE ROWID = ?'') (\<lambda>s1.
     bnd (prepareStmt drv db ''SELECT ROWID FROM paths WHERE path = ?'') (\<lambda>s2.
     bnd (prepareStmt drv db ''SELECT ROWID, type, mode, size, mtime_nsec, dirEntries, contentHash, target FROM paths WHERE path = ?'') (\<lambda>s3.
     bnd (prepareStmt drv db ''UPDATE paths SET type = ? WHERE path = ?'') (\<lambda>s4.
     bnd (prepareStmt drv db ''INSERT INTO paths (path, type) VALUES (?, ?)'') (\<lambda>s5.
     bnd (prepareStmt drv db ''UPDATE paths SET mode = ?, size = ?, mtime_nsec = ? WHERE ROWID = ?'') (\<lambda>s6.
     bnd (prepareStmt drv db ''UPDATE paths SET contentHash = ? WHERE ROWID = ?'') (\<lambda>s7.
     bnd (prepareStmt drv db ''UPDATE paths SET target = ? WHERE ROWID = ?'') (\<lambda>s8.
     bnd (prepareStmt drv db ''UPDATE paths SET dirEntries = ? WHERE ROWID = ?'') (\<lambda>s9.
     ret \<lparr>mc_db = db, mc_getDirEntriesStmt = s1, mc_getInodeStmt = s2, mc_getFullEntryStmt = s3,
       mc_updateEntryStmt = s4, mc_putNewEntryStmt = s5, mc_putFileInfoStmt = s6,
       mc_putContentHashStmt = s7, mc_putSymlinkTargetStmt = s8, mc_putDirEntriesStmt = s9\<rparr>)))))))))"

definition NewMetadataCache :: "sql_driver \<Rightarrow> string \<Rightarrow> (sql_state, MetadataCache result) prog" where
  "NewMetadataCache drv path =
     try_bnd (newSqliteDb drv path schemaDDL) (\<lambda>db.
     bnd (with_local None (prepare_all drv db)) (\<lambda>(cache, stmtError). case stmtError of
       Some err \<Rightarrow> bnd (DB_Close drv db) (\<lambda>_. ret (Inl err))
     | None \<Rightarrow> ret (Inr cache)))"

section \<open>Closing\<close>

text \<open>A pointer to one of the statement fields of the cache object.\<close>

datatype stmt_field =
    F_getDirEntriesStmt | F_getInodeStmt | F_getFullEntryStmt | F_updateEntryStmt | F_putNewEntryStmt
  | F_putFileInfoStmt | F_putContentHashStmt | F_putSymlinkTargetStmt | F_putDirEntriesStmt

fun load_stmt :: "stmt_field \<Rightarrow> MetadataCache \<Rightarrow> nat option" where
  "load_stmt F_getDirEntriesStmt c = mc_getDirEntriesStmt c"
| "load_stmt F_getInodeStmt c = mc_getInodeStmt c"
| "load_stmt F_getFullEntryStmt c = mc_getFullEntryStmt c"
| "load_stmt F_updateEntryStmt c = mc_updateEntryStmt c"
| "load_stmt F_putNewEntryStmt c = mc_putNewEntryStmt c"
| "load_stmt F_putFileInfoStmt c = mc_putFileInfoStmt c"
| "load_stmt F_putContentHashStmt c = mc_putContentHashStmt c"
| "load_stmt F_putSymlinkTargetStmt c = mc_putSymlinkTargetStmt c"
| "load_stmt F_putDirEntriesStmt c = mc_putDirEntriesStmt c"

fun store_stmt :: "stmt_field \<Rightarrow> nat option \<Rightarrow> MetadataCache \<Rightarrow> MetadataCache" where
  "store_stmt F_getDirEntriesStmt v c = c\<lparr>mc_getDirEntriesStmt := v\<rparr>"
| "store_stmt F_getInodeStmt v c = c\<lparr>mc_getInodeStmt := v\<rparr>"
| "store_stmt F_getFullEntryStmt v c = c\<lparr>mc_getFullEntryStmt := v\<rparr>"
| "store_stmt F_updateEntryStmt v c = c\<lparr>mc_updateEntryStmt := v\<rparr>"
| "store_stmt F_putNewEntryStmt v c = c\<lparr>mc_putNewEntryStmt := v\<rparr>"
| "store_stmt F_putFileInfoStmt v c = c\<lparr>mc_putFileInfoStmt := v\<rparr>"
| "store_stmt F_putContentHashStmt v c = c\<lparr>mc_putContentHashStmt := v\<rparr>"
| "store_stmt F_putSymlinkTargetStmt v c = c\<lparr>mc_putSymlinkTargetStmt := v\<rparr>"
| "store_stmt F_putDirEntriesStmt v c = c\<lparr>mc_putDirEntriesStmt := v\<rparr>"

text \<open>The closure \<^verbatim>\<open>closeStmt\<close>; the third part of the state is the variable \<^verbatim>\<open>firstError\<close>.\<close>

definition closeStmt :: "sql_driver \<Rightarrow> stmt_field \<Rightarrow> ((sql_state \<times> MetadataCache) \<times> error option, unit) prog" where
  "closeStmt drv stmt = bnd (gets (\<lambda>((s, cache), firstError). (load_stmt stmt cache, firstError))) (\<lambda>(st, firstError).
     case st of
       None \<Rightarrow> ret ()
     | Some st \<Rightarrow>
         if firstError \<noteq> None then ret ()
         else bnd (outer (outer (Stmt_Close drv st))) (\<lambda>r. case r of
             Inl err \<Rightarrow> modify (\<lambda>(sc, _). (sc, Some err))
           | Inr _ \<Rightarrow> modify (\<lambda>((s, cache), e). ((s, store_stmt stmt None cache), e))))"

definition closeStmts :: "sql_driver \<Rightarrow> (sql_state \<times> MetadataCache, unit result) prog" where
  "closeStmts drv = bnd (with_local None (
     bnd (closeStmt drv F_putDirEntriesStmt) (\<lambda>_.
     bnd (closeStmt drv F_putSymlinkTargetStmt) (\<lambda>_.
     bnd (closeStmt drv F_putContentHashStmt) (\<lambda>_.
     bnd (closeStmt drv F_putFileInfoStmt) (\<lambda>_.
     bnd (closeStmt drv F_putNewEntryStmt) (\<lambda>_.
     bnd (closeStmt drv F_updateEntryStmt) (\<lambda>_.
     bnd (closeStmt drv F_getFullEntryStmt) (\<lambda>_.
     bnd (closeStmt drv F_getInodeStmt) (\<lambda>_.
     closeStmt drv F_getDirEntriesStmt)))))))))) (\<lambda>(_, firstError).
     ret (case firstError of Some err \<Rightarrow> Inl err | None \<Rightarrow> Inr ()))"

definition MetadataCache_Close :: "sql_driver \<Rightarrow> (sql_state \<times> MetadataCache, unit result) prog" where
  "MetadataCache_Close drv =
     try_bnd (closeStmts drv) (\<lambda>_.
     bnd (gets (\<lambda>(s, cache). mc_db cache)) (\<lambda>db. outer (DB_Close drv db)))"

end
