(* ===== verification/Metadata_Lifecycle.thy ===== *)
theory Metadata_Lifecycle
  imports Metadata_Open
begin

text \<open>
  What opening and closing the metadata cache guarantee: what the handles, the prepared statements and the
  tables are after each of the functions of \<^verbatim>\<open>Metadata_Open\<close>, for every pattern of driver errors.
\<close>

section \<open>Handles and statements\<close>

text \<open>Numbers are used once, and a statement belongs to an open handle.\<close>

definition sql_wf :: "sql_state \<Rightarrow> bool" where
  "sql_wf s \<longleftrightarrow> distinct (map fst (sq_dbs s)) \<and> distinct (map fst (sq_stmts s)) \<and>
     list_all (\<lambda>(h, _). h < sq_next s) (sq_dbs s) \<and>
     list_all (\<lambda>(st, h, _). st < sq_next s \<and> h \<in> fst ` set (sq_dbs s)) (sq_stmts s)"

abbreviation quiet_driver :: "sql_driver \<Rightarrow> bool" where
  "quiet_driver drv \<equiv> \<forall>t. drv_fault drv t = None"

lemma sql_tick_simps [simp]:
  "sq_tables (sql_tick s) = sq_tables s" "sq_dbs (sql_tick s) = sq_dbs s" "sq_stmts (sql_tick s) = sq_stmts s"
  "sq_next (sql_tick s) = sq_next s" "sq_tick (sql_tick s) = Suc (sq_tick s)"
  by (simp_all add: sql_tick_def)

lemma filter_fresh: "n \<notin> f ` set xs \<Longrightarrow> filter (\<lambda>x. f x \<noteq> n) xs = xs"
  by (rule filter_True) auto

lemma sql_wf_fresh:
  assumes "sql_wf s"
  shows "sq_next s \<notin> fst ` set (sq_dbs s)" "sq_next s \<notin> fst ` set (sq_stmts s)" "sq_next s \<notin> (fst \<circ> snd) ` set (sq_stmts s)"
  using assms by (fastforce simp: sql_wf_def list_all_iff)+

lemma map_of_fresh: "n \<notin> fst ` set xs \<Longrightarrow> map_of xs n = None"
  by (simp add: map_of_eq_None_iff)

lemma sql_wf_db: "sql_wf s \<Longrightarrow> x \<in> set (sq_stmts s) \<Longrightarrow> fst x < sq_next s \<and> fst (snd x) \<in> fst ` set (sq_dbs s)"
  unfolding sql_wf_def list_all_iff by (drule conjunct2, drule conjunct2, drule conjunct2, drule (1) bspec) (simp add: case_prod_beta)

section \<open>The schema\<close>

definition ensure_table :: "string \<Rightarrow> (string \<rightharpoonup> table) \<Rightarrow> (string \<rightharpoonup> table)" where
  "ensure_table path ts = (case ts path of None \<Rightarrow> ts(path \<mapsto> []) | Some _ \<Rightarrow> ts)"

lemma ensure_table_idem [simp]: "ensure_table path (ensure_table path ts) = ensure_table path ts"
  by (simp add: ensure_table_def split: option.split)

lemma ensure_table_kept: "ts q = Some tbl \<Longrightarrow> ensure_table path ts q = Some tbl"
  by (auto simp: ensure_table_def split: option.split)

text \<open>The comment on \<^verbatim>\<open>newSqliteDb\<close> asks that the statements can be repeated, and those of the schema can.\<close>

definition repeatable :: "string \<Rightarrow> bool" where
  "repeatable statement \<longleftrightarrow> starts_with ''PRAGMA '' statement \<or> starts_with ''CREATE TABLE IF NOT EXISTS paths '' statement"

lemma schema_repeatable: "list_all repeatable schemaDDL"
  by (simp add: schemaDDL_def repeatable_def starts_with_def create_paths_def)

lemma schema_creates: "\<not> list_all (starts_with ''PRAGMA '') schemaDDL"
  by (simp add: schemaDDL_def starts_with_def create_paths_def)

lemma run_ddl_tables:
  "repeatable statement \<Longrightarrow> run_ddl statement path s =
     (Inr (), s\<lparr>sq_tables := if starts_with ''PRAGMA '' statement then sq_tables s else ensure_table path (sq_tables s)\<rparr>)"
  by (auto simp: run_ddl_def repeatable_def create_table_def ensure_table_def split: option.split)

lemma DB_Exec_run:
  assumes "map_of (sq_dbs s) db = Some path" "repeatable statement"
  shows "DB_Exec drv db statement s = (case drv_fault drv (sq_tick s) of
     Some err \<Rightarrow> (Ret (Inl err), sql_tick s)
   | None \<Rightarrow> (Ret (Inr ()), (sql_tick s)\<lparr>sq_tables :=
       if starts_with ''PRAGMA '' statement then sq_tables s else ensure_table path (sq_tables s)\<rparr>))"
  using assms by (simp add: DB_Exec_def on_db_def driver_call_def run_ddl_tables try_bnd_def bnd_def split: option.split)

lemma initDatabase_run:
  assumes "map_of (sq_dbs s) db = Some path" "list_all repeatable ddl"
  shows "\<exists>r T t. initDatabase drv db ddl s = (Ret r, s\<lparr>sq_tables := T, sq_tick := t\<rparr>) \<and>
    T \<in> {sq_tables s, ensure_table path (sq_tables s)} \<and>
    (r = Inr () \<longrightarrow> T = (if list_all (starts_with ''PRAGMA '') ddl then sq_tables s else ensure_table path (sq_tables s))) \<and>
    (quiet_driver drv \<longrightarrow> r = Inr ())"
  using assms
proof (induction ddl arbitrary: s)
  case Nil
  show ?case
    by (rule exI [of _ "Inr ()"], rule exI [of _ "sq_tables s"], rule exI [of _ "sq_tick s"]) (simp add: initDatabase_def)
next
  case (Cons d ddl)
  note exec = DB_Exec_run [OF Cons.prems(1)] and d = Cons.prems(2) [unfolded list.pred_inject(2)]
  show ?case
  proof (cases "drv_fault drv (sq_tick s)")
    case (Some err)
    show ?thesis
      by (rule exI [of _ "Inl err"], rule exI [of _ "sq_tables s"], rule exI [of _ "Suc (sq_tick s)"])
         (use Some in \<open>auto simp: initDatabase_def try_bnd_Inl exec d sql_tick_def\<close>)
  next
    case None
    define T where "T = (if starts_with ''PRAGMA '' d then sq_tables s else ensure_table path (sq_tables s))"
    define s1 where "s1 = (sql_tick s)\<lparr>sq_tables := T\<rparr>"
    have run: "initDatabase drv db (d # ddl) s = initDatabase drv db ddl s1"
      using None by (simp add: initDatabase_def try_bnd_Inr exec d T_def s1_def)
    have "map_of (sq_dbs s1) db = Some path" "sq_tables s1 = T" using Cons.prems by (simp_all add: s1_def)
    from Cons.IH [OF this(1) conjunct2 [OF d], unfolded this(2)] obtain r U t where IH:
      "initDatabase drv db ddl s1 = (Ret r, s1\<lparr>sq_tables := U, sq_tick := t\<rparr>)"
      "U \<in> {T, ensure_table path T}" "quiet_driver drv \<longrightarrow> r = Inr ()"
      "r = Inr () \<longrightarrow> U = (if list_all (starts_with ''PRAGMA '') ddl then T else ensure_table path T)"
      by (elim exE conjE)
    have eq: "s1\<lparr>sq_tables := U, sq_tick := t\<rparr> = s\<lparr>sq_tables := U, sq_tick := t\<rparr>" by (simp add: s1_def sql_tick_def)
    have "U \<in> {sq_tables s, ensure_table path (sq_tables s)}"
      using IH(2) by (cases "starts_with ''PRAGMA '' d") (simp_all add: T_def)
    moreover have "r = Inr () \<longrightarrow> U = (if list_all (starts_with ''PRAGMA '') (d # ddl) then sq_tables s else ensure_table path (sq_tables s))"
      using IH(4) by (cases "starts_with ''PRAGMA '' d") (simp_all add: T_def)
    ultimately show ?thesis using run IH(1,3) eq by metis
  qed
qed

text \<open>
  A handle stays open after a failure only if the database could be opened and not be contacted.
\<close>

definition ping_fails :: "sql_driver \<Rightarrow> sql_state \<Rightarrow> bool" where
  "ping_fails drv s \<longleftrightarrow> drv_fault drv (sq_tick s) = None \<and> drv_fault drv (Suc (sq_tick s)) \<noteq> None"

lemma init_or_close:
  assumes dbs: "sq_dbs s = (h, path) # dbs" and kept: "filter (\<lambda>x. fst x \<noteq> h) dbs = dbs" "filter (\<lambda>x. fst (snd x) \<noteq> h) (sq_stmts s) = sq_stmts s"
  shows "\<exists>r T t. bnd (initDatabase drv h schemaDDL) (\<lambda>r. case r of
        Inl err \<Rightarrow> bnd (DB_Close drv h) (\<lambda>_. ret (Inl err)) | Inr _ \<Rightarrow> ret (Inr h)) s =
      (Ret r, s\<lparr>sq_tables := T, sq_tick := t, sq_dbs := (if r = Inr h then [(h, path)] else []) @ dbs\<rparr>) \<and>
    T \<in> {sq_tables s, ensure_table path (sq_tables s)} \<and> (\<forall>db. r = Inr db \<longrightarrow> db = h \<and> T = ensure_table path (sq_tables s)) \<and>
    (quiet_driver drv \<longrightarrow> r = Inr h)"
proof -
  have "map_of (sq_dbs s) h = Some path" by (simp add: dbs)
  from initDatabase_run [OF this schema_repeatable, of drv] schema_creates obtain r T t where
    init: "initDatabase drv h schemaDDL s = (Ret r, s\<lparr>sq_tables := T, sq_tick := t\<rparr>)"
    and T: "T \<in> {sq_tables s, ensure_table path (sq_tables s)}"
      "r = Inr () \<longrightarrow> T = ensure_table path (sq_tables s)" "quiet_driver drv \<longrightarrow> r = Inr ()"
    by auto
  note run = bnd_Ret [where m = "initDatabase drv h schemaDDL", OF init]
  show ?thesis
  proof (cases r)
    case (Inr u)
    show ?thesis
      by (rule exI [of _ "Inr h"], rule exI [of _ T], rule exI [of _ t], unfold run) (use T Inr dbs in simp)
  next
    case (Inl err)
    have "\<exists>x. DB_Close drv h (s\<lparr>sq_tables := T, sq_tick := t\<rparr>) = (Ret x, s\<lparr>sq_tables := T, sq_tick := Suc t, sq_dbs := dbs\<rparr>)"
      by (simp add: DB_Close_def driver_close_def dbs kept sql_tick_def)
    then obtain x where close: "DB_Close drv h (s\<lparr>sq_tables := T, sq_tick := t\<rparr>) = (Ret x, s\<lparr>sq_tables := T, sq_tick := Suc t, sq_dbs := dbs\<rparr>)" by blast
    show ?thesis
      by (rule exI [of _ "Inl err"], rule exI [of _ T], rule exI [of _ "Suc t"], unfold run)
         (use T in \<open>simp add: Inl bnd_Ret [where m = "DB_Close drv h", OF close]\<close>)
  qed
qed

lemma newSqliteDb_run:
  assumes wf: "sql_wf s"
  shows "\<exists>r T t n. newSqliteDb drv path schemaDDL s = (Ret r, s\<lparr>sq_tables := T, sq_tick := t, sq_next := n,
      sq_dbs := (if r = Inr (sq_next s) \<or> ping_fails drv s then [(sq_next s, path)] else []) @ sq_dbs s\<rparr>) \<and>
    T \<in> {sq_tables s, ensure_table path (sq_tables s)} \<and> sq_next s \<le> n \<and>
    (\<forall>db. r = Inr db \<longrightarrow> db = sq_next s \<and> n = Suc (sq_next s) \<and> T = ensure_table path (sq_tables s)) \<and>
    (ping_fails drv s \<longrightarrow> n = Suc (sq_next s) \<and> (\<exists>err. r = Inl err)) \<and> (quiet_driver drv \<longrightarrow> (\<exists>db. r = Inr db))"
proof (cases "drv_fault drv (sq_tick s)")
  case (Some err)
  show ?thesis
    by (rule exI [of _ "Inl err"], rule exI [of _ "sq_tables s"], rule exI [of _ "Suc (sq_tick s)"], rule exI [of _ "sq_next s"])
       (use Some in \<open>auto simp: newSqliteDb_def sql_Open_def driver_call_def try_bnd_def bnd_def ping_fails_def sql_tick_def\<close>)
next
  case None
  let ?h = "sq_next s"
  let ?s1 = "(sql_tick s)\<lparr>sq_dbs := (?h, path) # sq_dbs s, sq_next := Suc ?h\<rparr>"
  have open1: "sql_Open drv path s = (Ret (Inr ?h), ?s1)" using None by (simp add: sql_Open_def driver_call_def)
  have new: "newSqliteDb drv path schemaDDL s = try_bnd (DB_Ping drv ?h) (\<lambda>_. bnd (initDatabase drv ?h schemaDDL) (\<lambda>r. case r of
      Inl err \<Rightarrow> bnd (DB_Close drv ?h) (\<lambda>_. ret (Inl err)) | Inr _ \<Rightarrow> ret (Inr ?h))) ?s1"
    unfolding newSqliteDb_def by (rule try_bnd_Inr [where m = "sql_Open drv path", OF open1])
  show ?thesis
  proof (cases "drv_fault drv (Suc (sq_tick s))")
    case (Some err)
    have ping: "DB_Ping drv ?h ?s1 = (Ret (Inl err), sql_tick ?s1)"
      using Some by (simp add: DB_Ping_def on_db_def driver_call_def)
    note run = new [unfolded try_bnd_Inl [where m = "DB_Ping drv ?h", OF ping]]
    show ?thesis
      by (rule exI [of _ "Inl err"], rule exI [of _ "sq_tables s"], rule exI [of _ "Suc (Suc (sq_tick s))"], rule exI [of _ "Suc ?h"], unfold run)
         (use None Some in \<open>auto simp: ping_fails_def sql_tick_def\<close>)
  next
    case ok: None
    have ping: "DB_Ping drv ?h ?s1 = (Ret (Inr ()), sql_tick ?s1)"
      using ok by (simp add: DB_Ping_def on_db_def driver_call_def)
    have np: "\<not> ping_fails drv s" using ok by (simp add: ping_fails_def)
    have kept: "filter (\<lambda>x. fst x \<noteq> ?h) (sq_dbs s) = sq_dbs s" "filter (\<lambda>x. fst (snd x) \<noteq> ?h) (sq_stmts s) = sq_stmts s"
      by (rule filter_fresh, use sql_wf_fresh [OF wf] in \<open>simp add: comp_def\<close>)+
    have s1: "sq_dbs (sql_tick ?s1) = (?h, path) # sq_dbs s" "sq_stmts (sql_tick ?s1) = sq_stmts s" "sq_tables (sql_tick ?s1) = sq_tables s" by simp_all
    have stmts: "filter (\<lambda>x. fst (snd x) \<noteq> ?h) (sq_stmts (sql_tick ?s1)) = sq_stmts (sql_tick ?s1)" using kept(2) by simp
    from new [unfolded try_bnd_Inr [where m = "DB_Ping drv ?h", OF ping]] init_or_close [OF s1(1) kept(1) stmts, of drv, unfolded s1(3)]
    obtain r T t where init: "newSqliteDb drv path schemaDDL s =
        (Ret r, (sql_tick ?s1)\<lparr>sq_tables := T, sq_tick := t, sq_dbs := (if r = Inr ?h then [(?h, path)] else []) @ sq_dbs s\<rparr>)"
      "T \<in> {sq_tables s, ensure_table path (sq_tables s)}" "\<forall>db. r = Inr db \<longrightarrow> db = ?h \<and> T = ensure_table path (sq_tables s)"
      "quiet_driver drv \<longrightarrow> r = Inr ?h"
      by (elim exE conjE) (rule that, erule trans)
    have "(sql_tick ?s1)\<lparr>sq_tables := T, sq_tick := t, sq_dbs := dbs\<rparr> = s\<lparr>sq_tables := T, sq_tick := t, sq_next := Suc ?h, sq_dbs := dbs\<rparr>" for dbs
      by (simp add: sql_tick_def)
    with init np show ?thesis
      by (intro exI [of _ r] exI [of _ T] exI [of _ t] exI [of _ "Suc ?h"]) (simp only: simp_thms, blast intro: le_SucI order_refl)
  qed
qed

section \<open>Preparing the statements\<close>

definition all_fields :: "stmt_field list" where
  "all_fields = [F_getDirEntriesStmt, F_getInodeStmt, F_getFullEntryStmt, F_updateEntryStmt, F_putNewEntryStmt,
     F_putFileInfoStmt, F_putContentHashStmt, F_putSymlinkTargetStmt, F_putDirEntriesStmt]"

fun stmt_query :: "stmt_field \<Rightarrow> string" where
  "stmt_query F_getDirEntriesStmt = ''SELECT dirEntries FROM paths WHERE ROWID = ?''"
| "stmt_query F_getInodeStmt = ''SELECT ROWID FROM paths WHERE path = ?''"
| "stmt_query F_getFullEntryStmt =
     ''SELECT ROWID, type, mode, size, mtime_nsec, dirEntries, contentHash, target FROM paths WHERE path = ?''"
| "stmt_query F_updateEntryStmt = ''UPDATE paths SET type = ? WHERE path = ?''"
| "stmt_query F_putNewEntryStmt = ''INSERT INTO paths (path, type) VALUES (?, ?)''"
| "stmt_query F_putFileInfoStmt = ''UPDATE paths SET mode = ?, size = ?, mtime_nsec = ? WHERE ROWID = ?''"
| "stmt_query F_putContentHashStmt = ''UPDATE paths SET contentHash = ? WHERE ROWID = ?''"
| "stmt_query F_putSymlinkTargetStmt = ''UPDATE paths SET target = ? WHERE ROWID = ?''"
| "stmt_query F_putDirEntriesStmt = ''UPDATE paths SET dirEntries = ? WHERE ROWID = ?''"

lemma all_fields_complete [simp]: "f \<in> set all_fields"
  by (cases f) (simp_all add: all_fields_def)

text \<open>
  While the statements are prepared: what was there is still there below the new statements, and as long as
  no error occurred the new statements are those of the results so far.
\<close>

definition prep_inv :: "sql_driver \<Rightarrow> sql_state \<Rightarrow> nat \<Rightarrow> (nat option \<times> string) list \<Rightarrow> sql_state \<times> error option \<Rightarrow> bool" where
  "prep_inv drv s0 db rs se = (case se of (s, e) \<Rightarrow>
     sq_tables s = sq_tables s0 \<and> sq_dbs s = sq_dbs s0 \<and> (quiet_driver drv \<longrightarrow> e = None) \<and> sq_next s0 \<le> sq_next s \<and>
     (\<exists>new. sq_stmts s = new @ sq_stmts s0 \<and> distinct (map fst new) \<and>
       list_all (\<lambda>(st, h, _). h = db \<and> sq_next s0 \<le> st \<and> st < sq_next s) new \<and>
       (e = None \<longrightarrow> map (\<lambda>(st, _, q). (Some st, q)) (rev new) = rs)))"

lemma prep_inv_start: "prep_inv drv s db [] (s, None)"
  by (simp add: prep_inv_def)

lemma prepareStmt_inv:
  assumes "map_of (sq_dbs s0) db = Some path"
  shows "returns (prep_inv drv s0 db rs) (prepareStmt drv db q) (\<lambda>r. prep_inv drv s0 db (rs @ [(r, q)]))"
proof (rule returnsI)
  fix se
  assume inv: "prep_inv drv s0 db rs se"
  obtain s e where se: "se = (s, e)" by (cases se)
  note inv = inv [unfolded se prep_inv_def prod.case]
  then obtain new where new: "sq_stmts s = new @ sq_stmts s0" "distinct (map fst new)"
    "list_all (\<lambda>(st, h, _). h = db \<and> sq_next s0 \<le> st \<and> st < sq_next s) new"
    "e = None \<longrightarrow> map (\<lambda>(st, _, q). (Some st, q)) (rev new) = rs" by blast
  have live: "map_of (sq_dbs s) db = Some path" using inv assms by simp
  show "\<exists>r t. prepareStmt drv db q se = (Ret r, t) \<and> prep_inv drv s0 db (rs @ [(r, q)]) t"
  proof (cases "e = None \<and> drv_fault drv (sq_tick s) = None")
    case True
    let ?t = "(sql_tick s)\<lparr>sq_stmts := (sq_next s, db, q) # sq_stmts s, sq_next := Suc (sq_next s)\<rparr>"
    have "prepareStmt drv db q se = (Ret (Some (sq_next s)), (?t, None))"
      using True live by (simp add: se prepareStmt_def RetriablePrepare_def DB_Prepare_def on_db_def driver_call_def
        try_bnd_def bnd_def zoom_def)
    moreover have "sq_next s \<notin> fst ` set new" using new(3) by (auto simp: list_all_iff)
    then have "prep_inv drv s0 db (rs @ [(Some (sq_next s), q)]) (?t, None)"
      unfolding prep_inv_def prod.case using inv new True
      by (intro conjI exI [of _ "(sq_next s, db, q) # new"]) (auto simp: list_all_iff)
    ultimately show ?thesis by blast
  next
    case False
    then have "\<not> quiet_driver drv" using inv by auto
    moreover have "\<exists>s' err. prepareStmt drv db q se = (Ret None, (s', Some err)) \<and> (s' = s \<or> s' = sql_tick s)"
      using False live
      by (cases e) (auto simp: se prepareStmt_def RetriablePrepare_def DB_Prepare_def on_db_def driver_call_def
        try_bnd_def bnd_def zoom_def)
    ultimately obtain s' err where "prepareStmt drv db q se = (Ret None, (s', Some err))" "s' = s \<or> s' = sql_tick s"
      "\<not> quiet_driver drv" by blast
    then show ?thesis using inv new by (auto simp: prep_inv_def)
  qed
qed

lemma prepare_all_inv:
  assumes "map_of (sq_dbs s0) db = Some path"
  shows "returns (prep_inv drv s0 db []) (prepare_all drv db)
    (\<lambda>c se. mc_db c = db \<and> prep_inv drv s0 db (map (\<lambda>f. (load_stmt f c, stmt_query f)) all_fields) se)"
  unfolding prepare_all_def
  by (rule returns_bnd [OF prepareStmt_inv [OF assms]])+ (rule returns_ret, simp add: all_fields_def)

section \<open>An open cache\<close>

definition cache_open :: "string \<Rightarrow> MetadataCache \<Rightarrow> sql_state \<Rightarrow> bool" where
  "cache_open path c s \<longleftrightarrow> map_of (sq_dbs s) (mc_db c) = Some path \<and>
     list_all (\<lambda>f. case load_stmt f c of None \<Rightarrow> False | Some st \<Rightarrow> map_of (sq_stmts s) st = Some (mc_db c, stmt_query f)) all_fields"

lemma prepared_open:
  assumes inv: "prep_inv drv s0 db (map (\<lambda>f. (load_stmt f c, stmt_query f)) all_fields) (s, None)" and db: "mc_db c = db"
    and path: "map_of (sq_dbs s0) db = Some path"
  shows "cache_open path c s"
proof -
  from inv obtain new where new: "sq_stmts s = new @ sq_stmts s0" "distinct (map fst new)"
    "list_all (\<lambda>(st, h, _). h = db \<and> sq_next s0 \<le> st \<and> st < sq_next s) new"
    "map (\<lambda>(st, _, q). (Some st, q)) (rev new) = map (\<lambda>f. (load_stmt f c, stmt_query f)) all_fields"
    by (auto simp: prep_inv_def)
  have "case load_stmt f c of None \<Rightarrow> False | Some st \<Rightarrow> map_of (sq_stmts s) st = Some (mc_db c, stmt_query f)" for f
  proof -
    have "(load_stmt f c, stmt_query f) \<in> set (map (\<lambda>(st, _, q). (Some st, q)) (rev new))" unfolding new(4) by simp
    then obtain st h where st: "(st, h, stmt_query f) \<in> set new" "load_stmt f c = Some st" by auto
    then have "h = db" using new(3) by (auto simp: list_all_iff)
    with st have "map_of (sq_stmts s) st = Some (db, stmt_query f)"
      using new(1,2) by (simp add: map_add_Some_iff)
    with st(2) db show ?thesis by simp
  qed
  then have "list_all (\<lambda>f. case load_stmt f c of None \<Rightarrow> False | Some st \<Rightarrow> map_of (sq_stmts s) st = Some (mc_db c, stmt_query f)) all_fields"
    unfolding list_all_iff by blast
  then show ?thesis using inv path db by (simp add: cache_open_def prep_inv_def)
qed

text \<open>Opening a cache succeeds as a whole or leaves no statement behind; no table loses a row.\<close>

lemma prep_inv_wf:
  assumes inv: "prep_inv drv s0 db rs (s, e)" and wf: "sql_wf s0" and db: "db \<in> fst ` set (sq_dbs s0)"
  shows "sql_wf s"
proof -
  from inv obtain new where new: "sq_stmts s = new @ sq_stmts s0" "distinct (map fst new)"
    "list_all (\<lambda>(st, h, _). h = db \<and> sq_next s0 \<le> st \<and> st < sq_next s) new" "sq_next s0 \<le> sq_next s" "sq_dbs s = sq_dbs s0"
    by (auto simp: prep_inv_def)
  have "list_all (\<lambda>(st, h, _). st < sq_next s0 \<and> h \<in> fst ` set (sq_dbs s0)) (sq_stmts s0)" using wf by (simp add: sql_wf_def)
  with new(3) have "fst ` set new \<inter> fst ` set (sq_stmts s0) = {}"
    by (force simp: list_all_iff)
  moreover have "list_all (\<lambda>(st, h, _). st < sq_next s \<and> h \<in> fst ` set (sq_dbs s)) (sq_stmts s)"
    unfolding new(1,5) list_all_append
  proof
    show "list_all (\<lambda>(st, h, _). st < sq_next s \<and> h \<in> fst ` set (sq_dbs s0)) new"
      by (rule list.pred_mono_strong [OF new(3)]) (use db in auto)
    show "list_all (\<lambda>(st, h, _). st < sq_next s \<and> h \<in> fst ` set (sq_dbs s0)) (sq_stmts s0)"
      by (rule list.pred_mono_strong [of "\<lambda>(st, h, _). st < sq_next s0 \<and> h \<in> fst ` set (sq_dbs s0)"])
         (use wf new(4) in \<open>auto simp: sql_wf_def\<close>)
  qed
  moreover have "list_all (\<lambda>(h, _). h < sq_next s) (sq_dbs s)"
    unfolding new(5) by (rule list.pred_mono_strong [of "\<lambda>(h, _). h < sq_next s0"]) (use wf new(4) in \<open>auto simp: sql_wf_def\<close>)
  moreover have "distinct (map fst (sq_dbs s))" "distinct (map fst (sq_stmts s0))" using wf new(5) by (simp_all add: sql_wf_def)
  ultimately show ?thesis using new(1,2) by (simp add: sql_wf_def)
qed

lemma DB_Close_run:
  assumes "map_of (sq_dbs s) db = Some path"
  obtains x where "DB_Close drv db s = (Ret x, (sql_tick s)\<lparr>sq_dbs := filter (\<lambda>x. fst x \<noteq> db) (sq_dbs s),
      sq_stmts := filter (\<lambda>x. fst (snd x) \<noteq> db) (sq_stmts s)\<rparr>)" "quiet_driver drv \<longrightarrow> x = Inr ()"
  using assms by (auto simp: DB_Close_def driver_close_def)

lemma DB_Close_wf:
  assumes "sql_wf s"
  shows "sql_wf (s\<lparr>sq_dbs := filter (\<lambda>x. fst x \<noteq> db) (sq_dbs s), sq_stmts := filter (\<lambda>x. fst (snd x) \<noteq> db) (sq_stmts s)\<rparr>)"
proof -
  have "list_all (\<lambda>(st, h, _). st < sq_next s \<and> h \<in> fst ` set (filter (\<lambda>x. fst x \<noteq> db) (sq_dbs s)))
      (filter (\<lambda>x. fst (snd x) \<noteq> db) (sq_stmts s))"
    unfolding list_all_iff
  proof
    fix x
    assume "x \<in> set (filter (\<lambda>x. fst (snd x) \<noteq> db) (sq_stmts s))"
    then have x: "x \<in> set (sq_stmts s)" "fst (snd x) \<noteq> db" by simp_all
    from sql_wf_db [OF assms x(1)] obtain y where "fst x < sq_next s" "y \<in> set (sq_dbs s)" "fst (snd x) = fst y" by blast
    with x(2) show "case x of (st, h, _) \<Rightarrow> st < sq_next s \<and> h \<in> fst ` set (filter (\<lambda>x. fst x \<noteq> db) (sq_dbs s))"
      by (auto simp: case_prod_beta)
  qed
  moreover have "distinct (map fst (sq_dbs s))" "distinct (map fst (sq_stmts s))" "list_all (\<lambda>(h, _). h < sq_next s) (sq_dbs s)"
    using assms by (simp_all add: sql_wf_def)
  moreover from this(3) have "list_all (\<lambda>(h, _). h < sq_next s) (filter (\<lambda>x. fst x \<noteq> db) (sq_dbs s))"
    by (simp add: list_all_iff)
  ultimately show ?thesis by (simp add: sql_wf_def distinct_map_filter)
qed

lemma opened_wf:
  assumes wf: "sql_wf s" and n: "sq_next s \<le> n" "b \<Longrightarrow> n = Suc (sq_next s)"
  shows "sql_wf (s\<lparr>sq_tables := T, sq_tick := t, sq_next := n, sq_dbs := (if b then [(sq_next s, path)] else []) @ sq_dbs s\<rparr>)"
proof -
  have "list_all (\<lambda>(h, _). h < n) (sq_dbs s)"
    by (rule list.pred_mono_strong [of "\<lambda>(h, _). h < sq_next s"]) (use wf n in \<open>auto simp: sql_wf_def\<close>)
  moreover have "list_all (\<lambda>(st, h, _). st < n \<and> h \<in> fst ` set ((if b then [(sq_next s, path)] else []) @ sq_dbs s)) (sq_stmts s)"
    by (rule list.pred_mono_strong [of "\<lambda>(st, h, _). st < sq_next s \<and> h \<in> fst ` set (sq_dbs s)"]) (use wf n in \<open>auto simp: sql_wf_def\<close>)
  ultimately show ?thesis using wf n sql_wf_fresh(1) [OF wf] by (simp add: sql_wf_def)
qed

text \<open>Preparing all statements on a handle: what is prepared stands for the fields of the cache object.\<close>

lemma prepare_run:
  assumes wf: "sql_wf s1" and path: "map_of (sq_dbs s1) db = Some path"
  obtains c e s2 where "with_local None (prepare_all drv db) s1 = (Ret (c, e), s2)" "mc_db c = db" "sql_wf s2"
    "sq_dbs s2 = sq_dbs s1" "sq_tables s2 = sq_tables s1" "quiet_driver drv \<longrightarrow> e = None" "e = None \<longrightarrow> cache_open path c s2"
    "filter (\<lambda>x. fst (snd x) \<noteq> db) (sq_stmts s2) = filter (\<lambda>x. fst (snd x) \<noteq> db) (sq_stmts s1)"
proof -
  obtain c t2 where t2: "prepare_all drv db (s1, None) = (Ret c, t2)"
    "mc_db c = db \<and> prep_inv drv s1 db (map (\<lambda>f. (load_stmt f c, stmt_query f)) all_fields) t2"
    by (rule returnsE [OF prepare_all_inv [OF path] prep_inv_start])
  obtain s2 e where split: "t2 = (s2, e)" by (cases t2)
  have db: "mc_db c = db" and inv: "prep_inv drv s1 db (map (\<lambda>f. (load_stmt f c, stmt_query f)) all_fields) (s2, e)"
    using t2(2) unfolding split by blast+
  have "db \<in> fst ` set (sq_dbs s1)" using path by (force dest: map_of_SomeD)
  then have "sql_wf s2" by (rule prep_inv_wf [OF inv wf])
  moreover have "sq_dbs s2 = sq_dbs s1" "sq_tables s2 = sq_tables s1" "quiet_driver drv \<longrightarrow> e = None"
    using inv by (simp_all add: prep_inv_def)
  moreover from inv obtain new where "sq_stmts s2 = new @ sq_stmts s1" "\<forall>x\<in>set new. fst (snd x) = db"
    by (fastforce simp: prep_inv_def list_all_iff)
  then have "filter (\<lambda>x. fst (snd x) \<noteq> db) (sq_stmts s2) = filter (\<lambda>x. fst (snd x) \<noteq> db) (sq_stmts s1)" by simp
  moreover have "e = None \<longrightarrow> cache_open path c s2" using prepared_open [OF _ db path] inv by blast
  moreover have "with_local None (prepare_all drv db) s1 = (Ret (c, e), s2)" by (simp only: with_local_def t2(1) split prod.case outcome.case)
  ultimately show ?thesis using db that by blast
qed

lemma NewMetadataCache_run:
  assumes wf: "sql_wf s"
  shows "\<exists>r s'. NewMetadataCache drv path s = (Ret r, s') \<and> sql_wf s' \<and>
    sq_tables s' \<in> {sq_tables s, ensure_table path (sq_tables s)} \<and> (quiet_driver drv \<longrightarrow> (\<exists>c. r = Inr c)) \<and>
    (case r of
       Inl _ \<Rightarrow> sq_stmts s' = sq_stmts s \<and> sq_dbs s' = (if ping_fails drv s then [(sq_next s, path)] else []) @ sq_dbs s
     | Inr c \<Rightarrow> cache_open path c s' \<and> sq_tables s' = ensure_table path (sq_tables s) \<and> sq_dbs s' = (mc_db c, path) # sq_dbs s \<and>
         mc_db c = sq_next s \<and> filter (\<lambda>x. fst (snd x) \<noteq> mc_db c) (sq_stmts s') = sq_stmts s)"
proof -
  obtain r T t n where new: "newSqliteDb drv path schemaDDL s = (Ret r, s\<lparr>sq_tables := T, sq_tick := t, sq_next := n,
      sq_dbs := (if r = Inr (sq_next s) \<or> ping_fails drv s then [(sq_next s, path)] else []) @ sq_dbs s\<rparr>)" (is "_ = (_, ?s1)")
    and T: "T \<in> {sq_tables s, ensure_table path (sq_tables s)}" "sq_next s \<le> n"
    and ok: "\<forall>db. r = Inr db \<longrightarrow> db = sq_next s \<and> n = Suc (sq_next s) \<and> T = ensure_table path (sq_tables s)"
      "ping_fails drv s \<longrightarrow> n = Suc (sq_next s) \<and> (\<exists>err. r = Inl err)" "quiet_driver drv \<longrightarrow> (\<exists>db. r = Inr db)"
    using newSqliteDb_run [OF wf, of drv path] by (elim exE conjE)
  have wf1: "sql_wf ?s1"
    by (rule opened_wf [OF wf]) (use T(2) ok(1,2) in auto)
  show ?thesis
  proof (cases r)
    case (Inl err)
    have run: "NewMetadataCache drv path s = (Ret (Inl err), ?s1)"
      unfolding NewMetadataCache_def by (rule try_bnd_Inl) (use new Inl in simp)
    show ?thesis unfolding run using wf1 T(1) ok(3) Inl by auto
  next
    case (Inr db)
    then have db: "db = sq_next s" "T = ensure_table path (sq_tables s)" "n = Suc (sq_next s)" "\<not> ping_fails drv s" using ok by auto
    have s1: "map_of (sq_dbs ?s1) db = Some path" "sq_dbs ?s1 = (db, path) # sq_dbs s" using Inr db by simp_all
    obtain c e s2 where s2: "with_local None (prepare_all drv db) ?s1 = (Ret (c, e), s2)" "mc_db c = db" "sql_wf s2"
      "sq_dbs s2 = sq_dbs ?s1" "sq_tables s2 = sq_tables ?s1" "quiet_driver drv \<longrightarrow> e = None" "e = None \<longrightarrow> cache_open path c s2"
      "filter (\<lambda>x. fst (snd x) \<noteq> db) (sq_stmts s2) = filter (\<lambda>x. fst (snd x) \<noteq> db) (sq_stmts ?s1)"
      by (rule prepare_run [OF wf1 s1(1)])
    have "newSqliteDb drv path schemaDDL s = (Ret (Inr db), ?s1)" using new Inr by simp
    then have run: "NewMetadataCache drv path s = (case e of Some err \<Rightarrow> bnd (DB_Close drv db) (\<lambda>_. ret (Inl err)) | None \<Rightarrow> ret (Inr c)) s2"
      unfolding NewMetadataCache_def by (simp only: try_bnd_Inr [where m = "newSqliteDb drv path schemaDDL"]
        bnd_Ret [where m = "with_local None (prepare_all drv db)", OF s2(1)] prod.case)
    have "filter (\<lambda>x. fst x \<noteq> db) (sq_dbs s) = sq_dbs s" "filter (\<lambda>x. fst (snd x) \<noteq> db) (sq_stmts s) = sq_stmts s"
      unfolding db(1) by (rule filter_fresh, use sql_wf_fresh [OF wf] in \<open>simp add: comp_def\<close>)+
    then have kept: "filter (\<lambda>x. fst x \<noteq> db) (sq_dbs s) = sq_dbs s" "filter (\<lambda>x. fst (snd x) \<noteq> db) (sq_stmts s2) = sq_stmts s"
      using s2(8) by simp_all
    show ?thesis
    proof (cases e)
      case None
      then show ?thesis using run s2 s1(2) kept db by auto
    next
      case (Some err)
      have "map_of (sq_dbs s2) db = Some path" using s2(4) s1(1) by simp
      then obtain x where "DB_Close drv db s2 = (Ret x, (sql_tick s2)\<lparr>sq_dbs := filter (\<lambda>x. fst x \<noteq> db) (sq_dbs s2),
          sq_stmts := filter (\<lambda>x. fst (snd x) \<noteq> db) (sq_stmts s2)\<rparr>)" (is "_ = (_, ?s3)") by (rule DB_Close_run)
      moreover have "sql_wf ?s3" using DB_Close_wf [of "sql_tick s2" db] s2(3) by (simp add: sql_wf_def)
      ultimately show ?thesis using run Some s2(4-6) s1(2) kept db T(1) by (auto simp: bnd_Ret)
    qed
  qed
qed

section \<open>Closing\<close>

text \<open>
  The statements that a cache object still refers to were prepared on its handle. What a cache object
  holds open is its statements and its handle.
\<close>

definition owns_stmts :: "MetadataCache \<Rightarrow> sql_state \<Rightarrow> bool" where
  "owns_stmts c s \<longleftrightarrow> (\<forall>f st h q. load_stmt f c = Some st \<longrightarrow> map_of (sq_stmts s) st = Some (h, q) \<longrightarrow> h = mc_db c)"

definition held :: "nat \<Rightarrow> sql_state \<Rightarrow> nat" where
  "held db s = length (filter (\<lambda>x. fst (snd x) = db) (sq_stmts s)) + length (filter (\<lambda>x. fst x = db) (sq_dbs s))"

lemma cache_open_field:
  assumes "cache_open path c s"
  obtains st where "load_stmt f c = Some st" "map_of (sq_stmts s) st = Some (mc_db c, stmt_query f)"
proof -
  from assms have "\<forall>f\<in>set all_fields. case load_stmt f c of None \<Rightarrow> False
      | Some st \<Rightarrow> map_of (sq_stmts s) st = Some (mc_db c, stmt_query f)"
    by (simp add: cache_open_def list_all_iff)
  from bspec [OF this all_fields_complete [of f]] show ?thesis using that by (cases "load_stmt f c") simp_all
qed

lemma cache_open_owns: "cache_open path c s \<Longrightarrow> owns_stmts c s"
  unfolding owns_stmts_def by (metis cache_open_field fst_conv option.inject)

lemma load_store_stmt [simp]:
  "load_stmt f (store_stmt f' v c) = (if f = f' then v else load_stmt f c)" "mc_db (store_stmt f' v c) = mc_db c"
  by (cases f; cases f'; simp)+

lemma store_all_None:
  assumes "\<And>f. load_stmt f c = None"
  shows "c = \<lparr>mc_db = mc_db c, mc_getDirEntriesStmt = None, mc_getInodeStmt = None, mc_getFullEntryStmt = None,
    mc_updateEntryStmt = None, mc_putNewEntryStmt = None, mc_putFileInfoStmt = None, mc_putContentHashStmt = None,
    mc_putSymlinkTargetStmt = None, mc_putDirEntriesStmt = None\<rparr>"
  using assms [of F_getDirEntriesStmt] assms [of F_getInodeStmt] assms [of F_getFullEntryStmt] assms [of F_updateEntryStmt]
    assms [of F_putNewEntryStmt] assms [of F_putFileInfoStmt] assms [of F_putContentHashStmt] assms [of F_putSymlinkTargetStmt]
    assms [of F_putDirEntriesStmt] by (cases c) simp

text \<open>
  After closing the statements of some fields, starting without an error: only statements of the cache's
  handle are gone; without an error the fields are empty; with an error fewer statements are left.
\<close>

definition close_post ::
  "sql_driver \<Rightarrow> sql_state \<times> MetadataCache \<Rightarrow> stmt_field set \<Rightarrow> (sql_state \<times> MetadataCache) \<times> error option \<Rightarrow> bool" where
  "close_post drv sc fs sce = (case (sc, sce) of ((s, c), ((s', c'), e)) \<Rightarrow>
     sq_tables s' = sq_tables s \<and> sq_dbs s' = sq_dbs s \<and> sq_next s' = sq_next s \<and> mc_db c' = mc_db c \<and> (sql_wf s \<longrightarrow> sql_wf s') \<and>
     owns_stmts c' s' \<and> (quiet_driver drv \<longrightarrow> e = None) \<and>
     (\<exists>P. sq_stmts s' = filter P (sq_stmts s) \<and> (\<forall>x\<in>set (sq_stmts s). fst (snd x) \<noteq> mc_db c \<longrightarrow> P x)) \<and>
     (\<forall>f. load_stmt f c' = load_stmt f c \<or> load_stmt f c' = None) \<and>
     (case e of None \<Rightarrow> (\<forall>f\<in>fs. load_stmt f c' = None) | Some _ \<Rightarrow> held (mc_db c) s' < held (mc_db c) s))"

lemma closeStmt_after_error: "closeStmt drv f (sc, Some err) = (Ret (), (sc, Some err))"
  by (cases sc) (simp add: closeStmt_def split: option.split)

lemma filter_stmts_wf: "sql_wf s \<Longrightarrow> sql_wf (s\<lparr>sq_stmts := filter P (sq_stmts s)\<rparr>)"
  by (auto simp: sql_wf_def list_all_iff distinct_map_filter)

lemma owns_filter: "owns_stmts c s \<Longrightarrow> distinct (map fst (sq_stmts s)) \<Longrightarrow> owns_stmts c (s\<lparr>sq_stmts := filter P (sq_stmts s)\<rparr>)"
  unfolding owns_stmts_def by (simp add: map_of_eq_Some_iff distinct_map_filter) blast

lemma closeStmt_post:
  assumes wf: "sql_wf s" and own: "owns_stmts c s"
  shows "\<exists>sce. closeStmt drv f ((s, c), None) = (Ret (), sce) \<and> close_post drv (s, c) {f} sce"
proof (cases "load_stmt f c")
  case None
  then have "closeStmt drv f ((s, c), None) = (Ret (), ((s, c), None))" by (simp add: closeStmt_def)
  then show ?thesis using own None by (auto simp: close_post_def intro!: exI [of _ "\<lambda>_. True"])
next
  case (Some st)
  let ?c = "store_stmt f None c"
  have own': "owns_stmts ?c t" if "owns_stmts c t" for t using that by (auto simp: owns_stmts_def)
  show ?thesis
  proof (cases "map_of (sq_stmts s) st")
    case None
    with Some have "closeStmt drv f ((s, c), None) = (Ret (), ((s, ?c), None))"
      by (simp add: closeStmt_def Stmt_Close_def bnd_def zoom_def)
    then show ?thesis using own' [OF own] by (auto simp: close_post_def intro!: exI [of _ "\<lambda>_. True"])
  next
    case stmt: (Some hq)
    obtain q where hq: "hq = (mc_db c, q)" using own Some stmt unfolding owns_stmts_def by (cases hq) blast
    let ?s = "(sql_tick s)\<lparr>sq_stmts := filter (\<lambda>x. fst x \<noteq> st) (sq_stmts s)\<rparr>"
    let ?e = "drv_fault drv (sq_tick s)"
    have run: "closeStmt drv f ((s, c), None) = (Ret (), ((?s, case ?e of None \<Rightarrow> ?c | Some _ \<Rightarrow> c), ?e))"
      using Some stmt by (simp add: closeStmt_def Stmt_Close_def driver_close_def bnd_def zoom_def split: option.split)
    have d: "distinct (map fst (sq_stmts s))" using wf by (simp add: sql_wf_def)
    have in_s: "(st, mc_db c, q) \<in> set (sq_stmts s)" using stmt hq by (simp add: map_of_SomeD)
    have keep: "\<forall>x\<in>set (sq_stmts s). fst (snd x) \<noteq> mc_db c \<longrightarrow> fst x \<noteq> st"
    proof (intro ballI impI notI)
      fix x assume "x \<in> set (sq_stmts s)" "fst (snd x) \<noteq> mc_db c" "fst x = st"
      with map_of_is_SomeI [OF d, of st "snd x"] stmt hq show False by (cases x) auto
    qed
    have "owns_stmts c ?s" using owns_filter [OF own d] by (simp add: owns_stmts_def)
    moreover have "sql_wf ?s" using filter_stmts_wf [OF wf] by (simp add: sql_wf_def)
    moreover have "held (mc_db c) ?s < held (mc_db c) s"
    proof -
      have "filter (\<lambda>x. fst (snd x) = mc_db c) (filter (\<lambda>x. fst x \<noteq> st) (sq_stmts s)) =
          filter (\<lambda>x. fst x \<noteq> st) (filter (\<lambda>x. fst (snd x) = mc_db c) (sq_stmts s))" by (simp add: conj_commute)
      moreover have "length (filter (\<lambda>x. fst x \<noteq> st) (filter (\<lambda>x. fst (snd x) = mc_db c) (sq_stmts s))) <
          length (filter (\<lambda>x. fst (snd x) = mc_db c) (sq_stmts s))"
        by (rule length_filter_less [of "(st, mc_db c, q)"]) (use in_s in auto)
      ultimately show ?thesis by (simp only: held_def) simp
    qed
    ultimately have "close_post drv (s, c) {f} ((?s, case ?e of None \<Rightarrow> ?c | Some _ \<Rightarrow> c), ?e)"
      using keep own' [of ?s]
      by (cases ?e) (auto simp: close_post_def intro!: exI [of _ "\<lambda>x. fst x \<noteq> st"])
    with run show ?thesis by blast
  qed
qed

lemma close_post_trans:
  assumes "close_post drv sc fs (sc1, None)" "close_post drv sc1 fs' sce"
  shows "close_post drv sc (fs \<union> fs') sce"
proof -
  obtain s c where sc: "sc = (s, c)" by (cases sc)
  obtain s1 c1 where sc1: "sc1 = (s1, c1)" by (cases sc1)
  obtain s2 c2 e where sce: "sce = ((s2, c2), e)" by (metis surj_pair)
  note a = assms(1) [unfolded sc sc1 close_post_def prod.case option.case]
    and b = assms(2) [unfolded sc1 sce close_post_def prod.case]
  from a obtain P where P: "sq_stmts s1 = filter P (sq_stmts s)" "\<forall>x\<in>set (sq_stmts s). fst (snd x) \<noteq> mc_db c \<longrightarrow> P x" by blast
  from b obtain P' where P': "sq_stmts s2 = filter P' (sq_stmts s1)" "\<forall>x\<in>set (sq_stmts s1). fst (snd x) \<noteq> mc_db c1 \<longrightarrow> P' x" by blast
  have "sq_stmts s2 = filter (\<lambda>x. P x \<and> P' x) (sq_stmts s)" unfolding P'(1) P(1) filter_filter by (rule filter_cong) auto
  moreover have "\<forall>x\<in>set (sq_stmts s). fst (snd x) \<noteq> mc_db c \<longrightarrow> P x \<and> P' x"
    using P P'(2) a unfolding P(1) by auto
  ultimately have "\<exists>P. sq_stmts s2 = filter P (sq_stmts s) \<and> (\<forall>x\<in>set (sq_stmts s). fst (snd x) \<noteq> mc_db c \<longrightarrow> P x)" by blast
  moreover have "\<forall>f. load_stmt f c2 = load_stmt f c \<or> load_stmt f c2 = None" using a b by metis
  moreover have "case e of None \<Rightarrow> (\<forall>f\<in>fs \<union> fs'. load_stmt f c2 = None) | Some _ \<Rightarrow> held (mc_db c) s2 < held (mc_db c) s"
  proof (cases e)
    case None
    have "\<forall>f\<in>fs. load_stmt f c1 = None" "\<forall>f\<in>fs'. load_stmt f c2 = None" "\<forall>f. load_stmt f c2 = load_stmt f c1 \<or> load_stmt f c2 = None"
      using a b None by simp_all
    then have "\<forall>f\<in>fs \<union> fs'. load_stmt f c2 = None" by (metis Un_iff)
    with None show ?thesis by simp
  next
    case (Some err)
    have "held (mc_db c) s1 \<le> held (mc_db c) s"
      using a length_filter_le [of P "filter (\<lambda>x. fst (snd x) = mc_db c) (sq_stmts s)"] unfolding held_def P(1) by (simp add: conj_commute)
    moreover have "held (mc_db c) s2 < held (mc_db c) s1" using a b Some by simp
    ultimately show ?thesis using Some by simp
  qed
  ultimately show ?thesis using a b unfolding sc sce close_post_def prod.case by auto
qed

lemma close_post_refl: "owns_stmts c s \<Longrightarrow> close_post drv (s, c) {} ((s, c), None)"
  by (auto simp: close_post_def intro!: exI [of _ "\<lambda>_. True"])

lemma for_do_after_error: "for_do (closeStmt drv) fs (sc, Some err) = (Ret (), (sc, Some err))"
  by (induction fs) (simp_all add: closeStmt_after_error bnd_Ret)

lemma close_each:
  assumes "sql_wf s" "owns_stmts c s"
  shows "\<exists>sce. for_do (closeStmt drv) fs ((s, c), None) = (Ret (), sce) \<and> close_post drv (s, c) (set fs) sce"
  using assms
proof (induction fs arbitrary: s c)
  case Nil
  then show ?case by (simp add: close_post_refl)
next
  case (Cons f fs)
  obtain sc1 e where one: "closeStmt drv f ((s, c), None) = (Ret (), (sc1, e))" "close_post drv (s, c) {f} (sc1, e)"
    using closeStmt_post [OF Cons.prems] by (metis surj_pair)
  show ?case
  proof (cases e)
    case None
    obtain s1 c1 where sc1: "sc1 = (s1, c1)" by (cases sc1)
    have "sql_wf s1" "owns_stmts c1 s1" using one(2) Cons.prems by (auto simp: close_post_def sc1)
    from Cons.IH [OF this, folded sc1] obtain sce where
      "for_do (closeStmt drv) fs (sc1, None) = (Ret (), sce)" "close_post drv sc1 (set fs) sce" by blast
    with one None close_post_trans [of drv "(s, c)" "{f}" sc1 "set fs" sce] show ?thesis by (simp add: bnd_Ret)
  next
    case (Some err)
    have "for_do (closeStmt drv) (f # fs) ((s, c), None) = (Ret (), (sc1, Some err))"
      using one(1) Some by (simp add: bnd_Ret for_do_after_error)
    moreover have "close_post drv (s, c) (set (f # fs)) (sc1, Some err)"
      using one(2) Some by (cases sc1) (simp add: close_post_def)
    ultimately show ?thesis by blast
  qed
qed

lemma closeStmts_run:
  "closeStmts drv = bnd (with_local None (for_do (closeStmt drv) (rev all_fields))) (\<lambda>(_, firstError).
     ret (case firstError of Some err \<Rightarrow> Inl err | None \<Rightarrow> Inr ()))"
proof -
  have "bnd m (\<lambda>_. ret ()) = m" for m :: "((sql_state \<times> MetadataCache) \<times> error option, unit) prog"
    by (rule trans [OF _ bnd_ret_right]) simp
  then show ?thesis unfolding closeStmts_def all_fields_def by simp
qed

lemma MetadataCache_Close_run:
  assumes wf: "sql_wf s" and own: "owns_stmts c s"
  shows "\<exists>r s' c'. MetadataCache_Close drv (s, c) = (Ret r, (s', c')) \<and> sq_tables s' = sq_tables s \<and> sql_wf s' \<and>
    mc_db c' = mc_db c \<and> owns_stmts c' s' \<and> (quiet_driver drv \<longrightarrow> r = Inr ()) \<and>
    filter (\<lambda>x. fst (snd x) \<noteq> mc_db c) (sq_stmts s') = filter (\<lambda>x. fst (snd x) \<noteq> mc_db c) (sq_stmts s) \<and>
    filter (\<lambda>x. fst x \<noteq> mc_db c) (sq_dbs s') = filter (\<lambda>x. fst x \<noteq> mc_db c) (sq_dbs s) \<and>
    (case r of Inl _ \<Rightarrow> held (mc_db c) s' < held (mc_db c) s | Inr _ \<Rightarrow> held (mc_db c) s' = 0 \<and> (\<forall>f. load_stmt f c' = None))"
proof -
  let ?db = "mc_db c"
  obtain s1 c1 e where each: "for_do (closeStmt drv) (rev all_fields) ((s, c), None) = (Ret (), ((s1, c1), e))"
    and post: "close_post drv (s, c) (set (rev all_fields)) ((s1, c1), e)"
    using close_each [OF wf own, of drv "rev all_fields"] by (metis surj_pair)
  have stmts: "closeStmts drv (s, c) = (Ret (case e of Some err \<Rightarrow> Inl err | None \<Rightarrow> Inr ()), (s1, c1))"
    by (simp add: closeStmts_run bnd_def with_local_def each)
  from post obtain P where P: "sq_stmts s1 = filter P (sq_stmts s)" "\<forall>x\<in>set (sq_stmts s). fst (snd x) \<noteq> ?db \<longrightarrow> P x"
    and s1: "sq_tables s1 = sq_tables s" "sq_dbs s1 = sq_dbs s" "sql_wf s1" "mc_db c1 = ?db" "owns_stmts c1 s1" "quiet_driver drv \<longrightarrow> e = None"
    using wf by (auto simp: close_post_def)
  have others: "filter (\<lambda>x. fst (snd x) \<noteq> ?db) (sq_stmts s1) = filter (\<lambda>x. fst (snd x) \<noteq> ?db) (sq_stmts s)"
    unfolding P(1) filter_filter by (rule filter_cong) (use P(2) in auto)
  show ?thesis
  proof (cases e)
    case (Some err)
    then have "MetadataCache_Close drv (s, c) = (Ret (Inl err), (s1, c1))"
      using stmts by (simp add: MetadataCache_Close_def try_bnd_Inl)
    then show ?thesis using s1 others post Some by (auto simp: close_post_def)
  next
    case None
    have fields: "load_stmt f c1 = None" for f using post None by (simp add: close_post_def)
    have run: "MetadataCache_Close drv (s, c) = outer (DB_Close drv ?db) (s1, c1)"
      using stmts None s1(4) by (simp add: MetadataCache_Close_def try_bnd_Inr)
    show ?thesis
    proof (cases "map_of (sq_dbs s1) ?db")
      case closed: None
      then have "?db \<notin> fst ` set (sq_dbs s1)" by (simp add: map_of_eq_None_iff)
      moreover from this have "x \<in> set (sq_stmts s1) \<Longrightarrow> fst (snd x) \<noteq> ?db" for x
        using sql_wf_db [OF s1(3)] by metis
      ultimately have "held ?db s1 = 0" by (force simp: held_def filter_empty_conv)
      moreover have "MetadataCache_Close drv (s, c) = (Ret (Inr ()), (s1, c1))"
        unfolding run by (simp add: zoom_def DB_Close_def closed)
      ultimately show ?thesis using s1 others fields by auto
    next
      case (Some path)
      then obtain x where close: "DB_Close drv ?db s1 = (Ret x, (sql_tick s1)\<lparr>sq_dbs := filter (\<lambda>x. fst x \<noteq> ?db) (sq_dbs s1),
          sq_stmts := filter (\<lambda>x. fst (snd x) \<noteq> ?db) (sq_stmts s1)\<rparr>)" (is "_ = (_, ?s2)") "quiet_driver drv \<longrightarrow> x = Inr ()" by (rule DB_Close_run)
      have "sql_wf ?s2" using DB_Close_wf [OF s1(3)] by (simp add: sql_wf_def)
      moreover have "held ?db ?s2 = 0" by (simp add: held_def)
      moreover have "held ?db s > 0" using map_of_SomeD [OF Some] s1(2) by (force simp: held_def filter_empty_conv)
      moreover have "owns_stmts c1 ?s2" using fields by (simp add: owns_stmts_def)
      moreover have "MetadataCache_Close drv (s, c) = (Ret x, (?s2, c1))" unfolding run by (simp add: zoom_def close(1))
      ultimately show ?thesis using s1 others fields close(2) by (auto split: sum.split)
    qed
  qed
qed

end
