(* ===== verification/Cache.thy ===== *)
theory Cache
  imports Metadata_Lifecycle Content_Store
begin

text \<open>
  \<^verbatim>\<open>internal/cache/cache.go\<close>: the unified cache, opened and closed as a whole. The state is the counted
  kernel and what the SQL layer holds. The rows of a database are kept there, under the name of its file; the tree
  of the kernel has only what the program itself does to the file, which is to remove it.
\<close>

record cache_store =
  st_sys :: sys
  st_sql :: sql_state

definition on_sys :: "(sys, 'a) prog \<Rightarrow> (cache_store, 'a) prog" where
  "on_sys = zoom st_sys (\<lambda>s st. st\<lparr>st_sys := s\<rparr>)"

definition on_sql :: "(sql_state, 'a) prog \<Rightarrow> (cache_store, 'a) prog" where
  "on_sql = zoom st_sql (\<lambda>s st. st\<lparr>st_sql := s\<rparr>)"

record Cache =
  ca_Metadata :: MetadataCache
  ca_Content :: ContentCache

definition metadata_file :: "string \<Rightarrow> string" where
  "metadata_file root = path_Join root ''metadata.db''"

text \<open>The errors of the two removals are only logged.\<close>

definition NewCache :: "os_env \<Rightarrow> sql_driver \<Rightarrow> string \<Rightarrow> (cache_store, Cache result) prog" where
  "NewCache env drv root =
     (let contentCache = NewContentCache root;
          metadataFile = metadata_file root
      in bnd (on_sql (NewMetadataCache drv metadataFile)) (\<lambda>r. case r of
           Inl err \<Rightarrow>
             bnd (on_sys (syscalls_Remove env LocalDomain metadataFile)) (\<lambda>_.
             bnd (on_sys (syscalls_Remove env LocalDomain root)) (\<lambda>_.
             ret (Inl err)))
         | Inr metadataCache \<Rightarrow> ret (Inr \<lparr>ca_Metadata = metadataCache, ca_Content = contentCache\<rparr>)))"

text \<open>The cache object is a value that \<^verbatim>\<open>Close\<close> updates.\<close>

definition Cache_Close :: "sql_driver \<Rightarrow> (cache_store \<times> Cache, unit result) prog" where
  "Cache_Close drv = zoom (\<lambda>(st, c). (st_sql st, ca_Metadata c))
     (\<lambda>(s, m) (st, c). (st\<lparr>st_sql := s\<rparr>, c\<lparr>ca_Metadata := m\<rparr>)) (MetadataCache_Close drv)"

section \<open>Laws\<close>

text \<open>
  \<^verbatim>\<open>os.Remove\<close> takes away the name it is given or nothing; without faults it takes away whatever is no
  directory.
\<close>

lemma Remove_run:
  assumes "sys_ok kernel_wf s"
  obtains r s' where "syscalls_Remove env d p s = (Ret r, s')" "sys_ok kernel_wf s'"
    "node_at (sys_kernel s') = (node_at (sys_kernel s))(p := None) \<or>
     node_at (sys_kernel s') = node_at (sys_kernel s) \<and> (env_quiet env \<longrightarrow> is_dir_at (sys_kernel s) p)"
proof -
  have "sys_ok (\<lambda>k. kernel_wf k \<and> node_at k = node_at (sys_kernel s)) s" using assms by (simp add: sys_ok_def)
  then obtain r s' where "syscalls_Remove env d p s = (Ret r, s')" "sys_ok (\<lambda>k. kernel_wf k \<and>
      (node_at k = (node_at (sys_kernel s))(p := None) \<or> node_at k = node_at (sys_kernel s) \<and> (env_quiet env \<longrightarrow> is_dir_at k p))) s'"
    by (rule returnsE [OF syscalls_returns(5) [OF os_Remove_spec]])
  then show ?thesis by (intro that [of r s']) (auto simp: sys_ok_def is_dir_at_def)
qed

text \<open>
  A cache that cannot be opened leaves the kernel as it is except for the database file and the directory
  of the cache; when it can be opened the program makes no system call of its own.
\<close>

lemma NewCache_run:
  assumes "sys_ok kernel_wf (st_sys st)" "sql_wf (st_sql st)"
  obtains (error) err st' where "NewCache env drv root st = (Ret (Inl err), st')"
      "sys_ok kernel_wf (st_sys st')" "\<And>p. node_at (sys_kernel (st_sys st')) p = node_at (sys_kernel (st_sys st)) p \<or>
        node_at (sys_kernel (st_sys st')) p = None \<and> p \<in> {root, metadata_file root}"
      "env_quiet env \<Longrightarrow> \<not> is_dir_at (sys_kernel (st_sys st)) (metadata_file root) \<Longrightarrow>
        node_at (sys_kernel (st_sys st')) (metadata_file root) = None"
      "NewMetadataCache drv (metadata_file root) (st_sql st) = (Ret (Inl err), st_sql st')"
  | (ok) mc sq where "NewCache env drv root st =
        (Ret (Inr \<lparr>ca_Metadata = mc, ca_Content = NewContentCache root\<rparr>), st\<lparr>st_sql := sq\<rparr>)"
      "NewMetadataCache drv (metadata_file root) (st_sql st) = (Ret (Inr mc), sq)"
proof -
  let ?f = "metadata_file root"
  obtain r sq where new: "NewMetadataCache drv ?f (st_sql st) = (Ret r, sq)"
    using NewMetadataCache_run [OF assms(2)] by metis
  show ?thesis
  proof (cases r)
    case (Inr mc)
    then show ?thesis using new by (intro ok [of mc sq]) (simp_all add: NewCache_def Let_def bnd_def on_sql_def zoom_def)
  next
    case (Inl err)
    obtain r1 s1 where one: "syscalls_Remove env LocalDomain ?f (st_sys st) = (Ret r1, s1)" "sys_ok kernel_wf s1"
      "node_at (sys_kernel s1) = (node_at (sys_kernel (st_sys st)))(?f := None) \<or>
       node_at (sys_kernel s1) = node_at (sys_kernel (st_sys st)) \<and> (env_quiet env \<longrightarrow> is_dir_at (sys_kernel (st_sys st)) ?f)"
      by (rule Remove_run [OF assms(1)])
    obtain r2 s2 where two: "syscalls_Remove env LocalDomain root s1 = (Ret r2, s2)" "sys_ok kernel_wf s2"
      "node_at (sys_kernel s2) = (node_at (sys_kernel s1))(root := None) \<or>
       node_at (sys_kernel s2) = node_at (sys_kernel s1) \<and> (env_quiet env \<longrightarrow> is_dir_at (sys_kernel s1) root)"
      by (rule Remove_run [OF one(2)])
    show ?thesis
    proof (rule error [of err "\<lparr>st_sys = s2, st_sql = sq\<rparr>"])
      show "NewCache env drv root st = (Ret (Inl err), \<lparr>st_sys = s2, st_sql = sq\<rparr>)"
        using new Inl one(1) two(1) by (simp add: NewCache_def Let_def bnd_def on_sql_def on_sys_def zoom_def)
    qed (use new Inl one(3) two(2,3) in \<open>auto split: if_splits\<close>)
  qed
qed

end
