(* ===== verification/Status.thy ===== *)
theory Status
  imports Stats Go_Strings "HOL-Library.Char_ord" "HOL-Library.List_Lexorder" "HOL-Library.Multiset"
begin

text \<open>
  \<^verbatim>\<open>internal/stats/status.go\<close>: the page that shows the statistics and the two HTTP endpoints.

  Parameters, in \<open>page_env\<close>: how \<^verbatim>\<open>humanize.Bytes\<close> prints a size, how the template engine escapes a value
  inside a URL, the texts of errors, the order in which Go iterates over a map, and which write to the
  client fails. A handler reads the counters in one step.
\<close>

section \<open>Names and rows\<close>

fun osOpNames :: "OsOp \<Rightarrow> string" where
  "osOpNames CloseOsOp = ''Close''"
| "osOpNames LstatOsOp = ''Lstat''"
| "osOpNames MkdirOsOp = ''Mkdir''"
| "osOpNames OpenOsOp = ''Open''"
| "osOpNames ReadOsOp = ''Read''"
| "osOpNames ReaddirOsOp = ''Readdir''"
| "osOpNames ReadlinkOsOp = ''Readlink''"
| "osOpNames RemoveOsOp = ''Remove''"
| "osOpNames RenameOsOp = ''Rename''"

fun fuseOpNames :: "FuseOp \<Rightarrow> string" where
  "fuseOpNames AttrFuseOp = ''Attr''"
| "fuseOpNames LookupFuseOp = ''Lookup''"
| "fuseOpNames OpenFuseOp = ''Open''"
| "fuseOpNames ReadFuseOp = ''Read''"
| "fuseOpNames ReaddirFuseOp = ''Readdir''"
| "fuseOpNames ReadlinkFuseOp = ''Readlink''"

record osOpStatsRow =
  or_Name :: string
  or_LocalCount :: u64
  or_RemoteCount :: u64

record fuseOpStatsRow =
  fr_Name :: string
  fr_CacheHits :: u64
  fr_CacheMisses :: u64
  fr_Direct :: u64

section \<open>Sorting\<close>

text \<open>\<^verbatim>\<open>strings.Compare\<close> on byte strings.\<close>

fun Compare :: "string \<Rightarrow> string \<Rightarrow> int" where
  "Compare [] [] = 0"
| "Compare [] (b # bs) = -1"
| "Compare (a # as) [] = 1"
| "Compare (a # as) (b # bs) =
     (if (of_char a :: nat) < of_char b then -1 else if (of_char b :: nat) < of_char a then 1 else Compare as bs)"

text \<open>\<^verbatim>\<open>sort.Interface\<close> on the two slices; indices are in range when \<^verbatim>\<open>sort.Sort\<close> calls them.\<close>

definition osOpStatsSlice_Less :: "osOpStatsRow list \<Rightarrow> nat \<Rightarrow> nat \<Rightarrow> bool" where
  "osOpStatsSlice_Less rows i j \<longleftrightarrow> Compare (or_Name (rows ! i)) (or_Name (rows ! j)) = -1"

definition osOpStatsSlice_Swap :: "osOpStatsRow list \<Rightarrow> nat \<Rightarrow> nat \<Rightarrow> osOpStatsRow list" where
  "osOpStatsSlice_Swap rows i j = rows[i := rows ! j, j := rows ! i]"

definition fuseOpStatsSlice_Less :: "fuseOpStatsRow list \<Rightarrow> nat \<Rightarrow> nat \<Rightarrow> bool" where
  "fuseOpStatsSlice_Less rows i j \<longleftrightarrow> Compare (fr_Name (rows ! i)) (fr_Name (rows ! j)) = -1"

definition fuseOpStatsSlice_Swap :: "fuseOpStatsRow list \<Rightarrow> nat \<Rightarrow> nat \<Rightarrow> fuseOpStatsRow list" where
  "fuseOpStatsSlice_Swap rows i j = rows[i := rows ! j, j := rows ! i]"

text \<open>\<^verbatim>\<open>sort.Sort\<close>, which sorts slices of this size by insertion.\<close>

fun sift :: "('a list \<Rightarrow> nat \<Rightarrow> nat \<Rightarrow> bool) \<Rightarrow> ('a list \<Rightarrow> nat \<Rightarrow> nat \<Rightarrow> 'a list) \<Rightarrow> nat \<Rightarrow> 'a list \<Rightarrow> 'a list" where
  "sift lt swap 0 xs = xs"
| "sift lt swap (Suc j) xs = (if lt xs (Suc j) j then sift lt swap j (swap xs (Suc j) j) else xs)"

definition sort_Sort :: "('a list \<Rightarrow> nat \<Rightarrow> nat \<Rightarrow> bool) \<Rightarrow> ('a list \<Rightarrow> nat \<Rightarrow> nat \<Rightarrow> 'a list) \<Rightarrow> 'a list \<Rightarrow> 'a list" where
  "sort_Sort lt swap xs = fold (sift lt swap) [1..<length xs] xs"

section \<open>The page template\<close>

text \<open>
  The parsed template: text, fields of the current value, and one level of iteration. The context says how
  the engine escapes a field: in element content or in a URL attribute.
\<close>

datatype tctx = HtmlCtx | UrlCtx

datatype leaf = TText string | TField tctx string

datatype tnode = Leaf leaf | TRange string "leaf list"

fun ls :: "string list \<Rightarrow> string" where
  "ls [] = []"
| "ls [l] = l"
| "ls (l # rest) = l @ CHR 0x0A # ls rest"

definition statusHTML :: "tnode list" where
  "statusHTML = [
     Leaf (TText (ls ['''', ''<html>'', ''<head>'', ''<title>sourcachefs on ''])),
     Leaf (TField HtmlCtx ''StatsRoot''),
     Leaf (TText (ls [''</title>'', ''<style type=\"text/css\">'', ''h1, h2 {'',
         ''  background-color: #ddddff;'', ''  padding: 5px;'', ''}'', ''table th, td {'',
         ''  border: 1px solid;'', ''}'', ''</style>'', ''</head>'', '''', ''<body>'',
         ''<h1>sourcachefs on ''])),
     Leaf (TField HtmlCtx ''MountPoint''),
     Leaf (TText (ls [''</h1>'', '''', ''<p>Built on: ''])),
     Leaf (TField HtmlCtx ''BuildTimestamp''),
     Leaf (TText (ls ['' by ''])),
     Leaf (TField HtmlCtx ''BuildWhere''),
     Leaf (TText (ls [''<br/>'', ''Git revision: ''])),
     Leaf (TField HtmlCtx ''GitRevision''),
     Leaf (TText (ls [''</p>'', '''', ''<p><a href=\"/debug/pprof/\">pprof</a></p>'', '''', ''<p><a href=\"''])),
     Leaf (TField UrlCtx ''StatsRoot''),
     Leaf (TText (ls [''/clear\">Clear stats</a></p>'', '''', ''<h2>Fuse layer</h2>'', '''',
         ''<p>Operation counts:</p>'', '''', ''<table>'', ''  <tr>'', ''    <th>Operation</th>'',
         ''    <th>Cache hits</th>'', ''    <th>Cache misses</th>'', ''    <th>Direct</th>'', ''  </tr>'',
         '''', ''  ''])),
     TRange ''FuseOpStats'' [
       TText (ls ['''', ''    <tr>'', ''      <td>'']),
       TField HtmlCtx ''Name'',
       TText (ls [''</td>'', ''      <td>'']),
       TField HtmlCtx ''CacheHits'',
       TText (ls [''</td>'', ''      <td>'']),
       TField HtmlCtx ''CacheMisses'',
       TText (ls [''</td>'', ''      <td>'']),
       TField HtmlCtx ''Direct'',
       TText (ls [''</td>'', ''    </tr>'', ''  ''])],
     Leaf (TText (ls ['''', ''</table>'', '''', ''<h2>OS syscall layer</h2>'', '''',
         ''<p>Operation counts:</p>'', '''', ''<table>'', ''  <tr>'', ''    <th>Operation</th>'',
         ''    <th>Local</th>'', ''    <th>Remote</th>'', ''  </tr>'', '''', ''  ''])),
     TRange ''OsOpStats'' [
       TText (ls ['''', ''    <tr>'', ''      <td>'']),
       TField HtmlCtx ''Name'',
       TText (ls [''</td>'', ''      <td>'']),
       TField HtmlCtx ''LocalCount'',
       TText (ls [''</td>'', ''      <td>'']),
       TField HtmlCtx ''RemoteCount'',
       TText (ls [''</td>'', ''    </tr>'', ''  ''])],
     Leaf (TText (ls ['''', ''</table>'', '''', ''<p>Data processed:</p>'', '''', ''<table>'', ''  <tr>'',
         ''    <th>Rx/Tx</th>'', ''    <th>Local</th>'', ''    <th>Remote</th>'', ''  </tr>'', '''',
         ''  <tr>'', ''    <td>Read</td>'', ''    <td>''])),
     Leaf (TField HtmlCtx ''LocalBytes''),
     Leaf (TText (ls [''</td>'', ''    <td>''])),
     Leaf (TField HtmlCtx ''RemoteBytes''),
     Leaf (TText (ls [''</td>'', ''  </tr>'', ''</table>'', '''',
         ''<p>Note: read counters do not account for file content served from the kernel'',
         ''buffer cache.</p>'', '''', ''</body>'', ''</html>'', '''']))]"

fun html_char :: "char \<Rightarrow> string" where
  "html_char c =
     (if c = CHR 0x00 then [CHR 0xEF, CHR 0xBF, CHR 0xBD]
      else if c = CHR 0x22 then ''&#34;''
      else if c = CHR ''&'' then ''&amp;''
      else if c = CHR 0x27 then ''&#39;''
      else if c = CHR ''+'' then ''&#43;''
      else if c = CHR ''<'' then ''&lt;''
      else if c = CHR ''>'' then ''&gt;''
      else [c])"

definition html_escape :: "string \<Rightarrow> string" where
  "html_escape s = concat (map html_char s)"

record page_env =
  pe_humanize :: "u64 \<Rightarrow> string"
  pe_url :: "string \<Rightarrow> string"
  pe_errmsg :: "error \<Rightarrow> string"
  pe_os_order :: "(OsOp \<rightharpoonup> PerOsOpStats) \<Rightarrow> OsOp list"
  pe_fuse_order :: "(FuseOp \<rightharpoonup> PerFuseOpStats) \<Rightarrow> FuseOp list"
  pe_fault :: "nat \<Rightarrow> error option"

fun escape :: "page_env \<Rightarrow> tctx \<Rightarrow> string \<Rightarrow> string" where
  "escape pe HtmlCtx s = html_escape s"
| "escape pe UrlCtx s = pe_url pe s"

type_synonym fields = "string \<rightharpoonup> string"
type_synonym 'w writer = "string \<Rightarrow> ('w, unit result) prog"

text \<open>Execution writes the pieces one by one and stops at the first error.\<close>

fun exec_leaf :: "page_env \<Rightarrow> 'w writer \<Rightarrow> fields \<Rightarrow> leaf \<Rightarrow> ('w, unit result) prog" where
  "exec_leaf pe write dot (TText s) = write s"
| "exec_leaf pe write dot (TField ctx f) = (case dot f of
       None \<Rightarrow> ret (Inl (ErrorString (''unknown field '' @ f)))
     | Some v \<Rightarrow> write (escape pe ctx v))"

fun exec_node :: "page_env \<Rightarrow> 'w writer \<Rightarrow> fields \<Rightarrow> (string \<rightharpoonup> fields list) \<Rightarrow> tnode \<Rightarrow> ('w, unit result) prog" where
  "exec_node pe write dot rows (Leaf l) = exec_leaf pe write dot l"
| "exec_node pe write dot rows (TRange f body) = (case rows f of
       None \<Rightarrow> ret (Inl (ErrorString (''unknown field '' @ f)))
     | Some rs \<Rightarrow> for_each (\<lambda>r _. for_each (\<lambda>l _. exec_leaf pe write r l) body ()) rs ())"

definition tmpl_Execute ::
  "page_env \<Rightarrow> 'w writer \<Rightarrow> fields \<Rightarrow> (string \<rightharpoonup> fields list) \<Rightarrow> tnode list \<Rightarrow> ('w, unit result) prog" where
  "tmpl_Execute pe write dot rows tmpl = for_each (\<lambda>n _. exec_node pe write dot rows n) tmpl ()"

section \<open>The page\<close>

record build_vars =
  buildTimestamp :: string
  buildWhere :: string
  gitRevision :: string

record status_data =
  sd_BuildTimestamp :: string
  sd_BuildWhere :: string
  sd_GitRevision :: string
  sd_StatsRoot :: string
  sd_MountPoint :: string
  sd_OsOpStats :: "osOpStatsRow list"
  sd_FuseOpStats :: "fuseOpStatsRow list"
  sd_LocalBytes :: string
  sd_RemoteBytes :: string

definition data_fields :: "status_data \<Rightarrow> fields" where
  "data_fields d = map_of [
     (''BuildTimestamp'', sd_BuildTimestamp d), (''BuildWhere'', sd_BuildWhere d), (''GitRevision'', sd_GitRevision d),
     (''StatsRoot'', sd_StatsRoot d), (''MountPoint'', sd_MountPoint d),
     (''LocalBytes'', sd_LocalBytes d), (''RemoteBytes'', sd_RemoteBytes d)]"

definition os_fields :: "osOpStatsRow \<Rightarrow> fields" where
  "os_fields r = map_of [(''Name'', or_Name r), (''LocalCount'', show_nat (unat (or_LocalCount r))),
     (''RemoteCount'', show_nat (unat (or_RemoteCount r)))]"

definition fuse_fields :: "fuseOpStatsRow \<Rightarrow> fields" where
  "fuse_fields r = map_of [(''Name'', fr_Name r), (''CacheHits'', show_nat (unat (fr_CacheHits r))),
     (''CacheMisses'', show_nat (unat (fr_CacheMisses r))), (''Direct'', show_nat (unat (fr_Direct r)))]"

definition data_rows :: "status_data \<Rightarrow> (string \<rightharpoonup> fields list)" where
  "data_rows d = map_of [(''OsOpStats'', map os_fields (sd_OsOpStats d)), (''FuseOpStats'', map fuse_fields (sd_FuseOpStats d))]"

text \<open>The loops over the maps; a key that is missing reads as the zero value.\<close>

definition os_rows :: "(OsOp \<rightharpoonup> PerOsOpStats) \<Rightarrow> OsOp list \<Rightarrow> osOpStatsRow list" where
  "os_rows m ops = map (\<lambda>op. case m op of
       None \<Rightarrow> \<lparr>or_Name = osOpNames op, or_LocalCount = 0, or_RemoteCount = 0\<rparr>
     | Some data \<Rightarrow> \<lparr>or_Name = osOpNames op, or_LocalCount = LocalCount data, or_RemoteCount = RemoteCount data\<rparr>) ops"

definition fuse_rows :: "(FuseOp \<rightharpoonup> PerFuseOpStats) \<Rightarrow> FuseOp list \<Rightarrow> fuseOpStatsRow list" where
  "fuse_rows m ops = map (\<lambda>op. case m op of
       None \<Rightarrow> \<lparr>fr_Name = fuseOpNames op, fr_CacheHits = 0, fr_CacheMisses = 0, fr_Direct = 0\<rparr>
     | Some data \<Rightarrow> \<lparr>fr_Name = fuseOpNames op, fr_CacheHits = CacheHits data, fr_CacheMisses = CacheMisses data,
         fr_Direct = Direct data\<rparr>) ops"

definition map_get :: "('k \<rightharpoonup> u64) \<Rightarrow> 'k \<Rightarrow> u64" where
  "map_get m k = (case m k of None \<Rightarrow> 0 | Some v \<Rightarrow> v)"

definition page_data :: "page_env \<Rightarrow> build_vars \<Rightarrow> string \<Rightarrow> string \<Rightarrow> Stats \<Rightarrow> status_data" where
  "page_data pe bv root mountPoint stats =
     (let osOpStats = GetOsOpStats stats;
          osOpRows = os_rows osOpStats (pe_os_order pe osOpStats);
          readStats = GetReadStats stats;
          fuseOpStats = GetFuseOpStats stats;
          fuseOpRows = fuse_rows fuseOpStats (pe_fuse_order pe fuseOpStats)
      in \<lparr>sd_BuildTimestamp = buildTimestamp bv, sd_BuildWhere = buildWhere bv, sd_GitRevision = gitRevision bv,
          sd_StatsRoot = root, sd_MountPoint = mountPoint,
          sd_OsOpStats = sort_Sort osOpStatsSlice_Less osOpStatsSlice_Swap osOpRows,
          sd_FuseOpStats = sort_Sort fuseOpStatsSlice_Less fuseOpStatsSlice_Swap fuseOpRows,
          sd_LocalBytes = pe_humanize pe (map_get readStats LocalDomain),
          sd_RemoteBytes = pe_humanize pe (map_get readStats RemoteDomain)\<rparr>)"

definition generateStatusPage ::
  "page_env \<Rightarrow> build_vars \<Rightarrow> string \<Rightarrow> string \<Rightarrow> Stats \<Rightarrow> 'w writer \<Rightarrow> ('w, unit result) prog" where
  "generateStatusPage pe bv root mountPoint stats write =
     (let data = page_data pe bv root mountPoint stats
      in tmpl_Execute pe write (data_fields data) (data_rows data) statusHTML)"

section \<open>HTTP handlers\<close>

record response =
  rs_status :: "nat option"
  rs_location :: "string option"
  rs_body :: string

definition new_response :: response where
  "new_response = \<lparr>rs_status = None, rs_location = None, rs_body = []\<rparr>"

text \<open>The first write sends the status 200 unless another one was set before.\<close>

definition write_header :: "nat \<Rightarrow> response \<Rightarrow> response" where
  "write_header code r = (if rs_status r = None then r\<lparr>rs_status := Some code\<rparr> else r)"

definition response_write :: "page_env \<Rightarrow> response writer" where
  "response_write pe s = bnd (modify (write_header 200)) (\<lambda>_.
     bnd (gets rs_body) (\<lambda>body. case pe_fault pe (length body) of
       Some err \<Rightarrow> ret (Inl err)
     | None \<Rightarrow> bnd (modify (\<lambda>r. r\<lparr>rs_body := body @ s\<rparr>)) (\<lambda>_. ret (Inr ()))))"

definition http_Error :: "page_env \<Rightarrow> string \<Rightarrow> nat \<Rightarrow> (response, unit) prog" where
  "http_Error pe msg code = bnd (modify (write_header code)) (\<lambda>_. bnd (response_write pe (msg @ [CHR 0x0A])) (\<lambda>_. ret ()))"

text \<open>Of a redirect the status and the target are kept, not the short text that \<^verbatim>\<open>net/http\<close> adds for a browser.\<close>

definition http_Redirect :: "string \<Rightarrow> nat \<Rightarrow> (response, unit) prog" where
  "http_Redirect url code = modify (\<lambda>r. write_header code (r\<lparr>rs_location := Some url\<rparr>))"

type_synonym handler = "(Stats \<times> response, unit) prog"
type_synonym mux = "(string \<times> handler) list"

abbreviation to_response :: "(response, 'a) prog \<Rightarrow> (Stats \<times> response, 'a) prog" where
  "to_response \<equiv> zoom snd (\<lambda>r (s, _). (s, r))"

definition http_HandleFunc :: "string \<Rightarrow> handler \<Rightarrow> (mux, unit) prog" where
  "http_HandleFunc pattern h = (\<lambda>m.
     if pattern = [] then (Panic ''http: invalid pattern'', m)
     else if map_of m pattern \<noteq> None then (Panic (''http: multiple registrations for '' @ pattern), m)
     else (Ret (), m @ [(pattern, h)]))"

definition summary_handler :: "page_env \<Rightarrow> build_vars \<Rightarrow> string \<Rightarrow> string \<Rightarrow> handler" where
  "summary_handler pe bv root mountPoint = bnd (gets fst) (\<lambda>stats.
     bnd (to_response (generateStatusPage pe bv root mountPoint stats (response_write pe))) (\<lambda>r. case r of
       Inl err \<Rightarrow> to_response (http_Error pe (pe_errmsg pe err) 500)
     | Inr _ \<Rightarrow> ret ()))"

definition clear_handler :: "string \<Rightarrow> handler" where
  "clear_handler root = bnd (outer Clear) (\<lambda>_. to_response (http_Redirect (root @ ''/summary'') 302))"

definition SetupHTTPHandlers :: "page_env \<Rightarrow> build_vars \<Rightarrow> string \<Rightarrow> string \<Rightarrow> (mux, unit) prog" where
  "SetupHTTPHandlers pe bv root mountPoint =
     (if buildTimestamp bv = [] then panic ''Missing build timestamp''
      else if buildWhere bv = [] then panic ''Missing build where''
      else if gitRevision bv = [] then panic ''Missing git revision''
      else
        bnd (http_HandleFunc (root @ ''/summary'') (summary_handler pe bv root mountPoint)) (\<lambda>_.
        http_HandleFunc (root @ ''/clear'') (clear_handler root)))"

end
