(* ===== verification/CmdMain.thy ===== *)
theory CmdMain
  imports Cache Status Fs_Laws
begin

text \<open>
  \<^verbatim>\<open>cmd/sourcachefs/main.go\<close>: the command line, the start of the cache and of the file system, and the
  HTTP server.

  Parameters, in \<open>host\<close>: the kernel's and the database driver's behaviour, the FUSE library, the regular
  expression compiler, the order of map iteration, the texts of errors and of the flag help, and the
  name the program was called by. The flags are given as \<^verbatim>\<open>flag.Parse\<close> leaves them.
\<close>

section \<open>State\<close>

record flags =
  fl_help :: bool
  fl_listen_address :: string
  fl_cached_path_regex :: string
  fl_args :: "string list"

record host =
  h_env :: os_env
  h_driver :: sql_driver
  h_engine :: engine
  h_fuse :: fuse_lib
  h_regexp :: "string \<Rightarrow> error + (string \<Rightarrow> bool)"
  h_range :: "world \<Rightarrow> string \<Rightarrow> nat"
  h_errmsg :: "error \<Rightarrow> string"
  h_flag_defaults :: string
  h_argv0 :: string

text \<open>
  A process holds the kernel with the statistics object, the SQL layer, what was printed on the standard
  error, and the goroutines it started: each is the pair of arguments of \<^verbatim>\<open>runHTTPServer\<close>.
\<close>

record process =
  pr_store :: cache_store
  pr_stderr :: string
  pr_goroutines :: "(string \<times> string) list"

definition on_store :: "(cache_store, 'a) prog \<Rightarrow> (process, 'a) prog" where
  "on_store = zoom pr_store (\<lambda>s p. p\<lparr>pr_store := s\<rparr>)"

definition set_stats :: "Stats \<Rightarrow> cache_store \<Rightarrow> cache_store" where
  "set_stats stats s = s\<lparr>st_sys := NewSyscalls stats (sys_kernel (st_sys s))\<rparr>"

definition Fprintf :: "string \<Rightarrow> (process, unit) prog" where
  "Fprintf s = modify (\<lambda>p. p\<lparr>pr_stderr := pr_stderr p @ s\<rparr>)"

section \<open>Messages\<close>

definition progname :: "host \<Rightarrow> string" where
  "progname h = path_Base (h_argv0 h)"

abbreviation newline :: string where
  "newline \<equiv> [CHR 0x0A]"

definition flagUsage :: "host \<Rightarrow> (process, unit) prog" where
  "flagUsage h = Fprintf (''Type '' @ [CHR 0x27] @ progname h @ '' -help'' @ [CHR 0x27] @ '' for usage details'' @ newline)"

definition usageError :: "host \<Rightarrow> error \<Rightarrow> (process, unit) prog" where
  "usageError h err = bnd (Fprintf (progname h @ '': '' @ h_errmsg h err @ newline)) (\<lambda>_. flagUsage h)"

definition showHelp :: "host \<Rightarrow> (process, unit) prog" where
  "showHelp h = bnd (Fprintf (''Usage: '' @ progname h @ '' <target_dir> <cache_dir> <mount_point>'' @ newline @ newline)) (\<lambda>_.
     Fprintf (h_flag_defaults h))"

section \<open>The HTTP server\<close>

text \<open>
  The program imports \<^verbatim>\<open>net/http/pprof\<close>, which registers its endpoints with the multiplexer of \<^verbatim>\<open>net/http\<close> before
  \<^verbatim>\<open>main\<close> runs. Their handlers are library code and a parameter.
\<close>

definition pprof_patterns :: "string list" where
  "pprof_patterns = [''/debug/pprof/'', ''/debug/pprof/cmdline'', ''/debug/pprof/profile'', ''/debug/pprof/symbol'', ''/debug/pprof/trace'']"

definition DefaultServeMux :: "(string \<Rightarrow> handler) \<Rightarrow> mux" where
  "DefaultServeMux pprof = map (\<lambda>pattern. (pattern, pprof pattern)) pprof_patterns"

text \<open>\<^verbatim>\<open>http.ListenAndServe\<close> is a parameter: it serves requests and returns only with an error.\<close>

definition root_handler :: handler where
  "root_handler = to_response (http_Redirect ''/stats/summary'' 302)"

definition runHTTPServer ::
  "page_env \<Rightarrow> build_vars \<Rightarrow> (string \<Rightarrow> (mux, error option) prog) \<Rightarrow> string \<Rightarrow> string \<Rightarrow> (mux, unit) prog" where
  "runHTTPServer pe bv listen address root =
     bnd (SetupHTTPHandlers pe bv ''/stats'' root) (\<lambda>_.
     bnd (http_HandleFunc ''/'' root_handler) (\<lambda>_.
     bnd (listen address) (\<lambda>err.
     if err \<noteq> None then fatal ''cannot start HTTP server'' else ret ())))"

section \<open>main\<close>

text \<open>
  The file system works on the rows of the table behind the cache's database handle. Running it on the
  process writes the rows back to the table.
\<close>

definition table_of :: "string \<Rightarrow> cache_store \<Rightarrow> table" where
  "table_of path s = (case sq_tables (st_sql s) path of None \<Rightarrow> [] | Some tbl \<Rightarrow> tbl)"

definition world_of :: "string \<Rightarrow> cache_store \<Rightarrow> world" where
  "world_of path s = \<lparr>w_sys = st_sys s, w_db = \<lparr>db_rows = table_of path s, db_tick = 0, db_sleeps = []\<rparr>\<rparr>"

definition put_world :: "string \<Rightarrow> world \<Rightarrow> cache_store \<Rightarrow> cache_store" where
  "put_world path w s = s\<lparr>st_sys := w_sys w, st_sql := (st_sql s)\<lparr>sq_tables := (sq_tables (st_sql s))(path \<mapsto> db_rows (w_db w))\<rparr>\<rparr>"

definition on_world :: "string \<Rightarrow> (world, 'a) prog \<Rightarrow> (process, 'a) prog" where
  "on_world path m = on_store (zoom (world_of path) (put_world path) m)"

definition globals_of :: "host \<Rightarrow> Cache \<Rightarrow> (string \<Rightarrow> bool) \<Rightarrow> globalState" where
  "globals_of h cache regex = \<lparr>g_env = h_env h, g_engine = h_engine h, g_content = ca_Content cache,
     g_match = regex, g_range = h_range h\<rparr>"

text \<open>
  The value is the exit status. \<^verbatim>\<open>glog.Fatalf\<close> ends the process with the outcome \<open>Fatal\<close>, without running the
  deferred \<^verbatim>\<open>cache.Close()\<close>, whose result is dropped.
\<close>

definition serve :: "host \<Rightarrow> flags \<Rightarrow> string \<Rightarrow> string \<Rightarrow> string \<Rightarrow> (string \<Rightarrow> bool) \<Rightarrow> Cache \<Rightarrow> (process, nat) prog" where
  "serve h fs targetDir cacheDir mountPoint regex cache =
     defer_call (on_store (bnd (with_local cache (Cache_Close (h_driver h))) (\<lambda>_. ret ()))) (
     bnd (if length (fl_listen_address fs) > 0
          then modify (\<lambda>p. p\<lparr>pr_goroutines := pr_goroutines p @ [(fl_listen_address fs, mountPoint)]\<rparr>)
          else ret ()) (\<lambda>_.
     bnd (on_world (metadata_file cacheDir) (Loop (h_fuse h) targetDir (globals_of h cache regex))) (\<lambda>r. case r of
       Inl err \<Rightarrow> fatal ''failed to serve file system''
     | Inr _ \<Rightarrow> ret 0)))"

definition main :: "host \<Rightarrow> flags \<Rightarrow> (process, nat) prog" where
  "main h fs =
     (if fl_help fs then
        if length (fl_args fs) \<noteq> 0 then
          bnd (usageError h (ErrorString ''invalid number of arguments; expected 0'')) (\<lambda>_. ret 2)
        else bnd (showHelp h) (\<lambda>_. ret 0)
      else if length (fl_args fs) \<noteq> 3 then
        bnd (usageError h (ErrorString ''invalid number of arguments; expected 3'')) (\<lambda>_. ret 2)
      else
        let targetDir = fl_args fs ! 0;
            cacheDir = fl_args fs ! 1;
            mountPoint = fl_args fs ! 2
        in case h_regexp h (fl_cached_path_regex fs) of
             Inl err \<Rightarrow> fatal ''failed to compile regexp''
           | Inr regex \<Rightarrow>
               bnd (on_store (modify (set_stats NewStats))) (\<lambda>_.
               bnd (on_store (NewCache (h_env h) (h_driver h) cacheDir)) (\<lambda>r. case r of
                 Inl err \<Rightarrow> fatal ''failed to initialize cache''
               | Inr cache \<Rightarrow> serve h fs targetDir cacheDir mountPoint regex cache)))"

end
