(* ===== verification/Main_Laws.thy ===== *)
theory Main_Laws
  imports CmdMain Mount_Laws
begin

text \<open>
  Laws of a whole run of the program: what is on disk stays good through \<^verbatim>\<open>main\<close>, however it ends.
\<close>

section \<open>The serving loop\<close>

text \<open>
  The FUSE library changes the world only by delivering requests, and delivers a request when the one before
  has been answered: serving a file system is a run of the state machine that starts with its root node.
  The library that the program uses starts a goroutine per request; the runs described here are those in which
  no two of these goroutines are active at the same time.
\<close>

definition serves_requests :: "fuse_lib \<Rightarrow> globalState \<Rightarrow> bool" where
  "serves_requests fl g \<longleftrightarrow> (\<forall>fs w. \<exists>m. fuse_run g (mounted (rootNode fs) w) m \<and> m_world m = snd (fl_serve fl fs w))"

lemma serve_since:
  assumes "serves_requests fl g"
  shows "ensures (\<lambda>w. since g w0 w \<and> node_good g w n) (fl_serve fl \<lparr>rootNode = n\<rparr>) (\<lambda>_. since g w0) (since g w0)"
proof -
  have "since g w0 (snd (fl_serve fl \<lparr>rootNode = n\<rparr> w))" if w: "since g w0 w" "node_good g w n" for w
  proof -
    obtain m where m: "fuse_run g (mounted n w) m" "m_world m = snd (fl_serve fl \<lparr>rootNode = n\<rparr> w)"
      using assms by (metis serves_requests_def FS.select_convs(1))
    have "mount_good g (mounted n w)" using w mounted_good by (simp add: since_def)
    from fuse_run_good [OF m(1) this] fuse_run_grows [OF m(1) this] w(1) grows_trans show ?thesis
      unfolding since_def m(2) [symmetric] mount_good_def mounted_def by fastforce
  qed
  then show ?thesis by (fastforce simp: ensures_def split: prod.splits outcome.splits)
qed

lemma Loop_since:
  assumes "serves_requests fl g"
  shows "keeps (since g w0) (Loop fl remotedir g)"
proof -
  have root: "clean_abs ''/''" "path_Join ''/'' ''/'' = ''/''" by code_simp+
  let ?post = "\<lambda>(_ :: unit result). since g w0"
  have "ensures (since g w0) (Loop fl remotedir g) ?post (since g w0)"
    unfolding Loop_def
  proof (rule ensures_try_bnd [where Q = ?post], goal_cases mount rest err)
    case (rest u)
    show ?case
    proof (rule ensures_try_bnd [OF putAndGetRow_since [OF root(1)]], goal_cases row err)
      case (row row)
      have new: "ensures (\<lambda>w. since g w0 w \<and> (\<forall>r. Inr row = (Inr r :: CachedRow option result) \<longrightarrow> row_good g w ''/'' r))
          (newNodeForEntry g ''/'' remotedir row ''/'') (\<lambda>r w. since g w0 w \<and> (\<forall>n. r = Inr n \<longrightarrow> node_good g w n)) (since g w0)"
        using newNode_ensures [of "since g w0" g "''/''" "''/''" row remotedir] unfolding root(2) by simp
      show ?case
      proof (rule ensures_try_bnd [OF new], goal_cases node err)
        case (node n)
        show ?case
          by (rule ensures_try_bnd [OF ensures_conseq [OF serve_since [OF assms]]])
             (auto simp: ensures_def split: option.split)
      qed simp
    qed simp
  qed (simp_all add: ensures_ret)
  then show ?thesis by (metis keepsI ensuresD(2))
qed

section \<open>What is on disk\<close>

text \<open>
  What a new process finds: the tree of files and the rows of the database, with fresh statistics.
\<close>

definition disk :: "string \<Rightarrow> cache_store \<Rightarrow> world" where
  "disk path st = world_of path (set_stats NewStats st)"

definition disk_good :: "globalState \<Rightarrow> string \<Rightarrow> cache_store \<Rightarrow> bool" where
  "disk_good g path st \<longleftrightarrow> sql_wf (st_sql st) \<and> good g (disk path st)"

definition main_globals :: "host \<Rightarrow> (string \<Rightarrow> bool) \<Rightarrow> string \<Rightarrow> globalState" where
  "main_globals h regex cacheDir = \<lparr>g_env = h_env h, g_engine = h_engine h, g_content = NewContentCache cacheDir,
     g_match = regex, g_range = h_range h\<rparr>"

lemma good_cong: "w_sys w' = w_sys w \<Longrightarrow> db_rows (w_db w') = db_rows (w_db w) \<Longrightarrow> good g w' \<longleftrightarrow> good g w"
  by (simp add: good_def world_ok_def held_keys_def key_texts_def)

lemma grows_cong: "w_sys v = w_sys w \<Longrightarrow> db_rows (w_db v) = db_rows (w_db w) \<Longrightarrow> grows g u v \<longleftrightarrow> grows g u w"
  by (simp add: grows_def held_keys_def)

lemma good_restart:
  assumes "good g w" "stats_wf s" "w_sys w' = NewSyscalls s (sys_kernel (w_sys w))" "db_rows (w_db w') = db_rows (w_db w)"
  shows "good g w'" "held_keys g w' = held_keys g w"
proof -
  show held: "held_keys g w' = held_keys g w" using assms(3) by (simp add: held_keys_def cached_bytes_def NewSyscalls_def)
  then show "good g w'" using assms by (simp add: good_def world_ok_def sys_ok_def NewSyscalls_def key_texts_def)
qed

text \<open>Without any row the world is still good: the next run starts a new database.\<close>

lemma good_no_rows: "good g w \<Longrightarrow> db_rows (w_db w') = [] \<Longrightarrow> w_sys w' = w_sys w \<Longrightarrow> good g w'"
  by (simp add: good_def world_ok_def table_ok_def table_wf_def hashes_in_def)

text \<open>Neither the cache directory nor the database is the place of a content.\<close>

lemma key_path_ne_root:
  assumes "clean_abs root" "valid_key key"
  shows "key_path root key \<notin> {root, metadata_file root}"
proof -
  have "valid_name ''metadata.db''" by code_simp
  then have "key_path root key \<noteq> metadata_file root"
    unfolding metadata_file_def by (rule key_path_ne_child [OF assms])
  moreover have "path_elems (key_path root key) \<noteq> path_elems root" using path_elems_key_path [OF assms] by simp
  ultimately show ?thesis by auto
qed

lemma good_pruned:
  assumes "good g w" "sys_ok kernel_wf (w_sys w')" "db_rows (w_db w') = db_rows (w_db w)"
    and "\<And>p. node_at (sys_kernel (w_sys w')) p = node_at (sys_kernel (w_sys w)) p \<or>
      node_at (sys_kernel (w_sys w')) p = None \<and> p \<in> {cc_root (g_content g), metadata_file (cc_root (g_content g))}"
  shows "good g w'" "held_keys g w' = held_keys g w"
proof -
  let ?root = "cc_root (g_content g)" and ?k = "sys_kernel (w_sys w)" and ?k' = "sys_kernel (w_sys w')"
  have g: "globals_ok g" "kernel_ok ?root ?k" and w: "table_ok (db_rows (w_db w))"
    using assms(1) by (auto simp: good_def world_ok_def sys_ok_def)
  have root: "clean_abs ?root" using g(1) by (simp add: globals_ok_def)
  have wf: "kernel_wf ?k" "kernel_wf ?k'" "stats_wf (sys_stats (w_sys w'))"
    using g(2) assms(2) by (auto simp: kernel_ok_def sys_ok_def)
  have at: "node_at ?k' (key_path ?root key) = node_at ?k (key_path ?root key)" if "valid_key key" for key
    using assms(4) key_path_ne_root [OF root that] by auto
  then have "content_ok ?root ?k'"
    using g(2) unfolding kernel_ok_def content_ok_iff [OF wf(1) root] content_ok_iff [OF wf(2) root] by (simp add: file_at_def)
  moreover have "names_ok ?k'"
    using g(2) assms(4) unfolding kernel_ok_def names_ok_iff [OF wf(1)] names_ok_iff [OF wf(2)] by metis
  ultimately have "world_ok g w'" using g w wf assms(3) by (simp add: world_ok_def sys_ok_def kernel_ok_def)
  moreover show held: "held_keys g w' = held_keys g w" using at by (auto simp: held_keys_def cached_bytes_def file_at_def)
  ultimately show "good g w'" using assms(1,3) by (simp add: good_def key_texts_def)
qed

section \<open>A run of main\<close>

lemma world_put:
  "w_sys (world_of path (put_world path w st)) = w_sys w" "db_rows (w_db (world_of path (put_world path w st))) = db_rows (w_db w)"
  by (simp_all add: world_of_def put_world_def table_of_def)

lemma since_put: "since g w0 (world_of path (put_world path w st)) \<longleftrightarrow> since g w0 w"
  unfolding since_def good_cong [OF world_put] grows_cong [OF world_put] ..

text \<open>What is kept while the file system is served: the database is open and the world has only grown.\<close>

definition serving :: "globalState \<Rightarrow> string \<Rightarrow> world \<Rightarrow> process \<Rightarrow> bool" where
  "serving g path w0 p \<longleftrightarrow> sql_wf (st_sql (pr_store p)) \<and> since g w0 (world_of path (pr_store p))"

lemma Loop_process:
  assumes "serves_requests fl g"
  shows "keeps (\<lambda>p. serving g path w0 p \<and> owns_stmts c (st_sql (pr_store p))) (on_world path (Loop fl remotedir g))"
proof (rule keepsI)
  fix p :: process
  let ?st = "pr_store p"
  assume p: "serving g path w0 p \<and> owns_stmts c (st_sql ?st)"
  obtain r w where run: "Loop fl remotedir g (world_of path ?st) = (r, w)" by fastforce
  have "since g w0 w" using keepsD_run [OF Loop_since [OF assms] _ run] p by (simp add: serving_def)
  then have "since g w0 (world_of path (put_world path w ?st))" by (simp add: since_put)
  with p run show "serving g path w0 (snd (on_world path (Loop fl remotedir g) p)) \<and>
      owns_stmts c (st_sql (pr_store (snd (on_world path (Loop fl remotedir g) p))))"
    by (auto simp: on_world_def on_store_def zoom_def serving_def put_world_def sql_wf_def owns_stmts_def)
qed

lemma Close_process:
  assumes "serving g path w0 p" "owns_stmts (ca_Metadata cache) (st_sql (pr_store p))"
  shows "serving g path w0 (snd (on_store (bnd (with_local cache (Cache_Close drv)) (\<lambda>_. ret ())) p))"
proof -
  let ?st = "pr_store p"
  obtain r s' c' where run: "MetadataCache_Close drv (st_sql ?st, ca_Metadata cache) = (Ret r, (s', c'))"
    "sq_tables s' = sq_tables (st_sql ?st)" "sql_wf s'"
    using MetadataCache_Close_run [OF _ assms(2)] assms(1) unfolding serving_def by blast
  have "world_of path (?st\<lparr>st_sql := s'\<rparr>) = world_of path ?st" by (simp add: world_of_def table_of_def run(2))
  with assms(1) run show ?thesis
    by (simp add: on_store_def zoom_def bnd_def with_local_def Cache_Close_def serving_def)
qed

lemma defer_run:
  assumes "keeps J m" "J s" "\<And>t. J t \<Longrightarrow> I t" "\<And>t. J t \<Longrightarrow> I (snd (d t))"
  shows "I (snd (defer_call d m s))"
proof -
  have "J (snd (m s))" using assms(1,2) by (rule keepsD)
  with assms(3) assms(4) [of "snd (m s)"] show ?thesis
    by (auto simp: defer_call_def bnd_def split: prod.splits outcome.splits)
qed

lemma serve_process:
  assumes "serves_requests (h_fuse h) (globals_of h cache regex)" "serving (globals_of h cache regex) (metadata_file cacheDir) w0 p"
    and "owns_stmts (ca_Metadata cache) (st_sql (pr_store p))"
  shows "serving (globals_of h cache regex) (metadata_file cacheDir) w0 (snd (serve h fs targetDir cacheDir mountPoint regex cache p))"
proof -
  let ?J = "\<lambda>p. serving (globals_of h cache regex) (metadata_file cacheDir) w0 p \<and> owns_stmts (ca_Metadata cache) (st_sql (pr_store p))"
  have "keeps ?J (modify (\<lambda>p. p\<lparr>pr_goroutines := x p\<rparr>))" for x by (rule keepsI) (simp add: serving_def)
  then have "keeps ?J (bnd (if length (fl_listen_address fs) > 0
        then modify (\<lambda>p. p\<lparr>pr_goroutines := pr_goroutines p @ [(fl_listen_address fs, mountPoint)]\<rparr>) else ret ()) (\<lambda>_.
      bnd (on_world (metadata_file cacheDir) (Loop (h_fuse h) targetDir (globals_of h cache regex))) (\<lambda>r. case r of
        Inl err \<Rightarrow> fatal ''failed to serve file system''
      | Inr _ \<Rightarrow> ret 0)))" (is "keeps _ ?body")
    by (intro keeps_rules Loop_process assms(1))
  then show ?thesis
    unfolding serve_def by (rule defer_run) (use assms Close_process in auto)
qed

text \<open>What a process that ends leaves on disk.\<close>

lemma good_disk:
  assumes "good g (world_of path st)"
  shows "good g (disk path st)" "held_keys g (disk path st) = held_keys g (world_of path st)"
    "db_rows (w_db (disk path st)) = table_of path st"
proof -
  have "w_sys (disk path st) = NewSyscalls NewStats (sys_kernel (w_sys (world_of path st)))"
    "db_rows (w_db (disk path st)) = db_rows (w_db (world_of path st))"
    by (simp_all add: disk_def world_of_def set_stats_def table_of_def)
  from good_restart [OF assms stats_wf_New this] show "good g (disk path st)" "held_keys g (disk path st) = held_keys g (world_of path st)" .
  show "db_rows (w_db (disk path st)) = table_of path st" by (simp add: disk_def world_of_def set_stats_def table_of_def)
qed

text \<open>Once the arguments and the pattern are accepted, main opens the cache and serves the file system.\<close>

lemma main_eq:
  assumes "\<not> fl_help fs" "fl_args fs = [targetDir, cacheDir, mountPoint]" "h_regexp h (fl_cached_path_regex fs) = Inr regex"
  shows "main h fs p = (case NewCache (h_env h) (h_driver h) cacheDir (set_stats NewStats (pr_store p)) of
      (Ret (Inl err), st') \<Rightarrow> (Fatal ''failed to initialize cache'', p\<lparr>pr_store := st'\<rparr>)
    | (Ret (Inr cache), st') \<Rightarrow> serve h fs targetDir cacheDir mountPoint regex cache (p\<lparr>pr_store := st'\<rparr>)
    | (Panic e, st') \<Rightarrow> (Panic e, p\<lparr>pr_store := st'\<rparr>)
    | (Fatal e, st') \<Rightarrow> (Fatal e, p\<lparr>pr_store := st'\<rparr>)
    | (Diverge, st') \<Rightarrow> (Diverge, p\<lparr>pr_store := st'\<rparr>))"
  using assms by (simp add: main_def on_store_def zoom_def bnd_def fatal_def split: prod.split outcome.split sum.split)

lemma opened_world:
  assumes "sql_wf (st_sql st)" "NewMetadataCache drv path (st_sql st) = (Ret r, s')"
  shows "sql_wf s'" "w_sys (world_of path (st'\<lparr>st_sql := s'\<rparr>)) = st_sys st'"
    "w_db (world_of path (st'\<lparr>st_sql := s'\<rparr>)) = w_db (world_of path st)" "r = Inr c \<Longrightarrow> owns_stmts c s'"
proof -
  have s': "sql_wf s'" "sq_tables s' \<in> {sq_tables (st_sql st), ensure_table path (sq_tables (st_sql st))}" "r = Inr c \<Longrightarrow> cache_open path c s'"
    using NewMetadataCache_run [OF assms(1), of drv path] assms(2) by auto
  then show "sql_wf s'" "r = Inr c \<Longrightarrow> owns_stmts c s'" using cache_open_owns by blast+
  show "w_sys (world_of path (st'\<lparr>st_sql := s'\<rparr>)) = st_sys st'" by (simp add: world_of_def)
  show "w_db (world_of path (st'\<lparr>st_sql := s'\<rparr>)) = w_db (world_of path st)"
    using s'(2) by (auto simp: world_of_def table_of_def ensure_table_def split: option.split)
qed

lemma main_run:
  fixes h fs regex
  assumes "\<not> fl_help fs" "fl_args fs = [targetDir, cacheDir, mountPoint]" "h_regexp h (fl_cached_path_regex fs) = Inr regex"
    and "serves_requests (h_fuse h) (main_globals h regex cacheDir)"
    and "disk_good (main_globals h regex cacheDir) (metadata_file cacheDir) (pr_store p)" "main h fs p = (r, p')"
  shows "sql_wf (st_sql (pr_store p'))" "good (main_globals h regex cacheDir) (world_of (metadata_file cacheDir) (pr_store p'))"
    "grows (main_globals h regex cacheDir) (disk (metadata_file cacheDir) (pr_store p)) (world_of (metadata_file cacheDir) (pr_store p'))"
proof -
  let ?g = "main_globals h regex cacheDir" and ?path = "metadata_file cacheDir"
  define st where "st = set_stats NewStats (pr_store p)"
  define w0 where "w0 = world_of ?path st"
  have w0: "good ?g w0" "disk ?path (pr_store p) = w0" and wf: "sql_wf (st_sql st)"
    using assms(5) by (simp_all add: disk_good_def w0_def st_def disk_def set_stats_def)
  have root: "cc_root (g_content ?g) = cacheDir" by (simp add: main_globals_def NewContentCache_def)
  have sys: "sys_ok kernel_wf (st_sys st)"
    using w0(1) by (auto simp: good_def world_ok_def sys_ok_def kernel_ok_def w0_def world_of_def)
  note main = main_eq [OF assms(1-3), of p, folded st_def]
  have "serving ?g ?path w0 p'"
  proof (rule NewCache_run [OF sys wf, of "h_env h" "h_driver h" cacheDir], goal_cases error ok)
    case (error err st')
    note opened = opened_world [OF wf error(5)]
    have rows: "db_rows (w_db (world_of ?path st')) = db_rows (w_db w0)" using opened(3) [of st'] by (simp add: w0_def)
    have "good ?g (world_of ?path st')" "held_keys ?g (world_of ?path st') = held_keys ?g w0"
      by (rule good_pruned [OF w0(1) _ rows]; use error(2,3) root in \<open>simp add: w0_def world_of_def\<close>)+
    then have "since ?g w0 (world_of ?path st')" by (simp add: since_def grows_def rows rows_kept_refl)
    with error(1) main assms(6) opened(1) show ?thesis by (auto simp: serving_def)
  next
    case (ok mc sq)
    let ?cache = "\<lparr>ca_Metadata = mc, ca_Content = NewContentCache cacheDir\<rparr>" and ?p = "p\<lparr>pr_store := st\<lparr>st_sql := sq\<rparr>\<rparr>"
    note opened = opened_world [OF wf ok(2)]
    have "world_of ?path (st\<lparr>st_sql := sq\<rparr>) = w0" using opened(2,3) [of st] by (simp add: w0_def world_of_def)
    then have "serving ?g ?path w0 ?p" using w0(1) opened(1) by (simp add: serving_def since_start)
    moreover have "globals_of h ?cache regex = ?g" by (simp add: globals_of_def main_globals_def)
    ultimately have "serving ?g ?path w0 (snd (serve h fs targetDir cacheDir mountPoint regex ?cache ?p))"
      using serve_process [of h ?cache regex cacheDir w0 ?p] assms(4) opened(4) by simp
    with ok(1) main assms(6) show ?thesis by simp (metis snd_conv)
  qed
  then show "sql_wf (st_sql (pr_store p'))" "good ?g (world_of ?path (pr_store p'))" "grows ?g (disk ?path (pr_store p)) (world_of ?path (pr_store p'))"
    by (simp_all add: serving_def since_def w0(2))
qed

section \<open>A run without faults\<close>

lemma filter_all: "filter P xs = [] \<Longrightarrow> filter (\<lambda>x. \<not> P x) xs = xs"
  by (simp add: filter_empty_conv filter_True)

text \<open>Closing a cache that was opened releases exactly what opening it took, whatever was written meanwhile.\<close>

lemma open_close_run:
  assumes "sql_wf s" "quiet_driver drv" "NewMetadataCache drv path s = (Ret (Inr c), s1)"
  shows "\<exists>s3 c'. MetadataCache_Close drv (s1\<lparr>sq_tables := tables\<rparr>, c) = (Ret (Inr ()), (s3, c')) \<and>
    sq_tables s3 = tables \<and> sq_dbs s3 = sq_dbs s \<and> sq_stmts s3 = sq_stmts s"
proof -
  have s1: "sql_wf s1" "owns_stmts c s1" "sq_dbs s1 = (mc_db c, path) # sq_dbs s" "mc_db c = sq_next s"
    "filter (\<lambda>x. fst (snd x) \<noteq> mc_db c) (sq_stmts s1) = sq_stmts s"
    using NewMetadataCache_run [OF assms(1), of drv path] assms(3) cache_open_owns by auto
  let ?s2 = "s1\<lparr>sq_tables := tables\<rparr>"
  have "sql_wf ?s2" "owns_stmts c ?s2" using s1(1,2) by (simp_all add: sql_wf_def owns_stmts_def)
  from MetadataCache_Close_run [OF this, of drv] assms(2) obtain s3 c' where s3:
    "MetadataCache_Close drv (?s2, c) = (Ret (Inr ()), (s3, c'))" "sq_tables s3 = tables" "held (mc_db c) s3 = 0"
    "filter (\<lambda>x. fst (snd x) \<noteq> mc_db c) (sq_stmts s3) = filter (\<lambda>x. fst (snd x) \<noteq> mc_db c) (sq_stmts s1)"
    "filter (\<lambda>x. fst x \<noteq> mc_db c) (sq_dbs s3) = filter (\<lambda>x. fst x \<noteq> mc_db c) (sq_dbs s1)"
    by auto
  have none: "filter (\<lambda>x. fst (snd x) = mc_db c) (sq_stmts s3) = []" "filter (\<lambda>x. fst x = mc_db c) (sq_dbs s3) = []"
    using s3(3) by (simp_all add: held_def)
  have "sq_next s \<notin> fst ` set (sq_dbs s)" using assms(1) by (fastforce simp: sql_wf_def list_all_iff)
  then have "filter (\<lambda>x. fst x \<noteq> mc_db c) (sq_dbs s1) = sq_dbs s" by (simp add: s1(3,4) filter_fresh)
  with s3 s1(5) filter_all [OF none(1)] filter_all [OF none(2)] show ?thesis by auto
qed

end
