(* ===== verification/Props_Main.thy ===== *)
theory Props_Main
  imports Main_Laws Props_Mount "HOL-Library.Sublist"
begin

text \<open>Properties of the program as a whole.\<close>

section \<open>An example\<close>

text \<open>A library that delivers a single lookup and is then unmounted, and a database that is still empty.\<close>

definition ex_serve :: "FS \<Rightarrow> (world, unit result) prog" where
  "ex_serve fs w = (Ret (Inr ()), case rootNode fs of
     DirNode d \<Rightarrow> fst (snd (Dir_Lookup ex_globals ''f'' (w, d))) | _ \<Rightarrow> w)"

definition ex_fuse :: fuse_lib where
  "ex_fuse = \<lparr>fl_mount = Inr (), fl_serve = ex_serve, fl_mount_error = None, fl_caught_signal = False\<rparr>"

definition ex_driver :: sql_driver where
  "ex_driver = \<lparr>drv_fault = (\<lambda>_. None)\<rparr>"

definition ex_host :: host where
  "ex_host = \<lparr>h_env = ex_env, h_driver = ex_driver, h_engine = ex_engine, h_fuse = ex_fuse, h_regexp = (\<lambda>_. Inr (\<lambda>_. True)),
     h_range = (\<lambda>_ _. 0), h_errmsg = (\<lambda>_. ''error''), h_flag_defaults = [], h_argv0 = ''sourcachefs''\<rparr>"

definition ex_flags :: flags where
  "ex_flags = \<lparr>fl_help = False, fl_listen_address = [], fl_cached_path_regex = ''.*'', fl_args = [''/remote'', ''/cache'', ''/mnt'']\<rparr>"

definition ex_process :: process where
  "ex_process = \<lparr>pr_store = \<lparr>st_sys = ex_sys, st_sql = \<lparr>sq_tables = Map.empty, sq_dbs = [], sq_stmts = [], sq_next = 0, sq_tick = 0\<rparr>\<rparr>,
     pr_stderr = [], pr_goroutines = []\<rparr>"

lemma ex_main_globals: "main_globals ex_host (\<lambda>_. True) ''/cache'' = ex_globals"
  by (simp add: main_globals_def ex_host_def ex_globals_def)

lemma ex_serves: "serves_requests ex_fuse ex_globals"
  unfolding serves_requests_def
proof (intro allI)
  fix fs w
  show "\<exists>m. fuse_run ex_globals (mounted (rootNode fs) w) m \<and> m_world m = snd (fl_serve ex_fuse fs w)"
  proof (cases "rootNode fs")
    case (DirNode d)
    obtain r w' d' where l: "Dir_Lookup ex_globals ''f'' (w, d) = (r, (w', d'))" by (metis surj_pair)
    let ?m = "add_found r (set_node 0 (DirNode d') w' (mounted (DirNode d) w))"
    have "fuse_step ex_globals (mounted (DirNode d) w) ?m"
      by (rule lookup [of _ 0 d "''f''"]) (simp_all add: mounted_def l valid_name_def)
    moreover have "m_world ?m = w'" by (cases "(r, set_node 0 (DirNode d') w' (mounted (DirNode d) w))" rule: add_found.cases) (simp_all add: set_node_def)
    ultimately show ?thesis by (intro exI [of _ ?m]) (simp add: DirNode ex_fuse_def ex_serve_def l r_into_rtranclp)
  qed (auto simp: ex_fuse_def ex_serve_def mounted_def intro!: exI [of _ "mounted _ _"])
qed

lemma ex_disk_good: "disk_good ex_globals (metadata_file ''/cache'') (pr_store ex_process)"
proof -
  have "good ex_globals (disk p (pr_store ex_process))" for p
    by (rule good_no_rows [OF ex_good])
      (simp_all add: disk_def world_of_def table_of_def set_stats_def NewSyscalls_def ex_process_def ex_world_def ex_sys_def)
  then show ?thesis by (simp add: disk_good_def ex_process_def sql_wf_def)
qed

section \<open>Restarting\<close>

text \<open>The database of a cache directory is gone.\<close>

definition forget_table :: "string \<Rightarrow> cache_store \<Rightarrow> cache_store" where
  "forget_table path st = st\<lparr>st_sql := (st_sql st)\<lparr>sq_tables := (sq_tables (st_sql st))(path := None)\<rparr>\<rparr>"

text \<open>
  C4. A run of the program in which the FUSE library delivers one request at a time leaves behind a cache
  directory that the next run can start from, whether it ends with an exit status, a fatal error or a panic
  or does not return: the rows are well-formed, the cached contents have the digests they are filed under, and
  every hash in a row is what the database returns for the digest of a content that is there. This is so even when
  the database file was deleted by a failed start. No cached content is lost, and unless the cache could not
  be opened no row is lost. (Requests that overlap and a process that is killed in the middle of a request are
  not covered. The tree has no hard links and no names with the byte 0x01.)
\<close>

theorem main_restart_safe:
  assumes "\<not> fl_help fs" "fl_args fs = [targetDir, cacheDir, mountPoint]" "h_regexp h (fl_cached_path_regex fs) = Inr regex"
    and "serves_requests (h_fuse h) (main_globals h regex cacheDir)"
    and "disk_good (main_globals h regex cacheDir) (metadata_file cacheDir) (pr_store p)" "main h fs p = (r, p')"
  shows "disk_good (main_globals h regex cacheDir) (metadata_file cacheDir) (pr_store p') \<and>
    disk_good (main_globals h regex cacheDir) (metadata_file cacheDir) (forget_table (metadata_file cacheDir) (pr_store p')) \<and>
    held_keys (main_globals h regex cacheDir) (disk (metadata_file cacheDir) (pr_store p)) \<subseteq>
      held_keys (main_globals h regex cacheDir) (disk (metadata_file cacheDir) (pr_store p')) \<and>
    (r \<noteq> Fatal ''failed to initialize cache'' \<longrightarrow>
      rows_kept (table_of (metadata_file cacheDir) (pr_store p)) (table_of (metadata_file cacheDir) (pr_store p')))"
proof -
  let ?g = "main_globals h regex cacheDir" and ?path = "metadata_file cacheDir"
  note run = main_run [OF assms]
  note d = good_disk [OF run(2)]
  have "good ?g (disk ?path (forget_table ?path (pr_store p')))"
    by (rule good_no_rows [OF d(1)]) (simp_all add: disk_def world_of_def forget_table_def table_of_def set_stats_def)
  moreover have "sql_wf (st_sql (forget_table ?path (pr_store p')))" using run(1) by (simp add: forget_table_def sql_wf_def)
  moreover have "db_rows (w_db (disk ?path (pr_store p))) = table_of ?path (pr_store p)"
    by (simp add: disk_def world_of_def set_stats_def table_of_def)
  ultimately show ?thesis using run d by (simp add: disk_good_def grows_def world_of_def)
qed

theorem main_restart_safe_witness:
  "disk_good ex_globals (metadata_file ''/cache'') (pr_store (snd (main ex_host ex_flags ex_process)))"
  using main_restart_safe [of ex_flags "''/remote''" "''/cache''" "''/mnt''" ex_host "\<lambda>_. True" ex_process
      "fst (main ex_host ex_flags ex_process)" "snd (main ex_host ex_flags ex_process)"] ex_serves ex_disk_good
  by (simp add: ex_main_globals) (simp add: ex_flags_def ex_host_def)

section \<open>Exit status and resources\<close>

text \<open>
  C5. When neither the kernel's and the database's calls nor the serving loop fail, the program exits with status 0
  without printing anything. It has opened the cache with fresh counters, served the file system on what
  was on disk, written the rows of the loop to the database, released every handle and prepared
  statement it took, and started the HTTP server exactly when an address was given.
\<close>

theorem main_runs_clean:
  assumes "\<not> fl_help fs" "fl_args fs = [targetDir, cacheDir, mountPoint]" "h_regexp h (fl_cached_path_regex fs) = Inr regex"
    and "quiet_driver (h_driver h)" "kernel_wf (sys_kernel (st_sys (pr_store p)))" "sql_wf (st_sql (pr_store p))"
    and "Loop (h_fuse h) targetDir (main_globals h regex cacheDir) (disk (metadata_file cacheDir) (pr_store p)) = (Ret (Inr ()), w)"
  shows "\<exists>p'. main h fs p = (Ret 0, p') \<and> st_sys (pr_store p') = w_sys w \<and>
    sq_tables (st_sql (pr_store p')) (metadata_file cacheDir) = Some (db_rows (w_db w)) \<and>
    sq_dbs (st_sql (pr_store p')) = sq_dbs (st_sql (pr_store p)) \<and> sq_stmts (st_sql (pr_store p')) = sq_stmts (st_sql (pr_store p)) \<and>
    pr_stderr p' = pr_stderr p \<and>
    pr_goroutines p' = pr_goroutines p @ (if fl_listen_address fs = [] then [] else [(fl_listen_address fs, mountPoint)])"
proof -
  let ?path = "metadata_file cacheDir"
  define st where "st = set_stats NewStats (pr_store p)"
  have st: "sql_wf (st_sql st)" "sys_ok kernel_wf (st_sys st)" "st_sql st = st_sql (pr_store p)"
    using assms(5,6) by (simp_all add: st_def set_stats_def sys_ok_def NewSyscalls_def stats_wf_New)
  obtain mc sq where new: "NewMetadataCache (h_driver h) ?path (st_sql st) = (Ret (Inr mc), sq)"
    using NewMetadataCache_run [OF st(1), of "h_driver h" ?path] assms(4) by blast
  let ?cache = "\<lparr>ca_Metadata = mc, ca_Content = NewContentCache cacheDir\<rparr>"
  have "NewCache (h_env h) (h_driver h) cacheDir st = (Ret (Inr ?cache), st\<lparr>st_sql := sq\<rparr>)"
    by (rule NewCache_run [OF st(2,1), of "h_env h" "h_driver h" cacheDir]) (simp_all add: new)
  then have main: "main h fs p = serve h fs targetDir cacheDir mountPoint regex ?cache (p\<lparr>pr_store := st\<lparr>st_sql := sq\<rparr>\<rparr>)"
    using main_eq [OF assms(1-3), of p] by (simp add: st_def)
  have "world_of ?path (st\<lparr>st_sql := sq\<rparr>) = disk ?path (pr_store p)"
    using opened_world(2,3) [OF st(1) new, of st] by (simp add: disk_def world_of_def st_def)
  moreover have "globals_of h ?cache regex = main_globals h regex cacheDir" by (simp add: globals_of_def main_globals_def)
  ultimately have loop: "Loop (h_fuse h) targetDir (globals_of h ?cache regex) (world_of ?path (st\<lparr>st_sql := sq\<rparr>)) = (Ret (Inr ()), w)"
    using assms(7) by simp
  obtain s3 c' where "MetadataCache_Close (h_driver h) (sq\<lparr>sq_tables := (sq_tables sq)(?path \<mapsto> db_rows (w_db w))\<rparr>, mc) = (Ret (Inr ()), (s3, c'))"
    "sq_tables s3 = (sq_tables sq)(?path \<mapsto> db_rows (w_db w))" "sq_dbs s3 = sq_dbs (st_sql st)" "sq_stmts s3 = sq_stmts (st_sql st)"
    using open_close_run [OF st(1) assms(4) new] by blast
  with loop show ?thesis
    unfolding main serve_def
    by (simp add: defer_call_def on_world_def on_store_def zoom_def put_world_def bnd_def with_local_def Cache_Close_def st(3))
qed

theorem main_runs_clean_witness:
  "\<exists>p'. main ex_host ex_flags ex_process = (Ret 0, p') \<and> sq_dbs (st_sql (pr_store p')) = [] \<and> sq_stmts (st_sql (pr_store p')) = []"
proof -
  let ?w = "disk (metadata_file ''/cache'') (pr_store ex_process)"
  have ok: "world_ok ex_globals ?w" "db_rows (w_db ?w) = []"
    using ex_disk_good by (simp_all add: disk_good_def good_def) (simp add: disk_def world_of_def set_stats_def table_of_def ex_process_def)
  have "wview ex_globals ?w ''/'' = None" by (simp add: ok(2) meta_view_def row_by_path_def)
  then obtain w where "Loop ex_fuse ''/remote'' ex_globals ?w = (Ret (Inr ()), w)"
    using Loop_root [OF ex_quiet(1) ok(1) ex_globals_sel(4), of ex_fuse "()" "''/remote''"]
    by (auto simp: ok(2) ex_globals_sel ex_left ex_fuse_def ex_serve_def)
  moreover have "kernel_wf (sys_kernel (st_sys (pr_store ex_process)))" "sql_wf (st_sql (pr_store ex_process))"
    by (simp_all add: ex_process_def ex_sys_def ex_kernel_wf sql_wf_def)
  moreover have "quiet_driver ex_driver" by (simp add: ex_driver_def)
  ultimately have "\<exists>p'. main ex_host ex_flags ex_process = (Ret 0, p') \<and> sq_dbs (st_sql (pr_store p')) = sq_dbs (st_sql (pr_store ex_process)) \<and>
      sq_stmts (st_sql (pr_store p')) = sq_stmts (st_sql (pr_store ex_process))"
    using main_runs_clean [of ex_flags "''/remote''" "''/cache''" "''/mnt''" ex_host "\<lambda>_. True" ex_process] unfolding ex_main_globals
    by (simp add: ex_flags_def ex_host_def) blast
  then show ?thesis by (simp add: ex_process_def)
qed

text \<open>
  C33. Wrong usage touches nothing but the standard error. Help asked for without arguments is printed with
  status 0. Help with arguments, or a number of arguments other than three, is reported with status 2 under the
  name of the program and ends with a pointer to the help. A pattern that does not compile is fatal before
  the cache is opened, without any output of its own.
\<close>

theorem main_exit_status:
  assumes "fl_help fs \<or> length (fl_args fs) \<noteq> 3 \<or> (\<exists>err. h_regexp h (fl_cached_path_regex fs) = Inl err)"
  shows "\<exists>r msg. main h fs p = (r, p\<lparr>pr_stderr := pr_stderr p @ msg\<rparr>) \<and>
    (if fl_help fs \<and> fl_args fs = [] then r = Ret 0 \<and> prefix (''Usage: '' @ progname h) msg
     else if fl_help fs \<or> length (fl_args fs) \<noteq> 3 then r = Ret 2 \<and> prefix (progname h @ '': '') msg \<and>
       suffix (''Type '' @ [CHR 0x27] @ progname h @ '' -help'' @ [CHR 0x27] @ '' for usage details'' @ newline) msg
     else r = Fatal ''failed to compile regexp'' \<and> msg = [])"
  using assms
  by (auto simp: main_def usageError_def flagUsage_def showHelp_def Fprintf_def bnd_def prefix_def suffix_def)

theorem main_exit_status_witness:
  "\<exists>msg. main ex_host (ex_flags\<lparr>fl_args := [''/remote'']\<rparr>) ex_process = (Ret 2, ex_process\<lparr>pr_stderr := msg\<rparr>)"
  using main_exit_status [of "ex_flags\<lparr>fl_args := [''/remote'']\<rparr>" ex_host ex_process]
  by (auto simp: ex_flags_def ex_process_def)

end
