(* ===== verification/Props_Lifecycle.thy ===== *)
theory Props_Lifecycle
  imports Props_Main
begin

text \<open>Properties of opening and closing the cache.\<close>

section \<open>Examples\<close>

text \<open>A database that is busy when the first statement of the schema is executed, with a database file in place.\<close>

definition ex_contended :: sql_driver where
  "ex_contended = \<lparr>drv_fault = (\<lambda>t. if t = 2 then Some (SqliteError ErrBusy) else None)\<rparr>"

definition ex_sql :: sql_state where
  "ex_sql = st_sql (pr_store ex_process)"

definition ex_store :: cache_store where
  "ex_store = \<lparr>st_sys = \<lparr>sys_kernel = ex_kernel\<lparr>k_files := k_files ex_kernel @ [(''/cache/metadata.db'', 6)],
       k_nodes := (k_nodes ex_kernel)(6 \<mapsto> ex_node (KFile [])), k_nextino := 7\<rparr>, sys_stats = NewStats\<rparr>, st_sql = ex_sql\<rparr>"

lemma ex_sql_wf: "sql_wf ex_sql"
  by (simp add: ex_sql_def ex_process_def sql_wf_def)

lemma ex_metadata_file: "metadata_file ''/cache'' = ''/cache/metadata.db''"
  unfolding metadata_file_def by code_simp

lemma ex_store_wf: "sys_ok kernel_wf (st_sys ex_store)" "\<not> is_dir_at (sys_kernel (st_sys ex_store)) (metadata_file ''/cache'')"
  by (simp_all add: ex_store_def sys_ok_def stats_wf_New kernel_wf_def ex_kernel_def is_dir_at_def node_at_def ex_metadata_file)
     (simp add: ex_node_def)

lemma ex_contention: "fst (NewMetadataCache ex_contended path ex_sql) = Ret (Inl (SqliteError ErrBusy))"
  by (simp add: NewMetadataCache_def newSqliteDb_def sql_Open_def DB_Ping_def initDatabase_def DB_Exec_def DB_Close_def on_db_def
      driver_call_def driver_close_def try_bnd_def bnd_def schemaDDL_def sql_tick_def ex_contended_def ex_sql_def ex_process_def)

section \<open>The metadata cache\<close>

text \<open>
  C25. Opening the metadata cache always returns, and is all or nothing. On success every one of the nine
  statements is prepared with its own query on the new handle, and the table exists. On failure no
  statement stays prepared and the handle is closed again, except that a handle whose first contact with the
  database failed is left open. Existing rows are kept either way, and without faults it succeeds.
\<close>

theorem NewMetadataCache_all_or_nothing:
  assumes "sql_wf s"
  shows "\<exists>r s'. NewMetadataCache drv path s = (Ret r, s') \<and> sql_wf s' \<and> (quiet_driver drv \<longrightarrow> (\<exists>c. r = Inr c)) \<and>
    (\<forall>q tbl. sq_tables s q = Some tbl \<longrightarrow> sq_tables s' q = Some tbl) \<and>
    (case r of
       Inl _ \<Rightarrow> sq_stmts s' = sq_stmts s \<and> sq_dbs s' = (if ping_fails drv s then [(sq_next s, path)] else []) @ sq_dbs s
     | Inr c \<Rightarrow> sq_tables s' path \<noteq> None \<and> sq_dbs s' = (mc_db c, path) # sq_dbs s \<and> mc_db c \<notin> fst ` set (sq_dbs s) \<and>
         (\<forall>f. \<exists>st. load_stmt f c = Some st \<and> map_of (sq_stmts s') st = Some (mc_db c, stmt_query f)))"
proof -
  obtain r s' where run: "NewMetadataCache drv path s = (Ret r, s')" "sql_wf s'" "quiet_driver drv \<longrightarrow> (\<exists>c. r = Inr c)"
    "sq_tables s' \<in> {sq_tables s, ensure_table path (sq_tables s)}"
    and r: "case r of
       Inl _ \<Rightarrow> sq_stmts s' = sq_stmts s \<and> sq_dbs s' = (if ping_fails drv s then [(sq_next s, path)] else []) @ sq_dbs s
     | Inr c \<Rightarrow> cache_open path c s' \<and> sq_tables s' = ensure_table path (sq_tables s) \<and> sq_dbs s' = (mc_db c, path) # sq_dbs s \<and>
         mc_db c = sq_next s \<and> filter (\<lambda>x. fst (snd x) \<noteq> mc_db c) (sq_stmts s') = sq_stmts s"
    using NewMetadataCache_run [OF assms, of drv path] by blast
  have "\<forall>q tbl. sq_tables s q = Some tbl \<longrightarrow> sq_tables s' q = Some tbl" using run(4) ensure_table_kept by fastforce
  moreover have "sq_next s \<notin> fst ` set (sq_dbs s)" using assms by (fastforce simp: sql_wf_def list_all_iff)
  moreover have "\<exists>st. load_stmt f c = Some st \<and> map_of (sq_stmts s') st = Some (mc_db c, stmt_query f)" if "r = Inr c" for f c
    using r that cache_open_field [of path c s' f] by auto
  moreover have "ensure_table path (sq_tables s) path \<noteq> None" by (simp add: ensure_table_def split: option.split)
  ultimately show ?thesis using run r by (intro exI [of _ r] exI [of _ s']) (cases r; simp; metis)
qed

theorem NewMetadataCache_all_or_nothing_witness:
  "\<exists>s'. NewMetadataCache ex_contended ''/cache/metadata.db'' ex_sql = (Ret (Inl (SqliteError ErrBusy)), s') \<and> sq_dbs s' = sq_dbs ex_sql"
proof -
  have "\<not> ping_fails ex_contended ex_sql" by (simp add: ping_fails_def ex_contended_def ex_sql_def ex_process_def)
  with NewMetadataCache_all_or_nothing [OF ex_sql_wf, of ex_contended "''/cache/metadata.db''"] ex_contention [of "''/cache/metadata.db''"]
  show ?thesis by auto
qed

section \<open>The unified cache\<close>

text \<open>
  C26. Opening the cache always returns. When it fails, for whatever reason, a database that is merely busy
  included, it has deleted the database file that stood in the cache directory before; apart from it and the cache
  directory itself the failure path of the program removes and changes nothing. When it succeeds, the content
  cache is that of the directory and the metadata cache is open on the file \<^verbatim>\<open>metadata.db\<close> in it. (What SQLite
  itself writes to the directory while it is opened is not part of the kernel's tree here: the rows stand for
  themselves, as tables under the name of the database. The kernel reports no errors, and \<^verbatim>\<open>metadata.db\<close> is not a directory.)
\<close>

theorem NewCache_failure:
  assumes "sys_ok kernel_wf (st_sys st)" "sql_wf (st_sql st)" "env_quiet env" "\<not> is_dir_at (sys_kernel (st_sys st)) (metadata_file root)"
  shows "\<exists>r st'. NewCache env drv root st = (Ret r, st') \<and> (case r of
      Inl _ \<Rightarrow> node_at (sys_kernel (st_sys st')) (metadata_file root) = None \<and>
        (\<forall>p. p \<notin> {root, metadata_file root} \<longrightarrow> node_at (sys_kernel (st_sys st')) p = node_at (sys_kernel (st_sys st)) p)
    | Inr c \<Rightarrow> ca_Content c = NewContentCache root \<and>
        cache_open (metadata_file root) (ca_Metadata c) (st_sql st'))"
proof (rule NewCache_run [OF assms(1,2), of env drv root], goal_cases error ok)
  case (error err st')
  then show ?case using assms(3,4) by (intro exI [of _ "Inl err"] exI [of _ st']) auto
next
  case (ok mc sq)
  moreover have "cache_open (metadata_file root) mc sq"
    using NewMetadataCache_run [OF assms(2), of drv "metadata_file root"] ok(2) by auto
  ultimately show ?case by auto
qed

theorem NewCache_failure_witness:
  "\<exists>st'. NewCache ex_env ex_contended ''/cache'' ex_store = (Ret (Inl (SqliteError ErrBusy)), st') \<and>
     node_at (sys_kernel (st_sys ex_store)) ''/cache/metadata.db'' \<noteq> None \<and> node_at (sys_kernel (st_sys st')) ''/cache/metadata.db'' = None"
proof -
  have sql: "st_sql ex_store = ex_sql" by (simp add: ex_store_def)
  obtain err st' where "NewCache ex_env ex_contended ''/cache'' ex_store = (Ret (Inl err), st')" "err = SqliteError ErrBusy"
    using ex_contention [of "metadata_file ''/cache''"]
    by (rule_tac NewCache_run [OF ex_store_wf(1), of ex_env ex_contended "''/cache''"]) (auto simp: sql ex_sql_wf)
  with NewCache_failure [OF ex_store_wf(1) _ ex_env_ok(2) ex_store_wf(2), of ex_contended]
  have "\<exists>st'. NewCache ex_env ex_contended ''/cache'' ex_store = (Ret (Inl (SqliteError ErrBusy)), st') \<and>
      node_at (sys_kernel (st_sys st')) ''/cache/metadata.db'' = None"
    by (auto simp: sql ex_sql_wf ex_metadata_file)
  moreover have "node_at (sys_kernel (st_sys ex_store)) ''/cache/metadata.db'' \<noteq> None"
    by (simp add: ex_store_def node_at_def ex_kernel_def)
  ultimately show ?thesis by blast
qed

end
