(* ===== verification/Status_Laws.thy ===== *)
theory Status_Laws
  imports Status
begin

text \<open>
  Laws of the status page: what \<^verbatim>\<open>sort.Sort\<close> promises to a user of \<^verbatim>\<open>sort.Interface\<close>, what the page shows, and
  what escaping guarantees.
\<close>

section \<open>The sorting interface\<close>

text \<open>
  A slice type implements \<^verbatim>\<open>sort.Interface\<close> if \<^verbatim>\<open>Less\<close> compares keys and \<^verbatim>\<open>Swap\<close> exchanges two elements.
\<close>

locale sort_interface =
  fixes lt :: "'a list \<Rightarrow> nat \<Rightarrow> nat \<Rightarrow> bool"
    and swap :: "'a list \<Rightarrow> nat \<Rightarrow> nat \<Rightarrow> 'a list"
    and key :: "'a \<Rightarrow> 'k :: linorder"
  assumes lt_key: "i < length xs \<Longrightarrow> j < length xs \<Longrightarrow> lt xs i j \<longleftrightarrow> key (xs ! i) < key (xs ! j)"
    and swap_elems: "i < length xs \<Longrightarrow> j < length xs \<Longrightarrow> swap xs i j = xs[i := xs ! j, j := xs ! i]"
begin

lemma mset_sift: "i < length xs \<Longrightarrow> mset (sift lt swap i xs) = mset xs"
  by (induction i arbitrary: xs) (simp_all add: swap_elems mset_swap)

lemma length_sift: "i < length xs \<Longrightarrow> length (sift lt swap i xs) = length xs"
  by (metis mset_sift size_mset)

text \<open>All but the element at \<open>j\<close> are in order up to \<open>m\<close>, and that element does not exceed those after it.\<close>

definition almost :: "nat \<Rightarrow> nat \<Rightarrow> 'a list \<Rightarrow> bool" where
  "almost j m xs \<longleftrightarrow> (\<forall>a b. a < b \<and> b \<le> m \<and> a \<noteq> j \<and> b \<noteq> j \<longrightarrow> key (xs ! a) \<le> key (xs ! b)) \<and>
     (\<forall>b. j < b \<and> b \<le> m \<longrightarrow> key (xs ! j) \<le> key (xs ! b))"

lemma sift_sorts:
  assumes "almost j m xs" "j \<le> m" "m < length xs" "a < b" "b \<le> m"
  shows "key (sift lt swap j xs ! a) \<le> key (sift lt swap j xs ! b)"
  using assms
proof (induction j arbitrary: xs)
  case 0
  then show ?case by (cases "a = 0") (auto simp: almost_def)
next
  case (Suc j)
  let ?ys = "swap xs (Suc j) j"
  have len: "Suc j < length xs" "j < length xs" using Suc.prems by simp_all
  show ?case
  proof (cases "lt xs (Suc j) j")
    case True
    have at: "?ys ! k = (if k = j then xs ! Suc j else if k = Suc j then xs ! j else xs ! k)" if "k \<le> m" for k
      using that Suc.prems(3) len by (simp add: swap_elems nth_list_update)
    have "key (xs ! Suc j) < key (xs ! j)" using True lt_key [OF len] by simp
    then have "almost j m ?ys" using Suc.prems(1,2) unfolding almost_def by (auto simp: at)
    moreover have "m < length ?ys" using Suc.prems(3) len by (simp add: swap_elems)
    ultimately show ?thesis using Suc.IH [of ?ys] Suc.prems(2,4,5) True by simp
  next
    case False
    then have le: "key (xs ! j) \<le> key (xs ! Suc j)" using lt_key [OF len] by simp
    have "key (xs ! a) \<le> key (xs ! b)"
    proof (cases "b = Suc j")
      case True
      then show ?thesis using Suc.prems(1,4,5) le by (cases "a = j") (auto simp: almost_def intro: order_trans [OF _ le])
    qed (use Suc.prems in \<open>auto simp: almost_def\<close>)
    then show ?thesis using False by simp
  qed
qed

lemma sift_beyond: "i < length xs \<Longrightarrow> i < k \<Longrightarrow> k < length xs \<Longrightarrow> sift lt swap i xs ! k = xs ! k"
  by (induction i arbitrary: xs) (simp_all add: swap_elems)

lemma Sort_prefix:
  assumes "n \<le> length xs" "1 \<le> n"
  shows "mset (fold (sift lt swap) [1..<n] xs) = mset xs \<and>
    (\<forall>a b. a < b \<and> b < n \<longrightarrow> key (fold (sift lt swap) [1..<n] xs ! a) \<le> key (fold (sift lt swap) [1..<n] xs ! b))"
  using assms(2,1)
proof (induction n rule: nat_induct_at_least)
  case base
  then show ?case by simp
next
  case (Suc n)
  let ?ys = "fold (sift lt swap) [1..<n] xs"
  have IH: "mset ?ys = mset xs" "\<forall>a b. a < b \<and> b < n \<longrightarrow> key (?ys ! a) \<le> key (?ys ! b)" using Suc by simp_all
  have len: "n < length ?ys" using IH(1) Suc.prems by (metis Suc_le_lessD size_mset)
  have "almost n n ?ys" using IH(2) by (auto simp: almost_def)
  from sift_sorts [OF this _ len] have "key (sift lt swap n ?ys ! a) \<le> key (sift lt swap n ?ys ! b)" if "a < b" "b < Suc n" for a b
    using that by simp
  moreover have "[1..<Suc n] = [1..<n] @ [n]" using Suc.hyps by simp
  ultimately show ?case using IH(1) mset_sift [OF len] by simp
qed

lemma Sort_mset: "mset (sort_Sort lt swap xs) = mset xs"
  and Sort_sorted: "sorted (map key (sort_Sort lt swap xs))"
proof -
  have "mset (sort_Sort lt swap xs) = mset xs \<and> sorted (map key (sort_Sort lt swap xs))"
  proof (cases "xs = []")
    case False
    then have 1: "1 \<le> length xs" by (simp add: Suc_leI)
    note p = Sort_prefix [OF order_refl 1, folded sort_Sort_def]
    have "length (sort_Sort lt swap xs) = length xs" using p by (metis size_mset)
    then show ?thesis using p by (auto simp: sorted_iff_nth_mono_less)
  qed (simp add: sort_Sort_def)
  then show "mset (sort_Sort lt swap xs) = mset xs" "sorted (map key (sort_Sort lt swap xs))" by simp_all
qed

text \<open>With distinct keys the result is the one sorted list of the elements, whatever the order before.\<close>

lemma Sort_unique:
  assumes "mset xs = mset ys" "sorted (map key ys)" "distinct (map key ys)"
  shows "sort_Sort lt swap xs = ys"
proof (rule map_sorted_distinct_set_unique [of key])
  have m: "mset (sort_Sort lt swap xs) = mset ys" using Sort_mset assms(1) by simp
  then show "set (sort_Sort lt swap xs) = set ys" by (metis set_mset_mset)
  then show "inj_on key (set (sort_Sort lt swap xs) \<union> set ys)" using assms(3) by (simp add: distinct_map)
  show "distinct (map key (sort_Sort lt swap xs))"
    using m assms(3) by (metis mset_eq_imp_distinct_iff mset_map)
qed (use Sort_sorted assms in simp_all)

end

lemma Compare_less: "Compare a b = -1 \<longleftrightarrow> a < b"
  by (induction a b rule: Compare.induct) (auto simp: less_char_def)

interpretation os_sort: sort_interface osOpStatsSlice_Less osOpStatsSlice_Swap or_Name
  by unfold_locales (simp_all add: osOpStatsSlice_Less_def osOpStatsSlice_Swap_def Compare_less)

interpretation fuse_sort: sort_interface fuseOpStatsSlice_Less fuseOpStatsSlice_Swap fr_Name
  by unfold_locales (simp_all add: fuseOpStatsSlice_Less_def fuseOpStatsSlice_Swap_def Compare_less)

section \<open>What the page shows\<close>

text \<open>Go iterates over every key of a map once, in some order.\<close>

definition orders_ok :: "page_env \<Rightarrow> bool" where
  "orders_ok pe \<longleftrightarrow> (\<forall>m. distinct (pe_os_order pe m) \<and> set (pe_os_order pe m) = dom m) \<and>
     (\<forall>m. distinct (pe_fuse_order pe m) \<and> set (pe_fuse_order pe m) = dom m)"

definition os_row :: "Stats \<Rightarrow> OsOp \<Rightarrow> osOpStatsRow" where
  "os_row s op = \<lparr>or_Name = osOpNames op, or_LocalCount = counter_value (COsOp LocalDomain op) s,
     or_RemoteCount = counter_value (COsOp RemoteDomain op) s\<rparr>"

definition fuse_row :: "Stats \<Rightarrow> FuseOp \<Rightarrow> fuseOpStatsRow" where
  "fuse_row s op = \<lparr>fr_Name = fuseOpNames op, fr_CacheHits = counter_value (CHits op) s,
     fr_CacheMisses = counter_value (CMisses op) s, fr_Direct = counter_value (CDirect op) s\<rparr>"

lemma os_rows_row: "os_rows (GetOsOpStats s) ops = map (os_row s) ops"
  by (simp add: os_rows_def os_row_def split: option.split)

lemma fuse_rows_row: "fuse_rows (GetFuseOpStats s) ops = map (fuse_row s) ops"
  by (simp add: fuse_rows_def fuse_row_def split: option.split)

lemma names_sorted:
  "sorted (map osOpNames allOsOps)" "distinct (map osOpNames allOsOps)"
  "sorted (map fuseOpNames allFuseOps)" "distinct (map fuseOpNames allFuseOps)"
  by (simp_all add: allOsOps_def allFuseOps_def less_char_def)

lemma all_keys: "distinct xs \<Longrightarrow> set xs = UNIV \<Longrightarrow> distinct ys \<Longrightarrow> set ys = UNIV \<Longrightarrow> mset xs = mset ys"
  using set_eq_iff_mset_eq_distinct [of xs ys] by simp

lemma page_data_rows:
  assumes "orders_ok pe" "stats_wf s"
  shows "sd_OsOpStats (page_data pe bv root mp s) = map (os_row s) allOsOps"
    "sd_FuseOpStats (page_data pe bv root mp s) = map (fuse_row s) allFuseOps"
proof -
  have dom: "dom (GetOsOpStats s) = UNIV" "dom (GetFuseOpStats s) = UNIV"
    using assms(2) by (auto simp: stats_wf_iff GetOsOpStats_def GetFuseOpStats_def dom_def)
  have "mset (pe_os_order pe (GetOsOpStats s)) = mset allOsOps" "mset (pe_fuse_order pe (GetFuseOpStats s)) = mset allFuseOps"
    by (rule all_keys; use assms(1) dom all_listed in \<open>simp add: orders_ok_def\<close>)+
  then show "sd_OsOpStats (page_data pe bv root mp s) = map (os_row s) allOsOps"
    "sd_FuseOpStats (page_data pe bv root mp s) = map (fuse_row s) allFuseOps"
    using names_sorted
    by (simp_all add: page_data_def Let_def os_rows_row fuse_rows_row)
       (rule os_sort.Sort_unique fuse_sort.Sort_unique; simp add: os_row_def fuse_row_def comp_def)+
qed

section \<open>The text of the page\<close>

fun leaf_text :: "page_env \<Rightarrow> fields \<Rightarrow> leaf \<Rightarrow> string" where
  "leaf_text pe dot (TText s) = s"
| "leaf_text pe dot (TField ctx f) = escape pe ctx (case dot f of None \<Rightarrow> [] | Some v \<Rightarrow> v)"

fun node_text :: "page_env \<Rightarrow> status_data \<Rightarrow> tnode \<Rightarrow> string" where
  "node_text pe d (Leaf l) = leaf_text pe (data_fields d) l"
| "node_text pe d (TRange f body) = concat (map (\<lambda>r. concat (map (leaf_text pe r) body)) (case data_rows d f of None \<Rightarrow> [] | Some rs \<Rightarrow> rs))"

definition page_text :: "page_env \<Rightarrow> status_data \<Rightarrow> string" where
  "page_text pe d = concat (map (node_text pe d) statusHTML)"

fun leaf_ok :: "fields \<Rightarrow> leaf \<Rightarrow> bool" where
  "leaf_ok dot (TText s) = True"
| "leaf_ok dot (TField ctx f) = (dot f \<noteq> None)"

fun node_ok :: "status_data \<Rightarrow> tnode \<Rightarrow> bool" where
  "node_ok d (Leaf l) = leaf_ok (data_fields d) l"
| "node_ok d (TRange f body) = (case data_rows d f of None \<Rightarrow> False | Some rs \<Rightarrow> list_all (\<lambda>r. list_all (leaf_ok r) body) rs)"

lemma template_fields: "list_all (node_ok d) statusHTML"
  by (simp add: statusHTML_def data_rows_def data_fields_def os_fields_def fuse_fields_def list_all_iff)

text \<open>A response that has begun and whose client takes everything.\<close>

abbreviation sent :: "response \<Rightarrow> string \<Rightarrow> response" where
  "sent r s \<equiv> r\<lparr>rs_body := rs_body r @ s\<rparr>"

definition started :: "response \<Rightarrow> bool" where
  "started r \<longleftrightarrow> rs_status r \<noteq> None"

lemma write_run:
  assumes "\<forall>n. pe_fault pe n = None" "started r"
  shows "response_write pe s r = (Ret (Inr ()), sent r s)"
  using assms by (simp add: response_write_def write_header_def started_def)

lemma for_each_sends:
  assumes "\<And>x r. x \<in> set xs \<Longrightarrow> started r \<Longrightarrow> body x () r = (Ret (Inr ()), sent r (t x))" "started r"
  shows "for_each body xs () r = (Ret (Inr ()), sent r (concat (map t xs)))"
  using assms
proof (induction xs arbitrary: r)
  case (Cons x xs)
  have "started (sent r (t x))" using Cons.prems(2) by (simp add: started_def)
  with Cons show ?case by (simp add: try_bnd_Inr)
qed simp

lemma exec_leaf_sends:
  assumes "\<forall>n. pe_fault pe n = None" "started r" "leaf_ok dot l"
  shows "exec_leaf pe (response_write pe) dot l r = (Ret (Inr ()), sent r (leaf_text pe dot l))"
  using assms by (cases l) (auto simp: write_run)

lemma exec_node_sends:
  assumes "\<forall>n. pe_fault pe n = None" "started r" "node_ok d n"
  shows "exec_node pe (response_write pe) (data_fields d) (data_rows d) n r = (Ret (Inr ()), sent r (node_text pe d n))"
proof (cases n)
  case (TRange f body)
  then obtain rs where rs: "data_rows d f = Some rs" "list_all (\<lambda>r. list_all (leaf_ok r) body) rs"
    using assms(3) by (auto split: option.splits)
  have "for_each (\<lambda>dot _. for_each (\<lambda>l _. exec_leaf pe (response_write pe) dot l) body ()) rs () r =
      (Ret (Inr ()), sent r (concat (map (\<lambda>dot. concat (map (leaf_text pe dot) body)) rs)))"
    by (intro for_each_sends exec_leaf_sends assms) (use rs in \<open>auto simp: list_all_iff\<close>)
  with TRange rs show ?thesis by simp
qed (use assms exec_leaf_sends in simp)

lemma generateStatusPage_run:
  assumes "\<forall>n. pe_fault pe n = None" "started r"
  shows "generateStatusPage pe bv root mp s (response_write pe) r =
    (Ret (Inr ()), sent r (page_text pe (page_data pe bv root mp s)))"
  unfolding generateStatusPage_def Let_def tmpl_Execute_def page_text_def
  by (intro for_each_sends exec_node_sends assms) (use template_fields in \<open>auto simp: list_all_iff\<close>)

lemma generateStatusPage_start:
  "generateStatusPage pe bv root mp s (response_write pe) new_response =
   generateStatusPage pe bv root mp s (response_write pe) (new_response\<lparr>rs_status := Some 200\<rparr>)"
proof -
  obtain t rest where html: "statusHTML = Leaf (TText t) # rest" by (simp add: statusHTML_def)
  have "response_write pe t new_response = response_write pe t (new_response\<lparr>rs_status := Some 200\<rparr>)"
    by (simp add: response_write_def write_header_def new_response_def)
  then show ?thesis unfolding generateStatusPage_def Let_def tmpl_Execute_def html by (simp add: try_bnd_def bnd_def)
qed

section \<open>Escaping\<close>

lemma html_char_safe: "c \<in> set (html_char x) \<Longrightarrow> c \<notin> {CHR ''<'', CHR ''>'', CHR 0x22, CHR 0x27, CHR 0x00}"
  by (auto split: if_splits)

lemma html_escape_safe: "set (html_escape s) \<inter> {CHR ''<'', CHR ''>'', CHR 0x22, CHR 0x27, CHR 0x00} = {}"
  by (auto simp: html_escape_def simp del: html_char.simps dest!: html_char_safe)

definition special_chars :: "char set" where
  "special_chars = {CHR 0x22, CHR ''&'', CHR 0x27, CHR ''+'', CHR ''<'', CHR ''>''}"

lemma html_char_plain: "c \<notin> special_chars \<Longrightarrow> c \<noteq> CHR 0x00 \<Longrightarrow> html_char c = [c] \<and> c \<noteq> CHR ''&''"
  by (simp add: special_chars_def)

lemma html_char_special: "c \<in> special_chars \<Longrightarrow> \<exists>x. html_char c = CHR ''&'' # x"
  by (auto simp: special_chars_def)

lemma html_char_entities:
  "c \<in> special_chars \<Longrightarrow> d \<in> special_chars \<Longrightarrow> html_char c @ xs = html_char d @ ys \<Longrightarrow> c = d \<and> xs = ys"
  unfolding special_chars_def insert_iff empty_iff by (elim disjE FalseE; simp)

lemma html_char_prefix:
  assumes "c \<noteq> CHR 0x00" "d \<noteq> CHR 0x00" "html_char c @ xs = html_char d @ ys"
  shows "c = d \<and> xs = ys"
proof (cases "c \<in> special_chars \<and> d \<in> special_chars")
  case False
  then show ?thesis
    using html_char_plain [OF _ assms(1)] html_char_plain [OF _ assms(2)] html_char_special [of c] html_char_special [of d] assms(3)
    by (cases "c \<in> special_chars"; cases "d \<in> special_chars") (auto simp del: html_char.simps)
qed (use html_char_entities assms(3) in blast)

lemma html_char_not_Nil: "html_char c \<noteq> []"
  by simp

lemma html_escape_inj:
  assumes "html_escape s = html_escape t" "CHR 0x00 \<notin> set s" "CHR 0x00 \<notin> set t"
  shows "s = t"
  using assms
proof (induction s arbitrary: t)
  case Nil
  then show ?case using html_char_not_Nil by (cases t) (simp_all add: html_escape_def del: html_char.simps)
next
  case (Cons c s)
  then obtain d t' where t: "t = d # t'" using html_char_not_Nil by (cases t) (simp_all add: html_escape_def del: html_char.simps)
  have "html_char c @ html_escape s = html_char d @ html_escape t'" using Cons.prems(1) by (simp add: html_escape_def t)
  then have "c = d \<and> html_escape s = html_escape t'" by (rule html_char_prefix [rotated 2]) (use Cons.prems t in auto)
  with Cons.IH [of t'] Cons.prems t show ?case by simp
qed

end
