(* ===== verification/Props_Status.thy ===== *)
theory Props_Status
  imports Status_Laws CmdMain
begin

text \<open>Properties of the status page and the HTTP server.\<close>

section \<open>An example\<close>

definition ex_page_env :: page_env where
  "ex_page_env = \<lparr>pe_humanize = (\<lambda>n. show_nat (unat n)), pe_url = (\<lambda>s. s), pe_errmsg = (\<lambda>_. ''error''),
     pe_os_order = (\<lambda>m. filter (\<lambda>op. m op \<noteq> None) (rev allOsOps)), pe_fuse_order = (\<lambda>m. filter (\<lambda>op. m op \<noteq> None) allFuseOps),
     pe_fault = (\<lambda>_. None)\<rparr>"

definition ex_build :: build_vars where
  "ex_build = \<lparr>buildTimestamp = ''now'', buildWhere = ''here'', gitRevision = ''abc''\<rparr>"

lemma ex_orders: "orders_ok ex_page_env"
  using names_sorted(2,4) by (auto simp: orders_ok_def ex_page_env_def distinct_map)

lemma ex_faults: "\<forall>n. pe_fault ex_page_env n = None"
  by (simp add: ex_page_env_def)

section \<open>The page\<close>

text \<open>The values of the page, taken from the counters themselves and in alphabetical order of the operations.\<close>

definition shown :: "page_env \<Rightarrow> build_vars \<Rightarrow> string \<Rightarrow> string \<Rightarrow> Stats \<Rightarrow> status_data" where
  "shown pe bv root mountPoint s = \<lparr>sd_BuildTimestamp = buildTimestamp bv, sd_BuildWhere = buildWhere bv, sd_GitRevision = gitRevision bv,
     sd_StatsRoot = root, sd_MountPoint = mountPoint,
     sd_OsOpStats = map (os_row s) allOsOps, sd_FuseOpStats = map (fuse_row s) allFuseOps,
     sd_LocalBytes = pe_humanize pe (counter_value (CReadBytes LocalDomain) s),
     sd_RemoteBytes = pe_humanize pe (counter_value (CReadBytes RemoteDomain) s)\<rparr>"

lemma page_data_shown:
  assumes "orders_ok pe" "stats_wf s"
  shows "page_data pe bv root mountPoint s = shown pe bv root mountPoint s"
  using page_data_rows [OF assms, of bv root mountPoint]
  by (simp add: page_data_def shown_def Let_def map_get_def)

lemma summary_run:
  assumes "\<forall>n. pe_fault pe n = None" "orders_ok pe" "stats_wf s"
  shows "summary_handler pe bv root mountPoint (s, new_response) =
    (Ret (), (s, \<lparr>rs_status = Some 200, rs_location = None, rs_body = page_text pe (shown pe bv root mountPoint s)\<rparr>))"
proof -
  have "started (new_response\<lparr>rs_status := Some 200\<rparr>)" by (simp add: started_def)
  from generateStatusPage_run [OF assms(1) this, of bv root mountPoint s] generateStatusPage_start [of pe bv root mountPoint s]
  have "generateStatusPage pe bv root mountPoint s (response_write pe) new_response =
      (Ret (Inr ()), \<lparr>rs_status = Some 200, rs_location = None, rs_body = page_text pe (shown pe bv root mountPoint s)\<rparr>)"
    by (simp add: page_data_shown [OF assms(2,3)] new_response_def)
  then show ?thesis by (simp add: summary_handler_def bnd_def zoom_def)
qed

text \<open>The tables of the page, written out: a row of headings and a row of values.\<close>

definition nl :: string where "nl = [CHR 0x0A]"

definition heading_row :: "string list \<Rightarrow> string" where
  "heading_row hs = ''  <tr>'' @ concat (map (\<lambda>h. nl @ ''    <th>'' @ h @ ''</th>'') hs) @ nl @ ''  </tr>'' @ nl @ nl @ ''  ''"

definition value_row :: "string list \<Rightarrow> string" where
  "value_row vs = nl @ ''    <tr>'' @ concat (map (\<lambda>v. nl @ ''      <td>'' @ v @ ''</td>'') vs) @ nl @ ''    </tr>'' @ nl @ ''  ''"

definition number :: "counter \<Rightarrow> Stats \<Rightarrow> string" where
  "number k s = show_nat (unat (counter_value k s))"

definition fuse_table :: "Stats \<Rightarrow> string" where
  "fuse_table s = heading_row [''Operation'', ''Cache hits'', ''Cache misses'', ''Direct''] @
     concat (map (\<lambda>op. value_row [fuseOpNames op, number (CHits op) s, number (CMisses op) s, number (CDirect op) s]) allFuseOps)"

definition os_table :: "Stats \<Rightarrow> string" where
  "os_table s = heading_row [''Operation'', ''Local'', ''Remote''] @
     concat (map (\<lambda>op. value_row [osOpNames op, number (COsOp LocalDomain op) s, number (COsOp RemoteDomain op) s]) allOsOps)"

definition bytes_table :: "page_env \<Rightarrow> Stats \<Rightarrow> string" where
  "bytes_table pe s = heading_row [''Rx/Tx'', ''Local'', ''Remote''] @ ''<tr>'' @ nl @ ''    <td>Read</td>'' @ nl @
     ''    <td>'' @ html_escape (pe_humanize pe (counter_value (CReadBytes LocalDomain) s)) @ ''</td>'' @ nl @
     ''    <td>'' @ html_escape (pe_humanize pe (counter_value (CReadBytes RemoteDomain) s)) @ ''</td>''"

lemma html_escape_plain: "list_all (\<lambda>c. c \<notin> special_chars \<and> c \<noteq> CHR 0x00) s \<Longrightarrow> html_escape s = s"
  by (induction s) (simp_all add: html_escape_def html_char_plain del: html_char.simps)

lemma html_escape_number: "html_escape (show_nat n) = show_nat n"
proof (rule html_escape_plain)
  have "c \<notin> special_chars \<and> c \<noteq> CHR 0x00" if "is_digit c" for c
    using that by (auto simp: special_chars_def is_digit_def)
  then show "list_all (\<lambda>c. c \<notin> special_chars \<and> c \<noteq> CHR 0x00) (show_nat n)" using show_nat_digits by (auto simp: list_all_iff)
qed

lemma html_escape_names: "html_escape (osOpNames op) = osOpNames op" "html_escape (fuseOpNames fop) = fuseOpNames fop"
  by (rule html_escape_plain; cases op; cases fop; simp add: special_chars_def)+

lemma tables_text:
  "node_text pe (shown pe bv root mp s) (statusHTML ! 13) =
     concat (map (\<lambda>op. value_row [fuseOpNames op, number (CHits op) s, number (CMisses op) s, number (CDirect op) s]) allFuseOps)"
  "node_text pe (shown pe bv root mp s) (statusHTML ! 15) =
     concat (map (\<lambda>op. value_row [osOpNames op, number (COsOp LocalDomain op) s, number (COsOp RemoteDomain op) s]) allOsOps)"
  by (simp_all add: statusHTML_def data_rows_def shown_def comp_def fuse_fields_def fuse_row_def os_fields_def os_row_def
      html_escape_number html_escape_names value_row_def nl_def number_def)

text \<open>What stands between the tables has no counters in it.\<close>

lemma texts_between:
  "\<exists>t. \<forall>d. node_text pe d (statusHTML ! 12) = t @ heading_row [''Operation'', ''Cache hits'', ''Cache misses'', ''Direct'']"
  "\<exists>t. \<forall>d. node_text pe d (statusHTML ! 14) = t @ heading_row [''Operation'', ''Local'', ''Remote'']"
  "\<exists>t u. \<forall>s. concat (map (node_text pe (shown pe bv root mp s)) (drop 16 statusHTML)) = t @ bytes_table pe s @ u"
proof -
  show "\<exists>t. \<forall>d. node_text pe d (statusHTML ! 12) = t @ heading_row [''Operation'', ''Cache hits'', ''Cache misses'', ''Direct'']"
    by (rule exI [of _ "ls [''/clear\">Clear stats</a></p>'', '''', ''<h2>Fuse layer</h2>'', '''', ''<p>Operation counts:</p>'', '''', ''<table>'', '''']"])
       (simp add: statusHTML_def heading_row_def nl_def)
  show "\<exists>t. \<forall>d. node_text pe d (statusHTML ! 14) = t @ heading_row [''Operation'', ''Local'', ''Remote'']"
    by (rule exI [of _ "ls ['''', ''</table>'', '''', ''<h2>OS syscall layer</h2>'', '''', ''<p>Operation counts:</p>'', '''', ''<table>'', '''']"])
       (simp add: statusHTML_def heading_row_def nl_def)
  show "\<exists>t u. \<forall>s. concat (map (node_text pe (shown pe bv root mp s)) (drop 16 statusHTML)) = t @ bytes_table pe s @ u"
    by (rule exI [of _ "ls ['''', ''</table>'', '''', ''<p>Data processed:</p>'', '''', ''<table>'', '''']"],
        rule exI [of _ "ls ['''', ''  </tr>'', ''</table>'', '''', ''<p>Note: read counters do not account for file content served from the kernel'',
           ''buffer cache.</p>'', '''', ''</body>'', ''</html>'', '''']"])
       (simp add: statusHTML_def bytes_table_def heading_row_def nl_def data_fields_def shown_def)
qed

lemma page_head:
  "concat (map (node_text pe (shown pe bv root mp s)) (take 12 statusHTML)) =
   concat (map (node_text pe (shown pe bv root mp s')) (take 12 statusHTML))"
  by (simp add: statusHTML_def data_fields_def shown_def)

lemma html_parts: "statusHTML = take 12 statusHTML @ statusHTML ! 12 # statusHTML ! 13 # statusHTML ! 14 # statusHTML ! 15 # drop 16 statusHTML"
  by (simp add: statusHTML_def)

lemma page_tables:
  "\<exists>t1 t2 t3 t4. \<forall>s. page_text pe (shown pe bv root mp s) = t1 @ fuse_table s @ t2 @ os_table s @ t3 @ bytes_table pe s @ t4"
proof -
  obtain h1 where h1: "\<And>d. node_text pe d (statusHTML ! 12) = h1 @ heading_row [''Operation'', ''Cache hits'', ''Cache misses'', ''Direct'']"
    using texts_between(1) by blast
  obtain h2 where h2: "\<And>d. node_text pe d (statusHTML ! 14) = h2 @ heading_row [''Operation'', ''Local'', ''Remote'']"
    using texts_between(2) by blast
  obtain t u where tu: "\<And>s. concat (map (node_text pe (shown pe bv root mp s)) (drop 16 statusHTML)) = t @ bytes_table pe s @ u"
    using texts_between(3) by blast
  let ?h = "concat (map (node_text pe (shown pe bv root mp NewStats)) (take 12 statusHTML))"
  have "page_text pe (shown pe bv root mp s) = (?h @ h1) @ fuse_table s @ h2 @ os_table s @ t @ bytes_table pe s @ u" for s
    unfolding page_text_def
    by (subst html_parts)
       (simp add: h1 h2 tu tables_text page_head [of pe bv root mp s NewStats] fuse_table_def os_table_def del: node_text.simps)
  then show ?thesis by blast
qed

text \<open>The order of iteration does not show.\<close>

lemma page_text_order:
  "page_text (pe\<lparr>pe_os_order := oo, pe_fuse_order := fo\<rparr>) (shown (pe\<lparr>pe_os_order := oo, pe_fuse_order := fo\<rparr>) bv root mp s) =
   page_text pe (shown pe bv root mp s)"
proof -
  let ?pe = "pe\<lparr>pe_os_order := oo, pe_fuse_order := fo\<rparr>"
  have esc: "escape ?pe ctx v = escape pe ctx v" for ctx v by (cases ctx) simp_all
  have "leaf_text ?pe dot l = leaf_text pe dot l" for dot l by (cases l) (simp_all add: esc)
  then have "leaf_text ?pe = leaf_text pe" by (intro ext)
  then have "node_text ?pe d n = node_text pe d n" for d n by (cases n) simp_all
  then have "page_text ?pe = page_text pe" unfolding page_text_def by presburger
  moreover have "shown ?pe = shown pe" by (simp add: shown_def fun_eq_iff)
  ultimately show ?thesis by simp
qed

text \<open>
  C27. A request for the summary changes no counter and is answered with status 200 and a page with three tables in a
  frame that is the same for all values of the counters. The first has, under the headings, one row per FUSE
  operation with its name and its numbers of hits, misses and direct operations; the second one row per
  system call with its name and its numbers of local and remote calls; the third the local and the remote bytes
  read. Every number is that of its own counter, in decimal. The rows are in alphabetical order, none is
  missing, and the page is the same whatever the order in which the maps are iterated.
\<close>

theorem summary_page:
  assumes "\<forall>n. pe_fault pe n = None"
  shows "(\<exists>t1 t2 t3 t4. \<forall>oo fo s. orders_ok (pe\<lparr>pe_os_order := oo, pe_fuse_order := fo\<rparr>) \<and> stats_wf s \<longrightarrow>
      summary_handler (pe\<lparr>pe_os_order := oo, pe_fuse_order := fo\<rparr>) bv root mountPoint (s, new_response) =
        (Ret (), (s, \<lparr>rs_status = Some 200, rs_location = None,
           rs_body = t1 @ fuse_table s @ t2 @ os_table s @ t3 @ bytes_table pe s @ t4\<rparr>))) \<and>
    (sorted (map fuseOpNames allFuseOps) \<and> set allFuseOps = UNIV \<and> sorted (map osOpNames allOsOps) \<and> set allOsOps = UNIV)"
proof (rule conjI)
  obtain t1 t2 t3 t4 where t: "\<And>s. page_text pe (shown pe bv root mountPoint s) = t1 @ fuse_table s @ t2 @ os_table s @ t3 @ bytes_table pe s @ t4"
    using page_tables by blast
  have "summary_handler (pe\<lparr>pe_os_order := oo, pe_fuse_order := fo\<rparr>) bv root mountPoint (s, new_response) =
        (Ret (), (s, \<lparr>rs_status = Some 200, rs_location = None,
           rs_body = t1 @ fuse_table s @ t2 @ os_table s @ t3 @ bytes_table pe s @ t4\<rparr>))"
    if "orders_ok (pe\<lparr>pe_os_order := oo, pe_fuse_order := fo\<rparr>)" "stats_wf s" for oo fo s
    using summary_run [OF _ that, of bv root mountPoint] assms t page_text_order [where pe = pe and oo = oo and fo = fo] by simp
  then show "\<exists>t1 t2 t3 t4. \<forall>oo fo s. orders_ok (pe\<lparr>pe_os_order := oo, pe_fuse_order := fo\<rparr>) \<and> stats_wf s \<longrightarrow>
      summary_handler (pe\<lparr>pe_os_order := oo, pe_fuse_order := fo\<rparr>) bv root mountPoint (s, new_response) =
        (Ret (), (s, \<lparr>rs_status = Some 200, rs_location = None,
           rs_body = t1 @ fuse_table s @ t2 @ os_table s @ t3 @ bytes_table pe s @ t4\<rparr>))" by blast
qed (use names_sorted all_listed in simp)

theorem summary_page_witness:
  "\<exists>t t'. summary_handler ex_page_env ex_build ''/stats'' ''/mnt'' (NewStats, new_response) =
     (Ret (), (NewStats, \<lparr>rs_status = Some 200, rs_location = None, rs_body = t @ fuse_table NewStats @ t'\<rparr>))"
proof -
  have same: "ex_page_env\<lparr>pe_os_order := pe_os_order ex_page_env, pe_fuse_order := pe_fuse_order ex_page_env\<rparr> = ex_page_env" by simp
  obtain t1 t2 t3 t4 where t: "\<forall>oo fo s. orders_ok (ex_page_env\<lparr>pe_os_order := oo, pe_fuse_order := fo\<rparr>) \<and> stats_wf s \<longrightarrow>
      summary_handler (ex_page_env\<lparr>pe_os_order := oo, pe_fuse_order := fo\<rparr>) ex_build ''/stats'' ''/mnt'' (s, new_response) =
        (Ret (), (s, \<lparr>rs_status = Some 200, rs_location = None,
           rs_body = t1 @ fuse_table s @ t2 @ os_table s @ t3 @ bytes_table ex_page_env s @ t4\<rparr>))"
    using summary_page [OF ex_faults, of ex_build "''/stats''" "''/mnt''"] by blast
  from spec [OF spec [OF spec [OF t, of "pe_os_order ex_page_env"], of "pe_fuse_order ex_page_env"], of NewStats] show ?thesis
    unfolding same using ex_orders stats_wf_New by auto
qed

text \<open>
  C28. The mount point, the one value on the page that comes from the user, is shown in one place, escaped. What is shown
  has no character that could end the text it stands in or open an element or attribute, and different
  mount points are shown differently.
\<close>

theorem page_escapes_mount_point:
  assumes "\<forall>n. pe_fault pe n = None" "orders_ok pe" "stats_wf s"
  shows "\<exists>before after shown. (\<forall>mountPoint. summary_handler pe bv root mountPoint (s, new_response) =
      (Ret (), (s, \<lparr>rs_status = Some 200, rs_location = None, rs_body = before @ shown mountPoint @ after\<rparr>)) \<and>
      set (shown mountPoint) \<inter> {CHR ''<'', CHR ''>'', CHR 0x22, CHR 0x27, CHR 0x00} = {}) \<and>
    inj_on shown {mountPoint. CHR 0x00 \<notin> set mountPoint}"
proof -
  obtain pre post where html: "statusHTML = pre @ Leaf (TField HtmlCtx ''MountPoint'') # post"
    and free: "list_all (\<lambda>n. n \<noteq> Leaf (TField HtmlCtx ''MountPoint'') \<and> n \<noteq> Leaf (TField UrlCtx ''MountPoint'')) (pre @ post)"
  proof
    show "statusHTML = take 3 statusHTML @ Leaf (TField HtmlCtx ''MountPoint'') # drop 4 statusHTML" by (simp add: statusHTML_def)
    show "list_all (\<lambda>n. n \<noteq> Leaf (TField HtmlCtx ''MountPoint'') \<and> n \<noteq> Leaf (TField UrlCtx ''MountPoint'')) (take 3 statusHTML @ drop 4 statusHTML)"
      by (simp add: statusHTML_def)
  qed
  have same: "node_text pe (shown pe bv root mp s) n = node_text pe (shown pe bv root mp' s) n"
    if n: "n \<in> set (pre @ post)" for n mp mp'
  proof (cases n)
    case (Leaf l)
    have "n \<noteq> Leaf (TField HtmlCtx ''MountPoint'') \<and> n \<noteq> Leaf (TField UrlCtx ''MountPoint'')" using n free by (auto simp: list_all_iff)
    then have "l \<noteq> TField ctx ''MountPoint''" for ctx using Leaf by (cases ctx) auto
    then show ?thesis unfolding Leaf by (cases l) (auto simp: data_fields_def shown_def)
  qed (simp add: data_rows_def shown_def)
  let ?text = "\<lambda>ns. concat (map (node_text pe (shown pe bv root [] s)) ns)"
  have "page_text pe (shown pe bv root mp s) = ?text pre @ html_escape mp @ ?text post" for mp
  proof -
    have "concat (map (node_text pe (shown pe bv root mp s)) ns) = ?text ns" if "set ns \<subseteq> set (pre @ post)" for ns
      using that same by (intro arg_cong [where f = concat] map_cong) auto
    moreover have "node_text pe (shown pe bv root mp s) (Leaf (TField HtmlCtx ''MountPoint'')) = html_escape mp"
      by (simp add: data_fields_def shown_def)
    ultimately show ?thesis by (simp add: page_text_def html)
  qed
  then show ?thesis
    using summary_run [OF assms] html_escape_safe html_escape_inj
    by (intro exI [of _ "?text pre"] exI [of _ "?text post"] exI [of _ html_escape]) (auto simp: inj_on_def)
qed

theorem page_escapes_mount_point_witness:
  "\<exists>before after x. rs_body (snd (snd (summary_handler ex_page_env ex_build ''/stats'' ''</h1>'' (NewStats, new_response)))) = before @ x @ after \<and>
     CHR ''<'' \<notin> set x"
  using page_escapes_mount_point [OF ex_faults ex_orders stats_wf_New, of ex_build "''/stats''"] by fastforce

section \<open>The endpoints\<close>

text \<open>
  C29. A request to clear resets every counter and sends the client back to the summary, which then shows zeros
  for every operation; this holds whatever was counted before.
\<close>

theorem clear_then_summary:
  assumes "\<forall>n. pe_fault pe n = None" "orders_ok pe" "stats_wf s"
  shows "\<exists>s'. clear_handler root (s, new_response) =
      (Ret (), (s', \<lparr>rs_status = Some 302, rs_location = Some (root @ ''/summary''), rs_body = []\<rparr>)) \<and>
    (\<forall>k. counter_value k s' = 0) \<and>
    summary_handler pe bv root mountPoint (s', new_response) =
      (Ret (), (s', \<lparr>rs_status = Some 200, rs_location = None, rs_body = page_text pe (shown pe bv root mountPoint NewStats)\<rparr>))"
proof -
  have "clear_handler root (s, new_response) =
      (Ret (), (NewStats, \<lparr>rs_status = Some 302, rs_location = Some (root @ ''/summary''), rs_body = []\<rparr>))"
    by (simp add: clear_handler_def bnd_def zoom_def Clear_run [OF assms(3)] http_Redirect_def write_header_def new_response_def)
  moreover have "counter_value k NewStats = 0" for k by (rule NewStats_counters)
  ultimately show ?thesis using summary_run [OF assms(1,2) stats_wf_New] by blast
qed

theorem clear_then_summary_witness:
  "\<exists>s s'. account (EvCacheHit OpenFuseOp) NewStats = (Ret (), s) \<and> clear_handler ''/stats'' (s, new_response) =
      (Ret (), (s', \<lparr>rs_status = Some 302, rs_location = Some ''/stats/summary'', rs_body = []\<rparr>))"
proof -
  obtain s where s: "account (EvCacheHit OpenFuseOp) NewStats = (Ret (), s)" "stats_wf s"
    using account_returns [OF stats_wf_New, of "EvCacheHit OpenFuseOp"] account_wf [OF stats_wf_New, of "EvCacheHit OpenFuseOp"]
    by (metis prod.collapse)
  with clear_then_summary [OF ex_faults ex_orders s(2), of "''/stats''" ex_build "''/mnt''"] show ?thesis by auto
qed

text \<open>
  C30. The HTTP server panics before it listens exactly if the program was built without one of the three build
  variables, and names the first that is missing. Otherwise it listens with exactly the five endpoints that the
  import of \<^verbatim>\<open>net/http/pprof\<close> has registered, the summary and the clear endpoint and the redirecting
  root, and a failure to listen is fatal.
\<close>

theorem runHTTPServer_endpoints:
  "runHTTPServer pe bv listen address root (DefaultServeMux pprof) =
   (if buildTimestamp bv = [] then (Panic ''Missing build timestamp'', DefaultServeMux pprof)
    else if buildWhere bv = [] then (Panic ''Missing build where'', DefaultServeMux pprof)
    else if gitRevision bv = [] then (Panic ''Missing git revision'', DefaultServeMux pprof)
    else case listen address [(''/debug/pprof/'', pprof ''/debug/pprof/''), (''/debug/pprof/cmdline'', pprof ''/debug/pprof/cmdline''),
         (''/debug/pprof/profile'', pprof ''/debug/pprof/profile''), (''/debug/pprof/symbol'', pprof ''/debug/pprof/symbol''),
         (''/debug/pprof/trace'', pprof ''/debug/pprof/trace''),
         (''/stats/summary'', summary_handler pe bv ''/stats'' root), (''/stats/clear'', clear_handler ''/stats''),
         (''/'', to_response (http_Redirect ''/stats/summary'' 302))] of
        (Ret None, m) \<Rightarrow> (Ret (), m)
      | (Ret (Some err), m) \<Rightarrow> (Fatal ''cannot start HTTP server'', m)
      | (Panic e, m) \<Rightarrow> (Panic e, m) | (Fatal e, m) \<Rightarrow> (Fatal e, m) | (Diverge, m) \<Rightarrow> (Diverge, m))"
  by (auto simp: runHTTPServer_def SetupHTTPHandlers_def http_HandleFunc_def root_handler_def DefaultServeMux_def pprof_patterns_def
      bnd_def fatal_def panic_def split: prod.split outcome.split option.split)

end
