(* ===== verification/Signals.thy ===== *)
theory Signals
  imports Prelude
begin

text \<open>
  Termination by a signal: the goroutine \<^verbatim>\<open>unmountOnSignal\<close> of \<^verbatim>\<open>internal/fs/root.go\<close> next to the end of \<^verbatim>\<open>Loop\<close>,
  which serves until the file system is unmounted. The two interleave statement by statement with signals that
  the kernel delivers and with somebody else unmounting the file system.

  Parameters: whether \<^verbatim>\<open>fuse.Unmount\<close> and \<^verbatim>\<open>os.FindProcess\<close> succeed. The channels \<^verbatim>\<open>wait\<close> and \<^verbatim>\<open>caught\<close> have room
  for one signal. A signal that is asked for by \<^verbatim>\<open>signal.Notify\<close> is sent to \<^verbatim>\<open>wait\<close>, or dropped if there is no room; any
  other one ends the process. A signal that the process sends to itself is pending until the kernel delivers it.
\<close>

datatype signal = SIGINT | SIGHUP | SIGTERM

text \<open>The statement that the goroutine is about to execute; \<^verbatim>\<open>caught <- <-wait\<close> receives and then sends.\<close>

datatype sig_pc = AtNotify | AtReceive | AtSend signal | AtReset | AtUnmount | AtEnd

text \<open>The statement that \<^verbatim>\<open>Loop\<close> is about to execute.\<close>

datatype loop_pc = LServing | LSelect | LFindProcess signal | LSignal signal | LSleep | LReturned

record sig_env =
  unmount_ok :: bool
  find_ok :: bool

text \<open>
  \<open>sg_handler\<close> records that the goroutine unmounted the file system, and \<open>sg_delivered\<close> the signals delivered so
  far, newest first.
\<close>

record sig_state =
  sg_pc :: sig_pc
  sg_loop :: loop_pc
  sg_wait :: "signal list"
  sg_caught :: "signal list"
  sg_notify :: bool
  sg_pending :: "signal list"
  sg_mounted :: bool
  sg_handler :: bool
  sg_delivered :: "signal list"
  sg_killed :: "signal option"

text \<open>When \<^verbatim>\<open>Loop\<close> starts the goroutine.\<close>

definition sig_start :: sig_state where
  "sig_start = \<lparr>sg_pc = AtNotify, sg_loop = LServing, sg_wait = [], sg_caught = [], sg_notify = False, sg_pending = [],
     sg_mounted = True, sg_handler = False, sg_delivered = [], sg_killed = None\<rparr>"

text \<open>One statement of the goroutine, nothing if it is blocked or has ended. An error of \<^verbatim>\<open>fuse.Unmount\<close> is only logged.\<close>

definition unmountOnSignal :: "sig_env \<Rightarrow> sig_state \<Rightarrow> sig_state option" where
  "unmountOnSignal env s = (case sg_pc s of
       AtNotify \<Rightarrow> Some (s\<lparr>sg_notify := True, sg_pc := AtReceive\<rparr>)
     | AtReceive \<Rightarrow> (case sg_wait s of
           [] \<Rightarrow> None
         | x # rest \<Rightarrow> Some (s\<lparr>sg_wait := rest, sg_pc := AtSend x\<rparr>))
     | AtSend x \<Rightarrow> (if sg_caught s = [] then Some (s\<lparr>sg_caught := [x], sg_pc := AtReset\<rparr>) else None)
     | AtReset \<Rightarrow> Some (s\<lparr>sg_notify := False, sg_pc := AtUnmount\<rparr>)
     | AtUnmount \<Rightarrow> Some (if unmount_ok env then s\<lparr>sg_mounted := False, sg_handler := sg_mounted s, sg_pc := AtEnd\<rparr>
         else s\<lparr>sg_pc := AtEnd\<rparr>)
     | AtEnd \<Rightarrow> None)"

text \<open>
  One statement of the end of \<^verbatim>\<open>Loop\<close>: serving ends when the file system is unmounted, the \<^verbatim>\<open>select\<close> takes a caught
  signal or returns, the signal is sent to the own process, and then \<^verbatim>\<open>Loop\<close> sleeps for ever.
\<close>

definition Loop_end :: "sig_env \<Rightarrow> sig_state \<Rightarrow> sig_state option" where
  "Loop_end env s = (case sg_loop s of
       LServing \<Rightarrow> if sg_mounted s then None else Some (s\<lparr>sg_loop := LSelect\<rparr>)
     | LSelect \<Rightarrow> Some (case sg_caught s of
           x # rest \<Rightarrow> s\<lparr>sg_caught := rest, sg_loop := LFindProcess x\<rparr>
         | [] \<Rightarrow> s\<lparr>sg_loop := LReturned\<rparr>)
     | LFindProcess x \<Rightarrow> Some (if find_ok env then s\<lparr>sg_loop := LSignal x\<rparr> else s\<lparr>sg_loop := LReturned\<rparr>)
     | LSignal x \<Rightarrow> Some (s\<lparr>sg_pending := sg_pending s @ [x], sg_loop := LSleep\<rparr>)
     | LSleep \<Rightarrow> None
     | LReturned \<Rightarrow> None)"

definition deliver :: "signal \<Rightarrow> sig_state \<Rightarrow> sig_state" where
  "deliver x s = (if sg_notify s
     then s\<lparr>sg_wait := (if sg_wait s = [] then [x] else sg_wait s), sg_delivered := x # sg_delivered s\<rparr>
     else s\<lparr>sg_killed := Some x, sg_delivered := x # sg_delivered s\<rparr>)"

text \<open>The steps that the program and the kernel take of themselves, and the two that come from outside.\<close>

inductive own_step :: "sig_env \<Rightarrow> sig_state \<Rightarrow> sig_state \<Rightarrow> bool" for env where
  handler: "sg_killed s = None \<Longrightarrow> unmountOnSignal env s = Some s' \<Longrightarrow> own_step env s s'"
| loop: "sg_killed s = None \<Longrightarrow> Loop_end env s = Some s' \<Longrightarrow> own_step env s s'"
| delivery: "sg_killed s = None \<Longrightarrow> sg_pending s = x # rest \<Longrightarrow> own_step env s (deliver x (s\<lparr>sg_pending := rest\<rparr>))"

inductive sig_step :: "sig_env \<Rightarrow> sig_state \<Rightarrow> sig_state \<Rightarrow> bool" for env where
  own: "own_step env s s' \<Longrightarrow> sig_step env s s'"
| signal: "sg_killed s = None \<Longrightarrow> sig_step env s (deliver x s)"
| unmounted: "sg_killed s = None \<Longrightarrow> sig_step env s (s\<lparr>sg_mounted := False\<rparr>)"

text \<open>The process lives, and nothing that is under way will end it: only another signal can.\<close>

definition asleep :: "sig_state \<Rightarrow> bool" where
  "asleep s \<longleftrightarrow> sg_loop s = LSleep \<and> sg_pending s = [] \<and> sg_killed s = None"

section \<open>Invariants\<close>

abbreviation first_signal :: "sig_state \<Rightarrow> signal" where
  "first_signal s \<equiv> last (sg_delivered s)"

text \<open>
  Up to the statement that sends the signal nothing is caught. From there on exactly the first delivered signal
  is, and \<^verbatim>\<open>signal.Reset\<close> runs before the goroutine unmounts the file system.
\<close>

definition handler_inv :: "sig_state \<Rightarrow> bool" where
  "handler_inv s \<longleftrightarrow> (case sg_pc s of
       AtNotify \<Rightarrow> \<not> sg_notify s \<and> sg_wait s = [] \<and> (sg_delivered s = [] \<or> sg_killed s \<noteq> None)
     | AtReceive \<Rightarrow> sg_notify s \<and> sg_wait s = (if sg_delivered s = [] then [] else [first_signal s])
     | AtSend x \<Rightarrow> sg_notify s \<and> sg_delivered s \<noteq> [] \<and> x = first_signal s
     | AtReset \<Rightarrow> sg_notify s \<and> sg_delivered s \<noteq> []
     | AtUnmount \<Rightarrow> \<not> sg_notify s \<and> sg_delivered s \<noteq> []
     | AtEnd \<Rightarrow> \<not> sg_notify s \<and> sg_delivered s \<noteq> [])"

definition sent :: "sig_state \<Rightarrow> bool" where
  "sent s \<longleftrightarrow> sg_pc s \<in> {AtReset, AtUnmount, AtEnd}"

text \<open>
  Where the caught signal is: in the channel, on its way through \<^verbatim>\<open>Loop\<close>, pending, or, once delivered, in the
  channel that nobody reads any more.
\<close>

definition loop_inv :: "sig_state \<Rightarrow> bool" where
  "loop_inv s \<longleftrightarrow> (case sg_loop s of
       LServing \<Rightarrow> sg_pending s = [] \<and> sg_caught s = (if sent s then [first_signal s] else [])
     | LSelect \<Rightarrow> sg_pending s = [] \<and> sg_caught s = (if sent s then [first_signal s] else [])
     | LFindProcess x \<Rightarrow> sent s \<and> sg_caught s = [] \<and> sg_pending s = [] \<and> x = first_signal s
     | LSignal x \<Rightarrow> sent s \<and> sg_caught s = [] \<and> sg_pending s = [] \<and> x = first_signal s
     | LSleep \<Rightarrow> sent s \<and> sg_caught s = [] \<and>
         (sg_pending s = [first_signal s] \<or> sg_pending s = [] \<and> (sg_wait s \<noteq> [] \<or> sg_killed s \<noteq> None))
     | LReturned \<Rightarrow> sg_pending s = [])"

text \<open>If the goroutine unmounted the file system, then \<^verbatim>\<open>Loop\<close> was serving until then.\<close>

definition unmount_inv :: "sig_env \<Rightarrow> sig_state \<Rightarrow> bool" where
  "unmount_inv env s \<longleftrightarrow> (sg_mounted s \<longrightarrow> sg_loop s = LServing) \<and>
     (sg_handler s \<longrightarrow> sg_pc s = AtEnd \<and> \<not> sg_mounted s \<and> (sg_loop s = LReturned \<longrightarrow> \<not> find_ok env) \<and>
        (sg_loop s = LSleep \<longrightarrow> sg_pending s \<noteq> [] \<or> sg_killed s \<noteq> None))"

definition sig_inv :: "sig_env \<Rightarrow> sig_state \<Rightarrow> bool" where
  "sig_inv env s \<longleftrightarrow> handler_inv s \<and> loop_inv s \<and> unmount_inv env s"

lemmas sig_inv_defs = sig_inv_def handler_inv_def loop_inv_def unmount_inv_def sent_def

lemma handler_keeps:
  assumes "unmountOnSignal env s = Some s'" "sig_inv env s" "sg_killed s = None"
  shows "sig_inv env s'"
proof (cases "sg_pc s")
  case AtUnmount
  with assms(1) have s': "s' = (if unmount_ok env then s\<lparr>sg_mounted := False, sg_handler := sg_mounted s, sg_pc := AtEnd\<rparr>
      else s\<lparr>sg_pc := AtEnd\<rparr>)" by (simp add: unmountOnSignal_def)
  from assms(2,3) AtUnmount show ?thesis unfolding s' by (cases "sg_loop s") (simp_all add: sig_inv_defs)
next
  case AtReceive
  with assms show ?thesis
    by (cases "sg_loop s") (auto simp: sig_inv_defs unmountOnSignal_def split: list.splits if_splits)
next
  case AtNotify
  with assms(1) have s': "s' = s\<lparr>sg_notify := True, sg_pc := AtReceive\<rparr>" by (simp add: unmountOnSignal_def)
  from assms(2,3) AtNotify show ?thesis unfolding s' by (cases "sg_loop s") (simp_all add: sig_inv_defs)
next
  case (AtSend x)
  with assms(1) have s': "s' = s\<lparr>sg_caught := [x], sg_pc := AtReset\<rparr>" by (simp add: unmountOnSignal_def split: if_splits)
  from assms(2,3) AtSend show ?thesis unfolding s' by (cases "sg_loop s") (simp_all add: sig_inv_defs)
next
  case AtReset
  with assms(1) have s': "s' = s\<lparr>sg_notify := False, sg_pc := AtUnmount\<rparr>" by (simp add: unmountOnSignal_def)
  from assms(2,3) AtReset show ?thesis unfolding s' by (cases "sg_loop s") (simp_all add: sig_inv_defs)
qed (use assms in \<open>simp add: unmountOnSignal_def\<close>)

lemma loop_keeps:
  assumes "Loop_end env s = Some s'" "sig_inv env s" "sg_killed s = None"
  shows "sig_inv env s'"
proof (cases "sg_loop s")
  case LSelect
  with assms(1) have s': "s' = (case sg_caught s of x # rest \<Rightarrow> s\<lparr>sg_caught := rest, sg_loop := LFindProcess x\<rparr>
      | [] \<Rightarrow> s\<lparr>sg_loop := LReturned\<rparr>)" by (simp add: Loop_end_def)
  from assms(2,3) LSelect show ?thesis unfolding s' by (cases "sg_pc s") (simp_all add: sig_inv_defs)
next
  case LServing
  with assms(1) have s': "s' = s\<lparr>sg_loop := LSelect\<rparr>" "\<not> sg_mounted s" by (simp_all add: Loop_end_def split: if_splits)
  from assms(2,3) LServing s'(2) show ?thesis unfolding s'(1) by (cases "sg_pc s") (simp_all add: sig_inv_defs)
next
  case (LFindProcess x)
  with assms(1) have s': "s' = s\<lparr>sg_loop := if find_ok env then LSignal x else LReturned\<rparr>" by (auto simp: Loop_end_def)
  from assms(2,3) LFindProcess show ?thesis unfolding s' by (cases "sg_pc s") (simp_all add: sig_inv_defs)
next
  case (LSignal x)
  with assms(1) have s': "s' = s\<lparr>sg_pending := sg_pending s @ [x], sg_loop := LSleep\<rparr>" by (simp add: Loop_end_def)
  from assms(2,3) LSignal show ?thesis unfolding s' by (cases "sg_pc s") (simp_all add: sig_inv_defs)
qed (use assms in \<open>simp_all add: Loop_end_def\<close>)

lemma deliver_keeps:
  assumes "sig_inv env s" "sg_killed s = None"
  shows "sig_inv env (deliver x s)"
  using assms by (cases "sg_pc s"; cases "sg_loop s") (auto simp: sig_inv_defs deliver_def split: if_splits)

lemma delivery_keeps:
  assumes "sg_pending s = x # rest" "sig_inv env s" "sg_killed s = None"
  shows "sig_inv env (deliver x (s\<lparr>sg_pending := rest\<rparr>))"
  using assms by (cases "sg_pc s"; cases "sg_loop s") (auto simp: sig_inv_defs deliver_def split: if_splits)

lemma own_step_inv: "own_step env s s' \<Longrightarrow> sig_inv env s \<Longrightarrow> sig_inv env s'"
  by (induction rule: own_step.induct) (simp_all add: handler_keeps loop_keeps delivery_keeps)

lemma sig_step_inv: "sig_step env s s' \<Longrightarrow> sig_inv env s \<Longrightarrow> sig_inv env s'"
proof (induction rule: sig_step.induct)
  case (unmounted s)
  then show ?case by (cases "sg_loop s") (auto simp: sig_inv_defs split: sig_pc.splits)
qed (simp_all add: own_step_inv deliver_keeps)

lemma sig_reachable_inv: "(sig_step env)\<^sup>*\<^sup>* sig_start s \<Longrightarrow> sig_inv env s"
proof (induction rule: rtranclp_induct)
  case base
  show ?case by (simp add: sig_inv_defs sig_start_def)
qed (rule sig_step_inv)

section \<open>How the program ends\<close>

text \<open>After the goroutine has unmounted the file system, the statements of \<^verbatim>\<open>Loop\<close> lead to the first signal.\<close>

definition ends_by_first :: "sig_env \<Rightarrow> sig_state \<Rightarrow> bool" where
  "ends_by_first env s \<longleftrightarrow> (\<exists>s'. (own_step env)\<^sup>*\<^sup>* s s' \<and> sg_killed s' = Some (first_signal s))"

lemma ends_by_step:
  assumes "own_step env s s1" "ends_by_first env s1" "first_signal s1 = first_signal s"
  shows "ends_by_first env s"
proof -
  from assms(2,3) obtain s' where "(own_step env)\<^sup>*\<^sup>* s1 s'" "sg_killed s' = Some (first_signal s)"
    by (auto simp: ends_by_first_def)
  with assms(1) show ?thesis
    unfolding ends_by_first_def using converse_rtranclp_into_rtranclp [where r = "own_step env" and a = s] by blast
qed

lemma ends_by_loop:
  assumes "Loop_end env s = Some s1" "sg_killed s = None" "sg_delivered s1 = sg_delivered s" "ends_by_first env s1"
  shows "ends_by_first env s"
  using ends_by_step [OF own_step.loop [OF assms(2,1)] assms(4)] assms(3) by simp

definition unmounting :: "sig_env \<Rightarrow> sig_state \<Rightarrow> bool" where
  "unmounting env s \<longleftrightarrow> sig_inv env s \<and> sg_killed s = None \<and> sg_handler s \<and> find_ok env"

lemma unmounting_loop:
  assumes "Loop_end env s = Some s1" "unmounting env s"
  shows "unmounting env s1" "sg_delivered s1 = sg_delivered s"
proof -
  have "sg_killed s1 = sg_killed s \<and> sg_handler s1 = sg_handler s \<and> sg_delivered s1 = sg_delivered s"
    using assms(1) by (cases "sg_loop s"; cases "sg_caught s") (auto simp: Loop_end_def split: if_splits)
  then show "unmounting env s1" "sg_delivered s1 = sg_delivered s"
    using loop_keeps [OF assms(1)] assms(2) by (auto simp: unmounting_def)
qed

lemma unmounting_state:
  assumes "unmounting env s"
  shows "\<not> sg_notify s" "\<not> sg_mounted s" "sg_loop s \<noteq> LReturned" "sg_delivered s \<noteq> []"
    "sg_loop s = LServing \<or> sg_loop s = LSelect \<Longrightarrow> sg_caught s = [first_signal s]"
    "sg_loop s = LFindProcess x \<or> sg_loop s = LSignal x \<Longrightarrow> x = first_signal s"
    "sg_loop s = LSleep \<Longrightarrow> sg_pending s = [first_signal s]"
  using assms by (auto simp: unmounting_def sig_inv_defs)

lemma unmounting_sleep: "unmounting env s \<Longrightarrow> sg_loop s = LSleep \<Longrightarrow> ends_by_first env s"
proof -
  assume s: "unmounting env s" "sg_loop s = LSleep"
  let ?s1 = "deliver (first_signal s) (s\<lparr>sg_pending := []\<rparr>)"
  have "own_step env s ?s1"
    by (rule delivery) (use s unmounting_state [OF s(1)] in \<open>auto simp: unmounting_def\<close>)
  moreover have "sg_killed ?s1 = Some (first_signal s)" using unmounting_state(1) [OF s(1)] by (simp add: deliver_def)
  ultimately show ?thesis unfolding ends_by_first_def by blast
qed

lemma unmounting_ends:
  assumes "unmounting env s"
  shows "ends_by_first env s"
proof -
  have next_pc: "ends_by_first env s" if u: "unmounting env s" and "Loop_end env s = Some s1" "unmounting env s1 \<Longrightarrow> ends_by_first env s1" for s s1
    using ends_by_loop [OF that(2)] unmounting_loop [OF that(2) u] that(3) u by (auto simp: unmounting_def)
  have sig: "ends_by_first env s" if u: "unmounting env s" "sg_loop s = LSignal x" for s x
    by (rule next_pc [OF u(1), of "s\<lparr>sg_pending := sg_pending s @ [x], sg_loop := LSleep\<rparr>"])
       (use u in \<open>simp_all add: Loop_end_def unmounting_sleep\<close>)
  have fnd: "ends_by_first env s" if u: "unmounting env s" "sg_loop s = LFindProcess x" for s x
    by (rule next_pc [OF u(1), of "s\<lparr>sg_loop := LSignal x\<rparr>"])
       (use u sig [where x = x] in \<open>simp_all add: Loop_end_def unmounting_def\<close>)
  have sel: "ends_by_first env s" if u: "unmounting env s" "sg_loop s = LSelect" for s
    by (rule next_pc [OF u(1), of "s\<lparr>sg_caught := [], sg_loop := LFindProcess (first_signal s)\<rparr>"])
       (use u fnd [where x = "first_signal s"] unmounting_state(5) [OF u(1)] in \<open>simp_all add: Loop_end_def\<close>)
  have srv: "ends_by_first env s" if u: "unmounting env s" "sg_loop s = LServing" for s
    by (rule next_pc [OF u(1), of "s\<lparr>sg_loop := LSelect\<rparr>"])
       (use u sel unmounting_state(2) [OF u(1)] in \<open>simp_all add: Loop_end_def\<close>)
  show ?thesis
    using srv sel fnd sig unmounting_sleep unmounting_state(3) assms by (cases "sg_loop s") blast+
qed

text \<open>Whatever ends the process after that, without a further signal, is the first signal.\<close>

lemma own_kill:
  assumes "(own_step env)\<^sup>*\<^sup>* s s'" "sig_inv env s" "sg_killed s = None" "sg_handler s"
  shows "(sg_killed s' = None \<or> sg_killed s' = Some (first_signal s)) \<and> first_signal s' = first_signal s \<and> sig_inv env s' \<and> sg_handler s'"
  using assms(1)
proof (induction rule: rtranclp_induct)
  case base
  then show ?case using assms(2-4) by simp
next
  case (step s1 s2)
  then have inv: "sig_inv env s1" "sg_handler s1" "first_signal s1 = first_signal s" by simp_all
  then have pc: "sg_pc s1 = AtEnd" "sg_delivered s1 \<noteq> []" by (auto simp: sig_inv_defs)
  from step(2) show ?case
  proof cases
    case handler
    then show ?thesis using pc by (simp add: unmountOnSignal_def)
  next
    case loop
    have "sg_killed s2 = sg_killed s1 \<and> sg_handler s2 = sg_handler s1 \<and> sg_delivered s2 = sg_delivered s1"
      using loop(2) by (cases "sg_loop s1"; cases "sg_caught s1") (auto simp: Loop_end_def split: if_splits)
    then show ?thesis using inv own_step_inv [OF step(2)] loop(1) by simp
  next
    case (delivery x rest)
    have "x = first_signal s1" using inv(1) delivery(3) by (auto simp: sig_inv_defs split: loop_pc.splits)
    then show ?thesis using inv own_step_inv [OF step(2)] delivery pc(2) by (auto simp: deliver_def)
  qed
qed

lemma undelivered_state:
  assumes "sig_inv env s" "sg_killed s = None" "sg_delivered s = []"
  shows "(sg_loop s = LServing \<or> sg_loop s = LSelect) \<and> sg_caught s = [] \<or> sg_loop s = LReturned"
proof -
  have "\<not> sent s" using assms by (cases "sg_pc s") (simp_all add: sig_inv_def handler_inv_def sent_def)
  then show ?thesis using assms by (cases "sg_loop s") (simp_all add: sig_inv_def loop_inv_def)
qed

lemma undelivered_returns:
  assumes "sig_inv env s" "sg_killed s = None" "sg_delivered s = []" "\<not> sg_mounted s"
  shows "\<exists>s'. (own_step env)\<^sup>*\<^sup>* s s' \<and> sg_loop s' = LReturned \<and> sg_killed s' = None"
proof -
  have select: "\<exists>s'. own_step env s s' \<and> sg_loop s' = LReturned \<and> sg_killed s' = None"
    if "sg_loop s = LSelect" "sg_caught s = []" "sg_killed s = None" for s
    using own_step.loop [of s env "s\<lparr>sg_loop := LReturned\<rparr>"] that
    by (intro exI [of _ "s\<lparr>sg_loop := LReturned\<rparr>"]) (simp add: Loop_end_def)
  have serve: "own_step env s (s\<lparr>sg_loop := LSelect\<rparr>)" if "sg_loop s = LServing"
    by (rule own_step.loop) (use assms(2,4) that in \<open>simp_all add: Loop_end_def\<close>)
  consider "sg_loop s = LReturned" | "sg_loop s = LSelect" "sg_caught s = []" | "sg_loop s = LServing" "sg_caught s = []"
    using undelivered_state [OF assms(1-3)] by blast
  then show ?thesis
  proof cases
    case 1
    then show ?thesis using assms(2) by blast
  next
    case 2
    then show ?thesis using select [of s] assms(2) by blast
  next
    case 3
    then obtain s' where s': "own_step env (s\<lparr>sg_loop := LSelect\<rparr>) s'" "sg_loop s' = LReturned" "sg_killed s' = None"
      using select [of "s\<lparr>sg_loop := LSelect\<rparr>"] assms(2) by auto
    have "(own_step env)\<^sup>*\<^sup>* s s'"
      by (rule converse_rtranclp_into_rtranclp [OF serve [OF 3(1)] r_into_rtranclp [of "own_step env", OF s'(1)]])
    with s' show ?thesis by blast
  qed
qed

text \<open>A process that is asleep was not unmounted by its own goroutine, and the caught signal is back in \<^verbatim>\<open>wait\<close>.\<close>

lemma asleep_state:
  assumes "sig_inv env s" "asleep s"
  shows "\<not> sg_handler s" "\<not> sg_mounted s" "sg_wait s \<noteq> []" "sent s"
  using assms by (auto simp: sig_inv_def loop_inv_def unmount_inv_def asleep_def)

lemma asleep_step:
  assumes "own_step env s s'" "asleep s" "sent s"
  shows "asleep s' \<and> sent s'"
  using assms(1)
proof cases
  case handler
  then show ?thesis using assms(2,3)
    by (cases "sg_pc s"; cases "unmount_ok env") (auto simp: unmountOnSignal_def asleep_def sent_def)
qed (use assms(2) in \<open>simp_all add: asleep_def Loop_end_def\<close>)

lemma asleep_run: "(own_step env)\<^sup>*\<^sup>* s s' \<Longrightarrow> asleep s \<Longrightarrow> sent s \<Longrightarrow> asleep s' \<and> sent s'"
  by (induction rule: rtranclp_induct) (simp_all add: asleep_step)

section \<open>Termination\<close>

text \<open>The statements that are left for the goroutine, for \<^verbatim>\<open>Loop\<close> and for the kernel.\<close>

definition steps_left :: "sig_state \<Rightarrow> nat" where
  "steps_left s = (case sg_pc s of AtNotify \<Rightarrow> 5 | AtReceive \<Rightarrow> 4 | AtSend x \<Rightarrow> 3 | AtReset \<Rightarrow> 2 | AtUnmount \<Rightarrow> 1 | AtEnd \<Rightarrow> 0) +
     (case sg_loop s of LServing \<Rightarrow> 6 | LSelect \<Rightarrow> 5 | LFindProcess x \<Rightarrow> 4 | LSignal x \<Rightarrow> 3 | LSleep \<Rightarrow> 0 | LReturned \<Rightarrow> 0) +
     length (sg_pending s)"

lemma handler_steps_left: "unmountOnSignal env s = Some s' \<Longrightarrow> steps_left s' < steps_left s"
  by (cases "sg_pc s"; cases "unmount_ok env") (auto simp: unmountOnSignal_def steps_left_def split: list.splits if_splits)

lemma loop_steps_left: "Loop_end env s = Some s' \<Longrightarrow> steps_left s' < steps_left s"
  by (cases "sg_loop s"; cases "sg_caught s"; cases "find_ok env") (auto simp: Loop_end_def steps_left_def split: if_splits)

lemma own_step_steps_left: "own_step env s s' \<Longrightarrow> steps_left s' < steps_left s"
proof (induction rule: own_step.induct)
  case (delivery s x rest)
  then show ?case by (simp add: deliver_def steps_left_def)
qed (simp_all add: handler_steps_left loop_steps_left)

lemma own_step_terminates: "wfP (own_step env)\<inverse>\<inverse>"
  by (rule wfp_if_convertible_to_nat [of _ steps_left]) (simp add: own_step_steps_left)

lemma ends_by_first_progress:
  assumes "ends_by_first env s" "sg_killed s = None"
  shows "\<exists>s'. own_step env s s'"
proof -
  obtain s' where "(own_step env)\<^sup>*\<^sup>* s s'" "sg_killed s' \<noteq> sg_killed s" using assms by (auto simp: ends_by_first_def)
  then show ?thesis by (auto elim: converse_rtranclpE)
qed

lemma unmounting_run:
  assumes "(own_step env)\<^sup>*\<^sup>* s s'" "unmounting env s" "sg_killed s' \<noteq> Some (first_signal s)"
  shows "\<exists>s''. own_step env s' s''"
proof -
  have "unmounting env s'" using own_kill [OF assms(1)] assms(2,3) by (auto simp: unmounting_def)
  then show ?thesis using unmounting_ends ends_by_first_progress by (auto simp: unmounting_def)
qed

section \<open>Runs\<close>

abbreviation reached :: "sig_env \<Rightarrow> sig_state \<Rightarrow> bool" where
  "reached env \<equiv> (sig_step env)\<^sup>*\<^sup>* sig_start"

lemma reached_handler: "reached env s \<Longrightarrow> sg_killed s = None \<Longrightarrow> unmountOnSignal env s = Some s' \<Longrightarrow> reached env s'"
  by (rule rtranclp.rtrancl_into_rtrancl) (auto intro: own own_step.handler)

lemma reached_loop: "reached env s \<Longrightarrow> sg_killed s = None \<Longrightarrow> Loop_end env s = Some s' \<Longrightarrow> reached env s'"
  by (rule rtranclp.rtrancl_into_rtrancl) (auto intro: own own_step.loop)

lemma reached_delivery:
  "reached env s \<Longrightarrow> sg_killed s = None \<Longrightarrow> sg_pending s = x # rest \<Longrightarrow> reached env (deliver x (s\<lparr>sg_pending := rest\<rparr>))"
  by (rule rtranclp.rtrancl_into_rtrancl) (auto intro: own own_step.delivery)

lemma reached_signal: "reached env s \<Longrightarrow> sg_killed s = None \<Longrightarrow> reached env (deliver x s)"
  by (rule rtranclp.rtrancl_into_rtrancl) (auto intro: sig_step.signal)

lemma reached_unmounted: "reached env s \<Longrightarrow> sg_killed s = None \<Longrightarrow> reached env (s\<lparr>sg_mounted := False\<rparr>)"
  by (rule rtranclp.rtrancl_into_rtrancl) (auto intro: sig_step.unmounted)

lemmas sig_exec = unmountOnSignal_def Loop_end_def deliver_def sig_start_def

text \<open>The goroutine has caught a signal and sent it to \<^verbatim>\<open>Loop\<close>.\<close>

definition sig_caught :: "signal \<Rightarrow> sig_state" where
  "sig_caught x = sig_start\<lparr>sg_pc := AtReset, sg_notify := True, sg_caught := [x], sg_delivered := [x]\<rparr>"

lemma sig_caught_reached: "reached env (sig_caught x)"
proof -
  let ?s1 = "sig_start\<lparr>sg_notify := True, sg_pc := AtReceive\<rparr>"
  have "reached env ?s1" by (rule reached_handler [of env sig_start]) (simp_all add: sig_exec)
  then have "reached env (deliver x ?s1)" by (rule reached_signal) (simp add: sig_exec)
  then have "reached env (?s1\<lparr>sg_pc := AtSend x, sg_delivered := [x]\<rparr>)"
    by (rule reached_handler) (simp_all add: sig_exec)
  then show ?thesis by (rule reached_handler) (simp_all add: sig_exec sig_caught_def)
qed

text \<open>The goroutine goes on to unmount the file system.\<close>

definition sig_unmounted :: "signal \<Rightarrow> sig_state" where
  "sig_unmounted x = (sig_caught x)\<lparr>sg_pc := AtEnd, sg_notify := False, sg_mounted := False, sg_handler := True\<rparr>"

lemma sig_unmounted_reached:
  assumes "unmount_ok env"
  shows "reached env (sig_unmounted x)"
proof -
  have "reached env ((sig_caught x)\<lparr>sg_pc := AtUnmount, sg_notify := False\<rparr>)"
    by (rule reached_handler [OF sig_caught_reached [of env x]]) (simp_all add: sig_exec sig_caught_def)
  then show ?thesis
    by (rule reached_handler) (use assms in \<open>simp_all add: sig_exec sig_caught_def sig_unmounted_def\<close>)
qed

text \<open>Somebody else unmounts it first, and \<^verbatim>\<open>Loop\<close> redelivers the signal before the handlers are reset.\<close>

definition sig_lost :: "signal \<Rightarrow> sig_state" where
  "sig_lost x = (sig_caught x)\<lparr>sg_loop := LSleep, sg_mounted := False, sg_caught := [], sg_wait := [x], sg_delivered := [x, x]\<rparr>"

lemma sig_lost_reached:
  assumes "find_ok env"
  shows "reached env (sig_lost x)"
proof -
  let ?s = "(sig_caught x)\<lparr>sg_mounted := False\<rparr>"
  have "reached env ?s" by (rule reached_unmounted [OF sig_caught_reached]) (simp add: sig_exec sig_caught_def)
  then have "reached env (?s\<lparr>sg_loop := LSelect\<rparr>)"
    by (rule reached_loop) (simp_all add: sig_exec sig_caught_def)
  then have "reached env (?s\<lparr>sg_loop := LFindProcess x, sg_caught := []\<rparr>)"
    by (rule reached_loop) (simp_all add: sig_exec sig_caught_def)
  then have "reached env (?s\<lparr>sg_loop := LSignal x, sg_caught := []\<rparr>)"
    by (rule reached_loop) (use assms in \<open>simp_all add: sig_exec sig_caught_def\<close>)
  then have pending: "reached env (?s\<lparr>sg_loop := LSleep, sg_caught := [], sg_pending := [x]\<rparr>)" (is "reached env ?t")
    by (rule reached_loop) (simp_all add: sig_exec sig_caught_def)
  have "reached env (deliver x (?t\<lparr>sg_pending := []\<rparr>))"
    by (rule reached_delivery [OF pending]) (simp_all add: sig_exec sig_caught_def)
  then show ?thesis by (simp add: sig_exec sig_caught_def sig_lost_def)
qed

section \<open>Properties\<close>

text \<open>
  C31. \<^verbatim>\<open>unmountOnSignal\<close> next to the end of \<^verbatim>\<open>Loop\<close>, in every state reached by any interleaving of their statements
  with signals and with unmounts by somebody else, as long as the process lives, serving ends without an error and
  \<^verbatim>\<open>os.FindProcess\<close> succeeds. Left to itself the program stops taking steps after finitely many. If the goroutine
  unmounted the file system, it does not stop before it is killed by the first signal that was delivered. If no
  signal was delivered and the file system is unmounted, \<^verbatim>\<open>Loop\<close> can return and the process is not killed. If \<^verbatim>\<open>Loop\<close> sleeps with
  no signal under way, somebody else unmounted the file system, the redelivered signal is back in the channel that
  nobody reads again, and nothing but another signal ends the process.
\<close>

theorem signal_exit:
  assumes "(sig_step env)\<^sup>*\<^sup>* sig_start s" "sg_killed s = None" "find_ok env"
  shows "wfP (own_step env)\<inverse>\<inverse> \<and>
    (sg_handler s \<longrightarrow> sg_delivered s \<noteq> [] \<and> (\<forall>s'. (own_step env)\<^sup>*\<^sup>* s s' \<longrightarrow>
       sg_killed s' = Some (last (sg_delivered s)) \<or>
       sg_killed s' = None \<and> sg_loop s' \<noteq> LReturned \<and> (\<exists>s''. own_step env s' s''))) \<and>
    (sg_delivered s = [] \<and> \<not> sg_mounted s \<longrightarrow>
       (\<exists>s'. (own_step env)\<^sup>*\<^sup>* s s' \<and> sg_loop s' = LReturned \<and> sg_killed s' = None)) \<and>
    (asleep s \<longrightarrow> \<not> sg_handler s \<and> \<not> sg_mounted s \<and> sg_wait s \<noteq> [] \<and>
       (\<forall>s'. (own_step env)\<^sup>*\<^sup>* s s' \<longrightarrow> asleep s'))"
proof -
  have inv: "sig_inv env s" by (rule sig_reachable_inv [OF assms(1)])
  have "sg_killed s' = Some (first_signal s) \<or> sg_killed s' = None \<and> sg_loop s' \<noteq> LReturned \<and> (\<exists>s''. own_step env s' s'')"
    if "sg_handler s" "(own_step env)\<^sup>*\<^sup>* s s'" for s'
    using own_kill [OF that(2) inv assms(2) that(1)] unmounting_run [OF that(2)] inv assms(2,3) that(1)
    by (auto simp: unmounting_def sig_inv_def unmount_inv_def)
  moreover have "sg_delivered s \<noteq> []" if "sg_handler s"
    using unmounting_state(4) [of env s] inv assms(2,3) that by (simp add: unmounting_def)
  ultimately show ?thesis
    using own_step_terminates undelivered_returns [OF inv assms(2)] asleep_state [OF inv] asleep_run by blast
qed

theorem signal_exit_witness:
  "\<exists>s'. (own_step \<lparr>unmount_ok = True, find_ok = True\<rparr>)\<^sup>*\<^sup>* (sig_unmounted SIGTERM) s' \<and> sg_killed s' = Some SIGTERM"
proof -
  let ?env = "\<lparr>unmount_ok = True, find_ok = True\<rparr>" and ?s = "sig_unmounted SIGTERM"
  have s: "reached ?env ?s" "sg_killed ?s = None" "find_ok ?env" "sg_handler ?s" "last (sg_delivered ?s) = SIGTERM"
    using sig_unmounted_reached [of ?env] by (simp_all add: sig_unmounted_def sig_caught_def sig_start_def)
  note exit = signal_exit [OF s(1-3)]
  have run: "sg_killed s' = Some SIGTERM \<or> (\<exists>s''. own_step ?env s' s'')" if "(own_step ?env)\<^sup>*\<^sup>* ?s s'" for s'
    using exit s(4,5) that by fastforce
  have "(own_step ?env)\<^sup>*\<^sup>* ?s s' \<Longrightarrow> \<exists>s''. (own_step ?env)\<^sup>*\<^sup>* s' s'' \<and> sg_killed s'' = Some SIGTERM" for s'
    using exit [THEN conjunct1]
  proof (induction s' rule: wfp_induct_rule)
    case (less s')
    then show ?case using run [OF less.prems] rtranclp.rtrancl_into_rtrancl [OF less.prems] less.IH
      by (meson conversepI converse_rtranclp_into_rtranclp rtranclp.rtrancl_refl)
  qed
  then show ?thesis by blast
qed

text \<open>
  C32. The program can lose its signal: if somebody else unmounts the file system after \<^verbatim>\<open>unmountOnSignal\<close> has sent
  the caught signal and before it resets the handlers, \<^verbatim>\<open>Loop\<close> can redeliver the signal to the still installed
  handler, and the process then sleeps for ever, until somebody sends another signal, although the comment in
  \<^verbatim>\<open>Loop\<close> says that the handler was reset to the default.
\<close>

theorem signal_lost:
  assumes "find_ok env"
  shows "\<exists>s. (sig_step env)\<^sup>*\<^sup>* sig_start s \<and> sg_pc s = AtReset \<and> sg_delivered s = [x, x] \<and>
    (\<forall>s'. (own_step env)\<^sup>*\<^sup>* s s' \<longrightarrow> sg_loop s' = LSleep \<and> sg_killed s' = None)"
proof (intro exI conjI allI impI)
  have lost: "asleep (sig_lost x)" "sent (sig_lost x)"
    by (simp_all add: asleep_def sent_def sig_lost_def sig_caught_def sig_start_def)
  show "reached env (sig_lost x)" by (rule sig_lost_reached [OF assms])
  show "sg_pc (sig_lost x) = AtReset" "sg_delivered (sig_lost x) = [x, x]"
    by (simp_all add: sig_lost_def sig_caught_def)
  show "sg_loop s' = LSleep" "sg_killed s' = None" if "(own_step env)\<^sup>*\<^sup>* (sig_lost x) s'" for s'
    using asleep_run [OF that lost] by (simp_all add: asleep_def)
qed

theorem signal_lost_witness:
  "\<exists>s. (sig_step \<lparr>unmount_ok = True, find_ok = True\<rparr>)\<^sup>*\<^sup>* sig_start s \<and> sg_delivered s = [SIGHUP, SIGHUP] \<and>
     sg_pc s = AtReset \<and> sg_loop s = LSleep \<and> sg_killed s = None"
  using signal_lost [of "\<lparr>unmount_ok = True, find_ok = True\<rparr>" SIGHUP] by fastforce

end
