(* ===== verification/Spec2Isabelle.thy ===== *)
theory Spec2Isabelle
  imports Props_Stats Props_Metadata Props_Content Props_Fs Props_Mount Props_Main Props_Lifecycle Props_Status Signals
begin

text \<open>
  \<^bold>\<open>sourcachefs\<close> is a FUSE file system in Go that shows a slow, mostly immutable remote directory and caches what it
  sees: attributes, listings, link targets and the absence of names in an SQLite database, the contents of
  files in a directory of files named after their MD5 digests. This development models the program and proves what
  makes it correct.

  \<^bold>\<open>The program and its model.\<close> The paths are those under \<^verbatim>\<open>src/\<close>.

  \<^item> \<^verbatim>\<open>internal/stats/stats.go\<close>: the counters. Theory \<^verbatim>\<open>Stats\<close>: the record \<open>Stats\<close>, one definition per method.
    The locale \<open>stats_interface\<close> says what a client may rely on; the sums follow from it.
  \<^item> \<^verbatim>\<open>internal/stats/status.go\<close>: the status page. \<^verbatim>\<open>Status\<close>: the template, the rows, sorting through
    \<^verbatim>\<open>sort.Interface\<close>, HTML escaping, the two handlers. \<^verbatim>\<open>Status_Laws\<close>: the locale \<open>sort_interface\<close>, interpreted
    on both slice types, and the text of the page.
  \<^item> \<^verbatim>\<open>internal/real/syscalls.go\<close>: counted system calls. \<^verbatim>\<open>Syscalls\<close>, over \<^verbatim>\<open>Os\<close>, a kernel with a tree of nodes, open
    files and faults, and its laws in \<^verbatim>\<open>Os_Laws\<close>.
  \<^item> \<^verbatim>\<open>internal/cache/types.go\<close>: \<^verbatim>\<open>Types\<close>.
  \<^item> \<^verbatim>\<open>internal/cache/sqlite.go\<close>: \<^verbatim>\<open>Sqlite\<close> has the retry loops, \<^verbatim>\<open>Metadata_Open\<close> opening and preparing.
  \<^item> \<^verbatim>\<open>internal/cache/metadata.go\<close>: \<^verbatim>\<open>Metadata_Open\<close> has the schema, the prepared statements and closing;
    \<^verbatim>\<open>Metadata_Lifecycle\<close> what holds after opening and closing for every pattern of driver errors. \<^verbatim>\<open>Metadata\<close> has the table, the
    statements as functions on it, the encoding of listings and every operation, with the locales \<open>table_invariant\<close> and \<open>table_upsert\<close> for
    invariants of the table. \<^verbatim>\<open>Metadata_Store\<close> relates it to a map from paths to rows (\<open>metadata_store\<close>), \<^verbatim>\<open>Metadata_Runs\<close> has histories.
  \<^item> \<^verbatim>\<open>internal/cache/content.go\<close>: \<^verbatim>\<open>Content\<close>, with \<^verbatim>\<open>Md5\<close>. \<^verbatim>\<open>Content_Laws\<close> follows the copy loop and
    \<^verbatim>\<open>PutContents\<close> through every error; \<^verbatim>\<open>Content_Store\<close> is the contract \<open>content_store\<close> and its interpretation.
  \<^item> \<^verbatim>\<open>internal/cache/cache.go\<close>: \<^verbatim>\<open>Cache\<close>.
  \<^item> \<^verbatim>\<open>internal/fs/root.go\<close>, \<^verbatim>\<open>dir.go\<close>, \<^verbatim>\<open>file.go\<close>, \<^verbatim>\<open>symlink.go\<close>: \<^verbatim>\<open>Fs_Root\<close>, \<^verbatim>\<open>Fs_Dir\<close>, \<^verbatim>\<open>Fs_File\<close>.
    \<^verbatim>\<open>Fs_Laws\<close> has the locales \<open>fs_operations\<close> and \<open>fs_invariant\<close> of what handlers keep, \<^verbatim>\<open>Fs_Lazy\<close> the contract \<open>lazy_slot\<close> of lazily filled
    fields, \<^verbatim>\<open>Fs_Spec\<close> and \<^verbatim>\<open>Fs_Reads\<close> what the handlers answer. \<^verbatim>\<open>Signals\<close> is the goroutine
    \<^verbatim>\<open>unmountOnSignal\<close> next to the end of \<^verbatim>\<open>Loop\<close>, interleaved statement by statement with each other, with signals
    and with unmounts by somebody else.
  \<^item> The handlers together: \<^verbatim>\<open>Mount\<close> is the mounted file system as a step relation with a request as a step, \<^verbatim>\<open>Mount_Laws\<close> its
    invariant, and \<^verbatim>\<open>Mount_Missing\<close> what a name that was found missing keeps through every later request.
  \<^item> \<^verbatim>\<open>cmd/sourcachefs/main.go\<close>: \<^verbatim>\<open>CmdMain\<close>, and the laws of a whole run in \<^verbatim>\<open>Main_Laws\<close>.
  \<^item> \<^verbatim>\<open>Prelude\<close> has programs and their outcomes, the rules for invariants (\<open>keeps\<close>) and for total correctness
    (\<open>returns\<close>); \<^verbatim>\<open>Go_Strings\<close> the functions of Go's library on strings and paths; \<^verbatim>\<open>Examples\<close> a small
    concrete system on which the theorems are applied.

  \<^bold>\<open>How effects are represented.\<close> A Go function is a function from a state to an outcome and a state; an outcome is a
  returned value, a panic, a fatal exit, or that the function never returns. Errors are values of a sum
  type. Words have their width. A retry loop is written so that never returning is an outcome of its own; no fuel
  is used anywhere.

  \<^bold>\<open>What is proved.\<close> The properties stand in the theories \<^verbatim>\<open>Props_...\<close> and \<^verbatim>\<open>Signals\<close>.

  \<^item> The mounted file system and the program: an invariant of every reachable state, through all
    requests, served one after the other, and changes of the remote tree; what is known is served without the remote file system; inode numbers identify
    paths; a name found missing stays missing; however the program ends of itself, the next run finds a good cache;
    a clean run releases what it took; usage errors; termination by signals, and the case in which a signal is
    lost.
  \<^item> Handlers: the first answer is that of the remote file system, later ones repeat it from the cache;
    direct nodes.
  \<^item> Content cache: the bytes stored are those of the remote file, under their digest, whatever fails; no
    file of anybody else is touched; without faults it succeeds.
  \<^item> Metadata cache: well-formedness through every history, with failed statements that took effect, refinement of a map from paths to rows, round trips of
    file information, hashes, targets and listings; opening and closing.
  \<^item> Retry layer: when a retried statement returns, its delays, that it is carried out once; that a query that
    meets contention never returns.
  \<^item> Statistics and status page: totals modulo \<open>2\<^sup>6\<^sup>4\<close>, which bytes are counted; the tables of the page, row by
    row and column by column, independence of map order, escaping, endpoints.

  \<^bold>\<open>Parameters and hypotheses.\<close> Code outside \<^verbatim>\<open>src/\<close> is a parameter: which system call (\<open>os_env\<close>), database call
  (\<open>engine\<close>, \<open>sql_driver\<close>) or write fails, whether a statement that fails took effect, the row numbers SQLite gives, what a text column returns, short reads, random
  numbers, the clock, the order of each map iteration, the FUSE library (\<open>fuse_lib\<close>), the regular expression, the printing
  of sizes, the handlers of \<^verbatim>\<open>net/http/pprof\<close>. \<open>engine_ok\<close> asks that row numbers are fresh and positive and that a text that does not read as a number is
  kept; nothing is asked about other texts, so a row may hold a changed digest (\<open>key_texts\<close>). \<open>kernel_ok\<close> asks for a tree
  without hard links and without names that hold the byte 0x01. \<open>env_ok\<close> asks that the suffixes of temporary files are digits. \<open>serves_requests\<close> asks that
  the FUSE library changes the world only through requests, one after the other. \<open>quiet\<close>, \<open>env_quiet\<close> and \<open>quiet_driver\<close> exclude faults
  where a theorem says that an operation succeeds. Every property with a hypothesis is followed by a witness that applies it.

  \<^bold>\<open>Not modelled.\<close>

  \<^item> Log messages.
  \<^item> Requests that overlap. The FUSE library runs each request in a goroutine of its own; here a handler runs to
    its end before the next one starts, so the locks of the nodes and races on temporary names have no
    counterpart, and neither has a process that is killed in the middle of a request.
  \<^item> Damage to the pages of the database. The program sets \<^verbatim>\<open>journal_mode = OFF\<close>: a statement that fails is
    modelled as not carried out or carried out in full, not in part.
  \<^item> The database file in the tree of the kernel. The rows are kept by the name of the file; the tree has only what
    the program itself does to the file, which is to remove it.
  \<^item> Flag parsing, \<^verbatim>\<open>http.ListenAndServe\<close> and what the \<^verbatim>\<open>pprof\<close> endpoints answer, which are library code.
  \<^item> The Go interfaces that only list methods, and the tests under \<^verbatim>\<open>internal/test\<close>.
  \<^item> Symbolic links inside a path: the kernel follows one only as the last element of a path that is opened.
\<close>

end
